(* ===== verification/Prelude.thy ===== *)
theory Prelude
  imports Main "HOL-Library.AList"
begin

text \<open>
  Shared vocabulary of the development: fact collections, results of code that may throw,
  the insertion-ordered \<open>Map\<close> of JavaScript, decimal numerals, and
  locales for transition systems (their invariants, their bounds, their coming to rest) that the state
  machines of the development interpret.
\<close>

section \<open>Fact collections\<close>

named_theorems js_simps \<open>rewrite rules for JavaScript values and containers\<close>
named_theorems step_simps \<open>effects of the elementary operations of the event loop\<close>

section \<open>Code that may throw\<close>

text \<open>
  A piece of code that either throws a value or returns one is a sum: \<open>Inl\<close> carries the
  thrown value, \<open>Inr\<close> the returned one. \<open>nullish\<close> is the operator \<open>??\<close>
  on values whose absence is \<open>undefined\<close>.
\<close>

definition bindE :: "'e + 'a \<Rightarrow> ('a \<Rightarrow> 'e + 'b) \<Rightarrow> 'e + 'b" where
  "bindE m f = (case m of Inl e \<Rightarrow> Inl e | Inr a \<Rightarrow> f a)"

lemma bindE_simps [simp]:
  "bindE (Inl e) f = Inl e"
  "bindE (Inr a) f = f a"
  by (simp_all add: bindE_def)

lemma bindE_Inr_iff: "bindE m f = Inr b \<longleftrightarrow> (\<exists>a. m = Inr a \<and> f a = Inr b)"
  by (cases m) auto

lemma bindE_Inl_iff: "bindE m f = Inl e \<longleftrightarrow> m = Inl e \<or> (\<exists>a. m = Inr a \<and> f a = Inl e)"
  by (cases m) auto

definition nullish :: "'a option \<Rightarrow> 'a option \<Rightarrow> 'a option" where
  "nullish a b = (case a of None \<Rightarrow> b | Some x \<Rightarrow> Some x)"

definition nullish_or :: "'a option \<Rightarrow> 'a \<Rightarrow> 'a" where
  "nullish_or a d = (case a of None \<Rightarrow> d | Some x \<Rightarrow> x)"

lemma nullish_simps [simp]:
  "nullish None b = b" "nullish (Some x) b = Some x"
  "nullish_or None d = d" "nullish_or (Some x) d = x"
  by (simp_all add: nullish_def nullish_or_def)

lemma nullish_eq_None [simp]: "nullish a b = None \<longleftrightarrow> a = None \<and> b = None"
  by (cases a) simp_all

section \<open>The insertion-ordered Map of JavaScript\<close>

text \<open>
  A \<open>Map\<close> keeps its entries in insertion order; \<open>set\<close> on a present key keeps the
  entry's place. \<^term>\<open>AList.update\<close> has that meaning. \<open>distinct_keys\<close> is the
  representation invariant of every \<open>Map\<close>.
\<close>

type_synonym ('k, 'v) jsmap = "('k \<times> 'v) list"

definition jm_get :: "('k, 'v) jsmap \<Rightarrow> 'k \<Rightarrow> 'v option" where
  "jm_get m k = map_of m k"

definition jm_set :: "'k \<Rightarrow> 'v \<Rightarrow> ('k, 'v) jsmap \<Rightarrow> ('k, 'v) jsmap" where
  "jm_set k v m = AList.update k v m"

definition jm_delete :: "'k \<Rightarrow> ('k, 'v) jsmap \<Rightarrow> ('k, 'v) jsmap" where
  "jm_delete k m = AList.delete k m"

definition jm_has :: "('k, 'v) jsmap \<Rightarrow> 'k \<Rightarrow> bool" where
  "jm_has m k = (jm_get m k \<noteq> None)"

definition jm_values :: "('k, 'v) jsmap \<Rightarrow> 'v list" where
  "jm_values m = map snd m"

definition distinct_keys :: "('k, 'v) jsmap \<Rightarrow> bool" where
  "distinct_keys m = distinct (map fst m)"

lemma jm_get_Nil [simp]: "jm_get [] k = None"
  by (simp add: jm_get_def)

lemma jm_get_Cons [simp]: "jm_get ((a, b) # m) k = (if a = k then Some b else jm_get m k)"
  by (simp add: jm_get_def)

lemma jm_get_set [simp, js_simps]:
  "jm_get (jm_set k v m) k' = (if k' = k then Some v else jm_get m k')"
  by (simp add: jm_get_def jm_set_def update_conv')

lemma jm_get_delete [simp, js_simps]:
  "jm_get (jm_delete k m) k' = (if k' = k then None else jm_get m k')"
  by (simp add: jm_get_def jm_delete_def delete_conv')

lemma distinct_keys_Nil [simp]: "distinct_keys []"
  by (simp add: distinct_keys_def)

lemma distinct_keys_set [simp, intro]: "distinct_keys m \<Longrightarrow> distinct_keys (jm_set k v m)"
  by (simp add: distinct_keys_def jm_set_def distinct_update)

lemma distinct_keys_delete [simp, intro]: "distinct_keys m \<Longrightarrow> distinct_keys (jm_delete k m)"
  by (simp add: distinct_keys_def jm_delete_def distinct_delete)

lemma jm_set_new: "k \<notin> fst ` set m \<Longrightarrow> jm_set k v m = m @ [(k, v)]"
  unfolding jm_set_def by (induction m) auto

lemma jm_set_keys: "k \<in> fst ` set m \<Longrightarrow> map fst (jm_set k v m) = map fst m"
  unfolding jm_set_def by (induction m) auto

lemma jm_get_Some_in: "jm_get m k = Some v \<Longrightarrow> (k, v) \<in> set m"
  unfolding jm_get_def by (rule map_of_SomeD)

lemma jm_get_in: "distinct_keys m \<Longrightarrow> jm_get m k = Some v \<longleftrightarrow> (k, v) \<in> set m"
  unfolding jm_get_def distinct_keys_def by (rule map_of_eq_Some_iff)

lemma set_jm_delete: "set (jm_delete k m) = {p \<in> set m. fst p \<noteq> k}"
  unfolding jm_delete_def by (auto simp: AList.delete_eq)

lemma set_jm_set_subset: "set (jm_set k v m) \<subseteq> insert (k, v) (set m)"
  unfolding jm_set_def by (induction m) auto

lemma jm_set_in [simp]: "(k, v) \<in> set (jm_set k v m)"
  unfolding jm_set_def by (induction m) auto

lemma jm_set_other: "p \<in> set m \<Longrightarrow> fst p \<noteq> k \<Longrightarrow> p \<in> set (jm_set k v m)"
  unfolding jm_set_def by (induction m) auto

section \<open>Decimal numerals\<close>

fun digits10 :: "nat \<Rightarrow> nat list" where
  "digits10 n = (if n < 10 then [n] else digits10 (n div 10) @ [n mod 10])"

declare digits10.simps [simp del]

lemma digits10_eval:
  "n < 10 \<Longrightarrow> digits10 n = [n]"
  "10 \<le> n \<Longrightarrow> digits10 n = digits10 (n div 10) @ [n mod 10]"
  by (subst digits10.simps, simp)+

definition digit_char :: "nat \<Rightarrow> char" where
  "digit_char d = char_of (48 + d)"

definition nat_str :: "nat \<Rightarrow> string" where
  "nat_str n = map digit_char (digits10 n)"

lemma digit_char_eval:
  "digit_char 0 = CHR ''0''" "digit_char 1 = CHR ''1''" "digit_char (Suc 0) = CHR ''1''"
  "digit_char 2 = CHR ''2''" "digit_char 3 = CHR ''3''" "digit_char 4 = CHR ''4''"
  "digit_char 5 = CHR ''5''" "digit_char 6 = CHR ''6''" "digit_char 7 = CHR ''7''"
  "digit_char 8 = CHR ''8''" "digit_char 9 = CHR ''9''"
  by (simp_all add: digit_char_def char_of_def bit_0)

lemmas nat_str_eval = nat_str_def digits10_eval digit_char_eval

definition int_str :: "int \<Rightarrow> string" where
  "int_str n = (if n < 0 then CHR ''-'' # nat_str (nat (- n)) else nat_str (nat n))"

section \<open>Invariants of transition systems\<close>

text \<open>
  A transition system given by its initial states and a step function that is partial: an
  action that is not enabled gives \<open>None\<close>. An invariant that holds initially and is kept
  by every enabled action holds after every run.
\<close>

fun run_actions :: "('a \<Rightarrow> 's \<Rightarrow> 's option) \<Rightarrow> 'a list \<Rightarrow> 's \<Rightarrow> 's option" where
  "run_actions f [] s = Some s"
| "run_actions f (a # as) s = (case f a s of None \<Rightarrow> None | Some t \<Rightarrow> run_actions f as t)"

lemma run_actions_append:
  "run_actions f (as @ bs) s = (case run_actions f as s of None \<Rightarrow> None | Some t \<Rightarrow> run_actions f bs t)"
  by (induction as arbitrary: s) (auto split: option.splits)

locale invariant_system =
  fixes act :: "'a \<Rightarrow> 's \<Rightarrow> 's option"
    and inv :: "'s \<Rightarrow> bool"
  assumes act_inv: "inv s \<Longrightarrow> act a s = Some t \<Longrightarrow> inv t"
begin

lemma run_inv: "run_actions act as s = Some t \<Longrightarrow> inv s \<Longrightarrow> inv t"
  by (induction as arbitrary: s) (auto split: option.splits intro: act_inv)

lemma run_prefix_inv:
  assumes "run_actions act (as @ bs) s = Some u" and "inv s"
  shows "\<exists>t. run_actions act as s = Some t \<and> inv t"
  using assms by (auto simp: run_actions_append split: option.splits intro: run_inv)

end

text \<open>
  A system whose every action raises a measure by at most what the action is worth: after a
  run the measure is at most its start plus the worth of the actions.
\<close>

locale bounded_system =
  fixes act :: "'a \<Rightarrow> 's \<Rightarrow> 's option"
    and amount :: "'s \<Rightarrow> nat"
    and worth :: "'a \<Rightarrow> nat"
  assumes act_bound: "act a s = Some t \<Longrightarrow> amount t \<le> amount s + worth a"
begin

lemma run_bound: "run_actions act as s = Some t \<Longrightarrow> amount t \<le> amount s + sum_list (map worth as)"
proof (induction as arbitrary: s)
  case (Cons a as)
  then obtain u where u: "act a s = Some u" "run_actions act as u = Some t"
    by (auto split: option.splits)
  with Cons.IH [of u] act_bound [OF u(1)] show ?case by simp
qed simp

end

text \<open>
  Steps that lower a measure: only as many of them happen as the measure says.
\<close>

locale measured_steps =
  fixes step :: "'s \<Rightarrow> 's \<Rightarrow> bool"
    and ok :: "'s \<Rightarrow> bool"
    and measured :: "'s \<Rightarrow> nat"
  assumes step_less: "ok s \<Longrightarrow> step s t \<Longrightarrow> ok t \<and> measured t < measured s"
begin

lemma steps_bounded: "(step ^^ n) s t \<Longrightarrow> ok s \<Longrightarrow> ok t \<and> measured t + n \<le> measured s"
proof (induction n arbitrary: t)
  case (Suc n)
  then obtain u where u: "(step ^^ n) s u" "step u t" by auto
  with Suc step_less [of u t] show ?case by fastforce
qed simp

end

text \<open>
  A system with inner actions that all lower a measure: between two other actions only as many of
  them run as the measure says, and the system comes to rest.
\<close>

locale measured_system =
  fixes act :: "'a \<Rightarrow> 's \<Rightarrow> 's option"
    and inner :: "'a \<Rightarrow> bool"
    and ok :: "'s \<Rightarrow> bool"
    and measured :: "'s \<Rightarrow> nat"
  assumes inner_step: "ok s \<Longrightarrow> inner a \<Longrightarrow> act a s = Some t \<Longrightarrow> ok t \<and> measured t < measured s"
begin

lemma inner_run: "run_actions act as s = Some t \<Longrightarrow> list_all inner as \<Longrightarrow> ok s \<Longrightarrow> ok t \<and> measured t + length as \<le> measured s"
proof (induction as arbitrary: s)
  case (Cons a as)
  then obtain u where u: "act a s = Some u" "run_actions act as u = Some t"
    by (auto split: option.splits)
  with Cons.prems have "ok u \<and> measured u < measured s" using inner_step by auto
  with u Cons.prems Cons.IH [of u] show ?case by auto
qed simp

lemma comes_to_rest:
  "ok s \<Longrightarrow> \<exists>as t. run_actions act as s = Some t \<and> list_all inner as \<and> (\<forall>a. inner a \<longrightarrow> act a t = None)"
proof (induction "measured s" arbitrary: s rule: less_induct)
  case less
  show ?case
  proof (cases "\<exists>a t. inner a \<and> act a s = Some t")
    case True
    then obtain a u where a: "inner a" "act a s = Some u" by blast
    then obtain as t where "run_actions act as u = Some t" "list_all inner as" "\<forall>a. inner a \<longrightarrow> act a t = None"
      using less inner_step by blast
    with a show ?thesis by (intro exI [of _ "a # as"] exI [of _ t]) simp
  next
    case False
    then show ?thesis by (intro exI [of _ "[]"] exI [of _ s]) auto
  qed
qed

end

sublocale measured_system \<subseteq> inner_steps: measured_steps "\<lambda>s t. \<exists>a. inner a \<and> act a s = Some t" ok measured
  by unfold_locales (blast dest: inner_step)

end
