(* ===== verification/Js_Value.thy ===== *)
theory Js_Value
  imports Prelude
begin

text \<open>
  JavaScript values and the language operations the extension uses: \<open>typeof\<close> tests,
  property reads and spreads, \<open>String.prototype.trim\<close>, \<open>Date.prototype.toISOString\<close>
  and \<open>Buffer\<close> decoding.

  A JavaScript string is its UTF-8 encoding (a list of 8-bit characters; a lone surrogate is its
  three-byte form), so \<open>Buffer.byteLength\<close> is the length of the list. A finite number is an
  exact decimal \<open>m * 10 ^ e\<close>; rounding to binary64 is not modelled. Objects keep their
  properties in insertion order (the special place of integer-like keys is not modelled), and an
  \<open>Error\<close> is its message with its other own properties.
\<close>

section \<open>Values\<close>

datatype jsnum = Fin int int | NaN | PosInf | NegInf

datatype jsval =
    JUndef
  | JNull
  | JBool bool
  | JNum jsnum
  | JStr string
  | JArr "jsval list"
  | JObj "(string \<times> jsval) list"
  | JError string "(string \<times> jsval) list"
  | JBytes string
  | JFun nat

abbreviation js_int :: "int \<Rightarrow> jsval" where
  "js_int n \<equiv> JNum (Fin n 0)"

definition opt_str :: "string option \<Rightarrow> jsval" where
  "opt_str s = (case s of None \<Rightarrow> JUndef | Some x \<Rightarrow> JStr x)"

lemma opt_str_simps [simp]:
  "opt_str None = JUndef" "opt_str (Some x) = JStr x"
  "opt_str s = JUndef \<longleftrightarrow> s = None" "opt_str s = JStr x \<longleftrightarrow> s = Some x"
  by (auto simp: opt_str_def split: option.splits)

fun as_string :: "jsval \<Rightarrow> string option" where
  "as_string (JStr s) = Some s"
| "as_string _ = None"

lemma as_string_eq_Some [simp]: "as_string v = Some s \<longleftrightarrow> v = JStr s"
  by (cases v) auto

definition js_nullish :: "jsval \<Rightarrow> jsval \<Rightarrow> jsval" where
  "js_nullish a b = (if a = JUndef \<or> a = JNull then b else a)"

text \<open>
  \<open>props\<close> are the own properties of a value; a read of an absent property is
  \<open>undefined\<close>. Reading a property of \<open>undefined\<close> or \<open>null\<close> throws, which
  the callers model; with \<open>?.\<close> the read gives \<open>undefined\<close>, as \<open>get\<close> does.
\<close>

fun props :: "jsval \<Rightarrow> (string \<times> jsval) list" where
  "props (JObj kvs) = kvs"
| "props (JError m kvs) = (''message'', JStr m) # kvs"
| "props _ = []"

definition get :: "jsval \<Rightarrow> string \<Rightarrow> jsval" where
  "get v k = (case map_of (props v) k of None \<Rightarrow> JUndef | Some x \<Rightarrow> x)"

definition has_prop :: "jsval \<Rightarrow> string \<Rightarrow> bool" where
  "has_prop v k = (map_of (props v) k \<noteq> None)"

definition js_spread :: "jsval \<Rightarrow> (string \<times> jsval) list \<Rightarrow> jsval" where
  "js_spread v kvs = JObj (fold (\<lambda>(k, x). AList.update k x) kvs (props v))"

lemma get_JObj: "get (JObj kvs) k = (case map_of kvs k of None \<Rightarrow> JUndef | Some x \<Rightarrow> x)"
  by (simp add: get_def)

lemma get_Nil [simp, js_simps]: "get (JObj []) k = JUndef"
  by (simp add: get_def)

lemma get_Cons [simp, js_simps]: "get (JObj ((a, x) # kvs)) k = (if a = k then x else get (JObj kvs) k)"
  by (simp add: get_def)

lemma get_update [simp, js_simps]:
  "get (JObj (AList.update a x kvs)) k = (if k = a then x else get (JObj kvs) k)"
  by (simp add: get_def update_conv')

lemma get_props: "get (JObj (props v)) k = get v k"
  by (simp add: get_def)

lemma js_spread_simps:
  "js_spread v [] = JObj (props v)"
  "js_spread v ((k, x) # kvs) = js_spread (JObj (AList.update k x (props v))) kvs"
  by (simp_all add: js_spread_def)

text \<open>\<open>typeof v === "object" && v !== null\<close>.\<close>

definition is_object :: "jsval \<Rightarrow> bool" where
  "is_object v = (case v of JArr _ \<Rightarrow> True | JObj _ \<Rightarrow> True | JError _ _ \<Rightarrow> True
     | JBytes _ \<Rightarrow> True | _ \<Rightarrow> False)"

definition is_array :: "jsval \<Rightarrow> bool" where
  "is_array v = (case v of JArr _ \<Rightarrow> True | _ \<Rightarrow> False)"

fun is_number :: "jsval \<Rightarrow> bool" where
  "is_number (JNum _) = True"
| "is_number _ = False"

fun is_finite_number :: "jsval \<Rightarrow> bool" where
  "is_finite_number (JNum (Fin _ _)) = True"
| "is_finite_number _ = False"

fun is_boolean :: "jsval \<Rightarrow> bool" where
  "is_boolean (JBool _) = True"
| "is_boolean _ = False"

section \<open>Trimming\<close>

text \<open>
  The UTF-8 encodings of the code points \<open>trim\<close> removes: ECMAScript's white space and
  line terminators. UTF-8 is self-synchronising, so removing an encoding from the end of a
  string is removing the code point.
\<close>

definition ws_codes :: "string list" where
  "ws_codes = [
     [CHR 0x09], [CHR 0x0A], [CHR 0x0B], [CHR 0x0C], [CHR 0x0D], [CHR 0x20],
     [CHR 0xC2, CHR 0xA0], [CHR 0xE1, CHR 0x9A, CHR 0x80], [CHR 0xE2, CHR 0x80, CHR 0x80],
     [CHR 0xE2, CHR 0x80, CHR 0x81], [CHR 0xE2, CHR 0x80, CHR 0x82],
     [CHR 0xE2, CHR 0x80, CHR 0x83], [CHR 0xE2, CHR 0x80, CHR 0x84],
     [CHR 0xE2, CHR 0x80, CHR 0x85], [CHR 0xE2, CHR 0x80, CHR 0x86],
     [CHR 0xE2, CHR 0x80, CHR 0x87], [CHR 0xE2, CHR 0x80, CHR 0x88],
     [CHR 0xE2, CHR 0x80, CHR 0x89], [CHR 0xE2, CHR 0x80, CHR 0x8A],
     [CHR 0xE2, CHR 0x80, CHR 0xA8], [CHR 0xE2, CHR 0x80, CHR 0xA9],
     [CHR 0xE2, CHR 0x80, CHR 0xAF], [CHR 0xE2, CHR 0x81, CHR 0x9F],
     [CHR 0xE3, CHR 0x80, CHR 0x80], [CHR 0xEF, CHR 0xBB, CHR 0xBF]]"

fun drop_prefix :: "'a list \<Rightarrow> 'a list \<Rightarrow> 'a list option" where
  "drop_prefix [] s = Some s"
| "drop_prefix (a # w) [] = None"
| "drop_prefix (a # w) (b # s) = (if a = b then drop_prefix w s else None)"

fun drop_first :: "'a list list \<Rightarrow> 'a list \<Rightarrow> 'a list option" where
  "drop_first [] s = None"
| "drop_first (w # ws) s =
     (case drop_prefix w s of
        Some r \<Rightarrow> (if length r < length s then Some r else drop_first ws s)
      | None \<Rightarrow> drop_first ws s)"

lemma drop_prefix_Some: "drop_prefix w s = Some r \<longleftrightarrow> s = w @ r"
  by (induction w s rule: drop_prefix.induct) auto

lemma drop_prefix_append [simp]: "drop_prefix w (w @ r) = Some r"
  by (simp add: drop_prefix_Some)

lemma drop_first_shorter: "drop_first ws s = Some r \<Longrightarrow> length r < length s"
  by (induction ws s rule: drop_first.induct) (auto split: option.splits if_splits)

function strip_words :: "'a list list \<Rightarrow> 'a list \<Rightarrow> 'a list" where
  "strip_words ws s = (case drop_first ws s of None \<Rightarrow> s | Some r \<Rightarrow> strip_words ws r)"
  by pat_completeness auto
termination
  by (relation "measure (\<lambda>(ws, s). length s)") (auto dest: drop_first_shorter)

declare strip_words.simps [simp del]

definition trim_start :: "string \<Rightarrow> string" where
  "trim_start s = strip_words ws_codes s"

definition trim_end :: "string \<Rightarrow> string" where
  "trim_end s = rev (strip_words (map rev ws_codes) (rev s))"

definition trim :: "string \<Rightarrow> string" where
  "trim s = trim_end (trim_start s)"

definition blank :: "string \<Rightarrow> bool" where
  "blank s = (trim s = [])"

lemma drop_first_None:
  "drop_first ws s = None \<longleftrightarrow> (\<forall>w \<in> set ws. w \<noteq> [] \<longrightarrow> (\<nexists>r. s = w @ r))"
proof (induction ws)
  case (Cons w ws)
  have "drop_prefix w s = None \<longleftrightarrow> (\<nexists>r. s = w @ r)"
    using drop_prefix_Some [of w s] by (cases "drop_prefix w s") auto
  with Cons show ?case
    by (cases "drop_prefix w s") (auto simp: drop_prefix_Some)
qed simp

lemma strip_words_None: "drop_first ws (strip_words ws s) = None"
  by (induction ws s rule: strip_words.induct)
     (subst strip_words.simps, auto split: option.splits)

lemma strip_words_id: "drop_first ws s = None \<Longrightarrow> strip_words ws s = s"
  by (subst strip_words.simps) simp

lemma strip_words_idem [simp]: "strip_words ws (strip_words ws s) = strip_words ws s"
  by (rule strip_words_id) (rule strip_words_None)

lemma drop_first_suffix: "drop_first ws s = Some r \<Longrightarrow> \<exists>p. s = p @ r"
  by (induction ws s rule: drop_first.induct)
     (auto split: option.splits if_splits simp: drop_prefix_Some)

lemma strip_words_suffix: "\<exists>p. s = p @ strip_words ws s"
proof (induction ws s rule: strip_words.induct)
  case (1 ws s)
  show ?case
  proof (cases "drop_first ws s")
    case None
    then show ?thesis by (simp add: strip_words_id)
  next
    case (Some r)
    with 1 obtain p where "r = p @ strip_words ws r" by blast
    moreover from Some have "strip_words ws s = strip_words ws r"
      by (subst strip_words.simps) simp
    ultimately show ?thesis
      using drop_first_suffix [OF Some] by (metis append.assoc)
  qed
qed

lemma trim_end_prefix: "\<exists>r. s = trim_end s @ r"
proof -
  obtain p where "rev s = p @ strip_words (map rev ws_codes) (rev s)"
    using strip_words_suffix by blast
  then have "s = trim_end s @ rev p"
    unfolding trim_end_def by (metis rev_append rev_rev_ident)
  then show ?thesis by blast
qed

lemma trim_idem [simp]: "trim (trim s) = trim s"
proof -
  have "drop_first ws_codes (trim_start s) = None"
    by (simp add: trim_start_def strip_words_None)
  then have "drop_first ws_codes (trim s) = None"
    using trim_end_prefix [of "trim_start s"]
    unfolding drop_first_None trim_def by (metis append.assoc)
  then have "trim_start (trim s) = trim s"
    by (simp add: trim_start_def strip_words_id)
  then show ?thesis
    by (simp add: trim_def trim_end_def)
qed

lemma trim_Nil [simp]: "trim [] = []"
  by (simp add: trim_def trim_start_def trim_end_def strip_words_id drop_first_None)

lemma blank_Nil [simp]: "blank []"
  by (simp add: blank_def)

lemma blank_trim [simp]: "blank (trim s) \<longleftrightarrow> blank s"
  by (simp add: blank_def)

lemma trim_id:
  assumes "drop_first ws_codes s = None" and "drop_first (map rev ws_codes) (rev s) = None"
  shows "trim s = s"
  using assms by (simp add: trim_def trim_start_def trim_end_def strip_words_id)

text \<open>
  A string that starts and ends with a printable ASCII character other than the space is its own
  trim; literals are decided by this rule.
\<close>

definition plain_char :: "char \<Rightarrow> bool" where
  "plain_char c = (32 < (of_char c :: nat) \<and> (of_char c :: nat) < 128)"

lemma ws_codes_ends:
  "\<forall>w \<in> set ws_codes. w \<noteq> [] \<and> \<not> plain_char (hd w) \<and> \<not> plain_char (last w)"
  by (simp add: ws_codes_def plain_char_def)

lemma trim_plain:
  assumes "s \<noteq> []" and "plain_char (hd s)" and "plain_char (last s)"
  shows "trim s = s"
proof (rule trim_id)
  show "drop_first ws_codes s = None"
    using ws_codes_ends assms(1,2) by (auto simp: drop_first_None)
  show "drop_first (map rev ws_codes) (rev s) = None"
  proof -
    have "\<not> plain_char (last s)" if "w \<in> set ws_codes" and "rev s = rev w @ r" for w r
    proof -
      from that(2) have "s = rev r @ w"
        by (metis rev_append rev_rev_ident)
      with that(1) ws_codes_ends show ?thesis by auto
    qed
    with assms(3) show ?thesis by (auto simp: drop_first_None)
  qed
qed

lemma blank_plain: "s \<noteq> [] \<Longrightarrow> plain_char (hd s) \<Longrightarrow> plain_char (last s) \<Longrightarrow> \<not> blank s"
  by (simp add: blank_def trim_plain)

lemma trim_space: "trim (CHR '' '' # s) = trim s"
proof -
  have "drop_first ws_codes (CHR '' '' # s) = Some s"
    by (simp add: ws_codes_def)
  then show ?thesis
    by (simp add: trim_def trim_start_def strip_words.simps [of _ "CHR '' '' # s"])
qed

lemma trim_example: "trim '' a b'' = ''a b''"
  by (simp add: trim_space trim_plain plain_char_def)

section \<open>Buffer decoding\<close>

text \<open>
  \<open>Buffer.toString("utf8")\<close> keeps well-formed sequences and replaces every maximal
  ill-formed part by U+FFFD. \<open>utf8_need b\<close> is the number of continuation bytes a lead byte
  asks for and the range of the first of them.
\<close>

definition utf8_need :: "nat \<Rightarrow> (nat \<times> nat \<times> nat) option" where
  "utf8_need b =
     (if b < 128 then Some (0, 0, 0)
      else if 194 \<le> b \<and> b \<le> 223 then Some (1, 128, 191)
      else if b = 224 then Some (2, 160, 191)
      else if b = 237 then Some (2, 128, 159)
      else if 225 \<le> b \<and> b \<le> 239 then Some (2, 128, 191)
      else if b = 240 then Some (3, 144, 191)
      else if b = 244 then Some (3, 128, 143)
      else if 241 \<le> b \<and> b \<le> 243 then Some (3, 128, 191)
      else None)"

fun utf8_conts :: "nat \<Rightarrow> nat \<Rightarrow> nat \<Rightarrow> string \<Rightarrow> nat" where
  "utf8_conts 0 lo hi s = 0"
| "utf8_conts (Suc n) lo hi [] = 0"
| "utf8_conts (Suc n) lo hi (c # s) =
     (if lo \<le> of_char c \<and> of_char c \<le> hi then Suc (utf8_conts n 128 191 s) else 0)"

definition replacement_char :: string where
  "replacement_char = [CHR 0xEF, CHR 0xBF, CHR 0xBD]"

function utf8_decode :: "string \<Rightarrow> string" where
  "utf8_decode [] = []"
| "utf8_decode (c # s) =
     (case utf8_need (of_char c) of
        None \<Rightarrow> replacement_char @ utf8_decode s
      | Some (n, lo, hi) \<Rightarrow>
          (let k = utf8_conts n lo hi s in
           (if k = n then c # take n s else replacement_char) @ utf8_decode (drop k s)))"
  by pat_completeness auto
termination
  by (relation "measure length") auto

lemma utf8_decode_ascii: "\<forall>c \<in> set s. (of_char c :: nat) < 128 \<Longrightarrow> utf8_decode s = s"
  by (induction s) (simp_all add: utf8_need_def)

section \<open>Dates\<close>

text \<open>
  \<open>new Date(ms).toISOString()\<close> for years 0 to 9999: the civil date of a day number counted
  from 1970-01-01, computed with years that begin in March.
\<close>

definition pad :: "nat \<Rightarrow> nat \<Rightarrow> string" where
  "pad w n = replicate (w - length (nat_str n)) CHR ''0'' @ nat_str n"

definition civil_from_days :: "nat \<Rightarrow> nat \<times> nat \<times> nat" where
  "civil_from_days days =
     (let z = days + 719468; era = z div 146097; doe = z mod 146097;
          yoe = (doe - doe div 1460 + doe div 36524 - doe div 146096) div 365;
          doy = doe - (365 * yoe + yoe div 4 - yoe div 100);
          mp = (5 * doy + 2) div 153;
          d = doy - (153 * mp + 2) div 5 + 1;
          m = (if mp < 10 then mp + 3 else mp - 9)
      in (yoe + era * 400 + (if m \<le> 2 then 1 else 0), m, d))"

definition iso_string :: "nat \<Rightarrow> string" where
  "iso_string ms =
     (let secs = ms div 1000; tod = secs mod 86400; (y, m, d) = civil_from_days (secs div 86400)
      in pad 4 y @ ''-'' @ pad 2 m @ ''-'' @ pad 2 d @ ''T'' @ pad 2 (tod div 3600) @ '':''
         @ pad 2 (tod div 60 mod 60) @ '':'' @ pad 2 (tod mod 60) @ ''.''
         @ pad 3 (ms mod 1000) @ ''Z'')"

end
