(* ===== verification/Json.thy ===== *)
theory Json
  imports Js_Value
begin

text \<open>
  \<open>JSON.stringify\<close> (without indentation) and \<open>JSON.parse\<close>, the two library functions
  between the extension's values and the text frames of the wire. Strings are UTF-8 encodings, so
  the length of a serialised text is its \<open>Buffer.byteLength\<close>.
\<close>

section \<open>JSON.stringify\<close>

definition hex_digit :: "nat \<Rightarrow> char" where
  "hex_digit d = (if d < 10 then char_of (48 + d) else char_of (87 + d))"

definition hex4 :: "nat \<Rightarrow> string" where
  "hex4 n = map hex_digit [n div 4096 mod 16, n div 256 mod 16, n div 16 mod 16, n mod 16]"

definition json_escape :: "char \<Rightarrow> string" where
  "json_escape c =
     (if c = CHR 0x22 then [CHR 0x5C, CHR 0x22]
      else if c = CHR 0x5C then [CHR 0x5C, CHR 0x5C]
      else if c = CHR 0x08 then [CHR 0x5C, CHR ''b'']
      else if c = CHR 0x09 then [CHR 0x5C, CHR ''t'']
      else if c = CHR 0x0A then [CHR 0x5C, CHR ''n'']
      else if c = CHR 0x0C then [CHR 0x5C, CHR ''f'']
      else if c = CHR 0x0D then [CHR 0x5C, CHR ''r'']
      else if (of_char c :: nat) < 32 then [CHR 0x5C, CHR ''u''] @ hex4 (of_char c)
      else [c])"

text \<open>A lone surrogate, \<open>ED A0..BF xx\<close>, is written as a \<open>u\<close>-escape.\<close>

definition surrogate_tail :: "string \<Rightarrow> bool" where
  "surrogate_tail s = (case s of b # _ # _ \<Rightarrow> 160 \<le> (of_char b :: nat) \<and> (of_char b :: nat) < 192 | _ \<Rightarrow> False)"

definition surrogate_code :: "string \<Rightarrow> nat" where
  "surrogate_code s = 53248 + (of_char (s ! 0) - 128) * 64 + (of_char (s ! 1) - 128)"

function quote_body :: "string \<Rightarrow> string" where
  "quote_body [] = []"
| "quote_body (c # s) =
     (if c = CHR 0xED \<and> surrogate_tail s
      then [CHR 0x5C, CHR ''u''] @ hex4 (surrogate_code s) @ quote_body (drop 2 s)
      else json_escape c @ quote_body s)"
  by pat_completeness auto
termination
  by (relation "measure length") auto

definition json_quote :: "string \<Rightarrow> string" where
  "json_quote s = CHR 0x22 # quote_body s @ [CHR 0x22]"

text \<open>
  \<open>Number::toString\<close> of an exact decimal: \<open>m * 10 ^ e\<close> without trailing zeros in
  \<open>m\<close> has \<open>k\<close> digits and the decimal point after the \<open>n\<close>-th.
\<close>

fun strip_zeros :: "nat list \<Rightarrow> nat list" where
  "strip_zeros (0 # ds) = strip_zeros ds"
| "strip_zeros ds = ds"

definition num_str :: "int \<Rightarrow> int \<Rightarrow> string" where
  "num_str m e =
     (if m = 0 then ''0'' else
      let all = digits10 (nat \<bar>m\<bar>); ds = rev (strip_zeros (rev all)); s = map digit_char ds;
          k = int (length s); n = int (length all) + e;
          body =
            (if k \<le> n \<and> n \<le> 21 then s @ replicate (nat (n - k)) CHR ''0''
             else if 0 < n \<and> n \<le> 21 then take (nat n) s @ ''.'' @ drop (nat n) s
             else if -6 < n \<and> n \<le> 0 then ''0.'' @ replicate (nat (- n)) CHR ''0'' @ s
             else take 1 s @ (if k = 1 then [] else ''.'' @ drop 1 s) @ ''e''
                  @ (if n - 1 < 0 then ''-'' else ''+'') @ nat_str (nat \<bar>n - 1\<bar>))
      in (if m < 0 then ''-'' @ body else body))"

fun json_num :: "jsnum \<Rightarrow> string" where
  "json_num (Fin m e) = num_str m e"
| "json_num _ = ''null''"

fun comma_sep :: "string list \<Rightarrow> string" where
  "comma_sep [] = []"
| "comma_sep [s] = s"
| "comma_sep (s # ss) = s @ '','' @ comma_sep ss"

fun json_val :: "jsval \<Rightarrow> string option"
  and json_elems :: "jsval list \<Rightarrow> string list"
  and json_members :: "(string \<times> jsval) list \<Rightarrow> string list" where
  "json_val JUndef = None"
| "json_val JNull = Some ''null''"
| "json_val (JBool b) = Some (if b then ''true'' else ''false'')"
| "json_val (JNum n) = Some (json_num n)"
| "json_val (JStr s) = Some (json_quote s)"
| "json_val (JArr xs) = Some (''['' @ comma_sep (json_elems xs) @ '']'')"
| "json_val (JObj kvs) = Some (''{'' @ comma_sep (json_members kvs) @ ''}'')"
| "json_val (JError m kvs) = Some (''{'' @ comma_sep (json_members kvs) @ ''}'')"
| "json_val (JBytes b) =
     Some (''{'' @ comma_sep (map (\<lambda>(i, c). json_quote (nat_str i) @ '':'' @ nat_str (of_char c))
                                (zip [0..<length b] b)) @ ''}'')"
| "json_val (JFun n) = None"
| "json_elems [] = []"
| "json_elems (x # xs) = (case json_val x of None \<Rightarrow> ''null'' | Some s \<Rightarrow> s) # json_elems xs"
| "json_members [] = []"
| "json_members ((k, x) # kvs) =
     (case json_val x of
        None \<Rightarrow> json_members kvs
      | Some s \<Rightarrow> (json_quote k @ '':'' @ s) # json_members kvs)"

text \<open>\<open>JSON.stringify\<close> of an object or an array, the only values the extension serialises.\<close>

definition json_stringify :: "jsval \<Rightarrow> string" where
  "json_stringify v = (case json_val v of None \<Rightarrow> ''undefined'' | Some s \<Rightarrow> s)"

text \<open>Members that are \<open>undefined\<close> leave no trace in the text.\<close>

lemma json_members_filter:
  "json_members kvs = json_members (filter (\<lambda>p. snd p \<noteq> JUndef) kvs)"
  by (induction kvs) (auto split: option.splits)

section \<open>JSON.parse\<close>

definition json_ws :: "char \<Rightarrow> bool" where
  "json_ws c = (c = CHR 0x20 \<or> c = CHR 0x09 \<or> c = CHR 0x0A \<or> c = CHR 0x0D)"

definition skip_ws :: "string \<Rightarrow> string" where
  "skip_ws s = dropWhile json_ws s"

lemma skip_ws_le: "length (skip_ws s) \<le> length s"
  unfolding skip_ws_def by (rule length_dropWhile_le)

lemma skip_ws_Cons: "skip_ws s = c # r \<Longrightarrow> length r < length s"
  using skip_ws_le [of s] by simp

definition hex_value :: "char \<Rightarrow> nat option" where
  "hex_value c =
     (let n = of_char c in
      if 48 \<le> n \<and> n \<le> 57 then Some (n - 48)
      else if 97 \<le> n \<and> n \<le> 102 then Some (n - 87)
      else if 65 \<le> n \<and> n \<le> 70 then Some (n - 55) else None)"

fun parse_hex4 :: "string \<Rightarrow> nat option" where
  "parse_hex4 (a # b # c # d # _) =
     (case (hex_value a, hex_value b, hex_value c, hex_value d) of
        (Some w, Some x, Some y, Some z) \<Rightarrow> Some (w * 4096 + x * 256 + y * 16 + z)
      | _ \<Rightarrow> None)"
| "parse_hex4 _ = None"

definition utf8_encode :: "nat \<Rightarrow> string" where
  "utf8_encode n = map char_of
     (if n < 128 then [n]
      else if n < 2048 then [192 + n div 64, 128 + n mod 64]
      else if n < 65536 then [224 + n div 4096, 128 + n div 64 mod 64, 128 + n mod 64]
      else [240 + n div 262144, 128 + n div 4096 mod 64, 128 + n div 64 mod 64, 128 + n mod 64])"

definition simple_escape :: "char \<Rightarrow> char option" where
  "simple_escape c =
     (if c = CHR 0x22 \<or> c = CHR 0x5C \<or> c = CHR ''/'' then Some c
      else if c = CHR ''b'' then Some CHR 0x08
      else if c = CHR ''f'' then Some CHR 0x0C
      else if c = CHR ''n'' then Some CHR 0x0A
      else if c = CHR ''r'' then Some CHR 0x0D
      else if c = CHR ''t'' then Some CHR 0x09 else None)"

text \<open>
  The escape after a backslash and a \<open>u\<close>: the encoded text and the number of characters
  consumed. A high surrogate followed by the escape of a low one is one code point.
\<close>

definition unescape_u :: "string \<Rightarrow> (string \<times> nat) option" where
  "unescape_u r =
     (case parse_hex4 r of
        None \<Rightarrow> None
      | Some n \<Rightarrow>
          (case parse_hex4 (drop 6 r) of
             Some l \<Rightarrow>
               (if 55296 \<le> n \<and> n < 56320 \<and> take 2 (drop 4 r) = [CHR 0x5C, CHR ''u'']
                   \<and> 56320 \<le> l \<and> l < 57344
                then Some (utf8_encode (65536 + (n - 55296) * 1024 + (l - 56320)), 10)
                else Some (utf8_encode n, 4))
           | None \<Rightarrow> Some (utf8_encode n, 4)))"

function parse_string_body :: "string \<Rightarrow> (string \<times> string) option" where
  "parse_string_body [] = None"
| "parse_string_body (c # s) =
     (if c = CHR 0x22 then Some ([], s)
      else if c = CHR 0x5C then
        (case s of
           [] \<Rightarrow> None
         | e # r \<Rightarrow>
             (if e = CHR ''u'' then
                (case unescape_u r of
                   None \<Rightarrow> None
                 | Some (x, k) \<Rightarrow>
                     map_option (\<lambda>(y, rest). (x @ y, rest)) (parse_string_body (drop k r)))
              else
                (case simple_escape e of
                   None \<Rightarrow> None
                 | Some x \<Rightarrow> map_option (\<lambda>(y, rest). (x # y, rest)) (parse_string_body r))))
      else if (of_char c :: nat) < 32 then None
      else map_option (\<lambda>(y, rest). (c # y, rest)) (parse_string_body s))"
  by pat_completeness auto
termination
  by (relation "measure length") auto

lemma parse_string_body_shorter: "parse_string_body s = Some (x, r) \<Longrightarrow> length r < length s"
proof (induction s arbitrary: x r rule: parse_string_body.induct)
  case (2 c s)
  then show ?case
    by (fastforce split: if_splits list.splits option.splits)
qed simp

definition digit :: "char \<Rightarrow> bool" where
  "digit c = (48 \<le> (of_char c :: nat) \<and> (of_char c :: nat) \<le> 57)"

definition digits_value :: "string \<Rightarrow> int" where
  "digits_value s = foldl (\<lambda>n c. n * 10 + (of_char c - 48)) 0 s"

definition parse_int_part :: "string \<Rightarrow> (string \<times> string) option" where
  "parse_int_part s =
     (case s of
        [] \<Rightarrow> None
      | c # r \<Rightarrow> (if c = CHR ''0'' then Some ([c], r)
                  else if digit c then Some (takeWhile digit s, dropWhile digit s) else None))"

definition parse_frac :: "string \<Rightarrow> (string \<times> string) option" where
  "parse_frac s =
     (case s of
        c # r \<Rightarrow> (if c = CHR ''.'' then
                     (if takeWhile digit r = [] then None else Some (takeWhile digit r, dropWhile digit r))
                   else Some ([], s))
      | [] \<Rightarrow> Some ([], s))"

definition parse_exp :: "string \<Rightarrow> (int \<times> string) option" where
  "parse_exp s =
     (case s of
        c # r \<Rightarrow>
          (if c = CHR ''e'' \<or> c = CHR ''E'' then
             (let neg = (take 1 r = ''-'');
                  ds = (if take 1 r = ''-'' \<or> take 1 r = ''+'' then drop 1 r else r)
              in (if takeWhile digit ds = [] then None
                  else Some ((if neg then -1 else 1) * digits_value (takeWhile digit ds), dropWhile digit ds)))
           else Some (0, s))
      | [] \<Rightarrow> Some (0, s))"

definition parse_number :: "string \<Rightarrow> (jsnum \<times> string) option" where
  "parse_number s =
     (let neg = (take 1 s = ''-''); body = (if neg then drop 1 s else s) in
      case parse_int_part body of
        None \<Rightarrow> None
      | Some (ip, r1) \<Rightarrow>
          (case parse_frac r1 of
             None \<Rightarrow> None
           | Some (fp, r2) \<Rightarrow>
               (case parse_exp r2 of
                  None \<Rightarrow> None
                | Some (e, r3) \<Rightarrow>
                    Some (Fin ((if neg then -1 else 1) * digits_value (ip @ fp)) (e - int (length fp)), r3))))"

definition parse_literal :: "string \<Rightarrow> (jsval \<times> string) option" where
  "parse_literal s =
     (if take 4 s = ''null'' then Some (JNull, drop 4 s)
      else if take 4 s = ''true'' then Some (JBool True, drop 4 s)
      else if take 5 s = ''false'' then Some (JBool False, drop 5 s)
      else map_option (\<lambda>(n, r). (JNum n, r)) (parse_number s))"

text \<open>
  The length guards always hold; they are what makes the recursion evidently well-founded.
\<close>

function parse_value :: "string \<Rightarrow> (jsval \<times> string) option"
  and parse_elems :: "string \<Rightarrow> (jsval list \<times> string) option"
  and parse_members :: "string \<Rightarrow> ((string \<times> jsval) list \<times> string) option" where
  "parse_value s =
     (case skip_ws s of
        [] \<Rightarrow> None
      | c # r \<Rightarrow>
          (if c = CHR 0x22 then map_option (\<lambda>(x, t). (JStr x, t)) (parse_string_body r)
           else if c = CHR ''['' then
             (if take 1 (skip_ws r) = '']'' then Some (JArr [], drop 1 (skip_ws r))
              else map_option (\<lambda>(xs, t). (JArr xs, t)) (parse_elems r))
           else if c = CHR ''{'' then
             (if take 1 (skip_ws r) = ''}'' then Some (JObj [], drop 1 (skip_ws r))
              else map_option (\<lambda>(kvs, t). (JObj (fold (\<lambda>(k, x). AList.update k x) kvs []), t))
                     (parse_members r))
           else parse_literal (c # r)))"
| "parse_elems s =
     (case parse_value s of
        None \<Rightarrow> None
      | Some (v, r) \<Rightarrow>
          (if length r < length s then
             (case skip_ws r of
                [] \<Rightarrow> None
              | c # t \<Rightarrow> (if c = CHR '']'' then Some ([v], t)
                          else if c = CHR '','' then map_option (\<lambda>(xs, u). (v # xs, u)) (parse_elems t)
                          else None))
           else None))"
| "parse_members s =
     (case skip_ws s of
        [] \<Rightarrow> None
      | q # r \<Rightarrow>
          (if q \<noteq> CHR 0x22 then None
           else
             (case parse_string_body r of
                None \<Rightarrow> None
              | Some (k, r1) \<Rightarrow>
                  (case skip_ws r1 of
                     [] \<Rightarrow> None
                   | colon # r2 \<Rightarrow>
                       (if colon \<noteq> CHR '':'' then None
                        else
                          (case parse_value r2 of
                             None \<Rightarrow> None
                           | Some (v, r3) \<Rightarrow>
                               (if length r3 < length r2 then
                                  (case skip_ws r3 of
                                     [] \<Rightarrow> None
                                   | c # t \<Rightarrow>
                                       (if c = CHR ''}'' then Some ([(k, v)], t)
                                        else if c = CHR '','' then
                                          map_option (\<lambda>(kvs, u). ((k, v) # kvs, u)) (parse_members t)
                                        else None))
                                else None)))))))"
  by pat_completeness auto
termination
proof (relation "measure (\<lambda>x. case x of Inl s \<Rightarrow> 2 * length s
                     | Inr (Inl s) \<Rightarrow> 2 * length s + 1 | Inr (Inr s) \<Rightarrow> 2 * length s + 1)", goal_cases)
qed (auto dest!: skip_ws_Cons parse_string_body_shorter)

declare parse_value.simps [simp del] parse_elems.simps [simp del] parse_members.simps [simp del]

definition json_parse :: "string \<Rightarrow> jsval option" where
  "json_parse s =
     (case parse_value s of
        None \<Rightarrow> None
      | Some (v, r) \<Rightarrow> (if skip_ws r = [] then Some v else None))"

lemmas parse_simps = parse_value.simps parse_elems.simps parse_members.simps

end
