(* ===== verification/Config.thy ===== *)
theory Config
  imports Json
begin

text \<open>
  The configuration of the client (\<open>extension/src/state/config.ts\<close>): URL normalisation, the
  installer's configuration file and the merge with explicit options. The process environment, the
  file system and \<open>path.join\<close> are Node's and come as a record of functions.
\<close>

record node_host =
  env_var :: "string \<Rightarrow> string option"
  host_homedir :: string
  path_join :: "string list \<Rightarrow> string"
  file_exists :: "string \<Rightarrow> bool"
  file_read :: "string \<Rightarrow> jsval + string"

definition DEFAULT_RELAY_HTTP_URL :: string where
  "DEFAULT_RELAY_HTTP_URL = ''http://127.0.0.1:8080''"

definition DEFAULT_RELAY_WS_URL :: string where
  "DEFAULT_RELAY_WS_URL = ''ws://127.0.0.1:8080/ws''"

definition DEFAULT_DEVICE_NAME :: string where
  "DEFAULT_DEVICE_NAME = ''remote-intercom-extension''"

text \<open>
  An option object: each property is absent (\<open>None\<close>), present with the value
  \<open>undefined\<close> (\<open>Some None\<close>) or present with a string. The difference matters to the
  spread that merges the file with the explicit options.
\<close>

record relay_client_config =
  cfg_relayHttpUrl :: "string option option"
  cfg_relayWsUrl :: "string option option"
  cfg_deviceName :: "string option option"
  cfg_deviceId :: "string option option"
  cfg_clientVersion :: "string option option"

definition empty_config :: relay_client_config where
  "empty_config = \<lparr>cfg_relayHttpUrl = None, cfg_relayWsUrl = None, cfg_deviceName = None,
     cfg_deviceId = None, cfg_clientVersion = None\<rparr>"

record normalized_config =
  relayHttpUrl :: string
  relayWsUrl :: string
  cfgDeviceName :: string
  cfgDeviceId :: "string option"
  cfgClientVersion :: "string option"

section \<open>Operations\<close>

definition strip_slashes :: "string \<Rightarrow> string" where
  "strip_slashes s = rev (dropWhile (\<lambda>c. c = CHR ''/'') (rev s))"

definition normalizeBaseUrl :: "string \<Rightarrow> jsval + string" where
  "normalizeBaseUrl rawUrl =
     (let trimmed = trim rawUrl in
      if trimmed = [] then Inl (JError ''relay URL must not be empty'' [])
      else Inr (strip_slashes trimmed))"

definition nonEmpty :: "string option \<Rightarrow> string option" where
  "nonEmpty value =
     (case value of None \<Rightarrow> None
      | Some s \<Rightarrow> (let trimmed = trim s in if trimmed = [] then None else Some trimmed))"

definition defaultDeviceName :: "node_host \<Rightarrow> string" where
  "defaultDeviceName h =
     (case map_option trim (env_var h ''HOSTNAME'') of
        None \<Rightarrow> DEFAULT_DEVICE_NAME
      | Some hostname \<Rightarrow> (if hostname = [] then DEFAULT_DEVICE_NAME else hostname))"

definition defaultConfigPath :: "node_host \<Rightarrow> string" where
  "defaultConfigPath h =
     (let configuredDir = nonEmpty (env_var h ''PI_REMOTE_INTERCOM_CONFIG_DIR'') in
      path_join h [nullish_or configuredDir (path_join h [host_homedir h, ''.pi'', ''remote-intercom'']),
                   ''config.json''])"

definition stringValue :: "jsval \<Rightarrow> string option" where
  "stringValue v = as_string v"

definition syntax_error :: jsval where
  "syntax_error = JError ''invalid JSON'' []"

definition loadDefaultConfigFile :: "node_host \<Rightarrow> jsval + relay_client_config" where
  "loadDefaultConfigFile h =
     (let path = defaultConfigPath h in
      if \<not> file_exists h path then Inr empty_config
      else bindE (file_read h path) (\<lambda>text.
        case json_parse text of
          None \<Rightarrow> Inl syntax_error
        | Some parsed \<Rightarrow>
            if \<not> is_object parsed then Inr empty_config
            else Inr \<lparr>cfg_relayHttpUrl = Some (stringValue (get parsed ''relayHttpUrl'')),
                      cfg_relayWsUrl = Some (stringValue (get parsed ''relayWsUrl'')),
                      cfg_deviceName = Some (stringValue (get parsed ''deviceName'')),
                      cfg_deviceId = Some (stringValue (get parsed ''deviceId'')),
                      cfg_clientVersion = Some (stringValue (get parsed ''clientVersion''))\<rparr>))"

text \<open>\<open>{ ...file, ...config }\<close>: a property of the second object wins when it is present.\<close>

definition spread_config :: "relay_client_config \<Rightarrow> relay_client_config \<Rightarrow> relay_client_config" where
  "spread_config file config =
     \<lparr>cfg_relayHttpUrl = nullish (cfg_relayHttpUrl config) (cfg_relayHttpUrl file),
      cfg_relayWsUrl = nullish (cfg_relayWsUrl config) (cfg_relayWsUrl file),
      cfg_deviceName = nullish (cfg_deviceName config) (cfg_deviceName file),
      cfg_deviceId = nullish (cfg_deviceId config) (cfg_deviceId file),
      cfg_clientVersion = nullish (cfg_clientVersion config) (cfg_clientVersion file)\<rparr>"

definition prop_value :: "string option option \<Rightarrow> string option" where
  "prop_value p = nullish_or p None"

definition normalizeConfig :: "node_host \<Rightarrow> relay_client_config \<Rightarrow> jsval + normalized_config" where
  "normalizeConfig h config =
     bindE (loadDefaultConfigFile h) (\<lambda>file.
       let merged = spread_config file config in
       bindE (normalizeBaseUrl (nullish_or (prop_value (cfg_relayHttpUrl merged)) DEFAULT_RELAY_HTTP_URL)) (\<lambda>http.
       bindE (normalizeBaseUrl (nullish_or (prop_value (cfg_relayWsUrl merged)) DEFAULT_RELAY_WS_URL)) (\<lambda>ws.
       Inr \<lparr>relayHttpUrl = http, relayWsUrl = ws,
            cfgDeviceName = nullish_or (nonEmpty (prop_value (cfg_deviceName merged))) (defaultDeviceName h),
            cfgDeviceId = nonEmpty (prop_value (cfg_deviceId merged)),
            cfgClientVersion = nonEmpty (prop_value (cfg_clientVersion merged))\<rparr>)))"

section \<open>Lemmas\<close>

lemma nonEmpty_simps [simp]:
  "nonEmpty None = None"
  "nonEmpty (Some s) = (if blank s then None else Some (trim s))"
  by (simp_all add: nonEmpty_def blank_def)

lemma nonEmpty_Some: "nonEmpty v = Some t \<Longrightarrow> \<not> blank t \<and> trim t = t"
  by (cases v) (auto split: if_splits)

lemma prop_value_simps [simp]: "prop_value None = None" "prop_value (Some x) = x"
  by (simp_all add: prop_value_def)

lemma strip_slashes_append: "\<exists>n. s = strip_slashes s @ replicate n CHR ''/''"
proof -
  let ?p = "\<lambda>c. c = CHR ''/''"
  have "takeWhile ?p (rev s) = replicate (length (takeWhile ?p (rev s))) CHR ''/''"
    by (rule replicate_length_same [symmetric]) (auto dest: set_takeWhileD)
  then have "rev s = replicate (length (takeWhile ?p (rev s))) CHR ''/'' @ dropWhile ?p (rev s)"
    by (metis takeWhile_dropWhile_id)
  then have "s = strip_slashes s @ replicate (length (takeWhile ?p (rev s))) CHR ''/''"
    unfolding strip_slashes_def by (metis rev_append rev_replicate rev_rev_ident)
  then show ?thesis by blast
qed

lemma strip_slashes_no_slash: "strip_slashes s = [] \<or> last (strip_slashes s) \<noteq> CHR ''/''"
  using hd_dropWhile [of "\<lambda>c. c = CHR ''/''" "rev s"]
  by (auto simp: strip_slashes_def last_rev)

lemma normalizeBaseUrl_cases:
  "normalizeBaseUrl u = (if blank u then Inl (JError ''relay URL must not be empty'' [])
                         else Inr (strip_slashes (trim u)))"
  by (simp add: normalizeBaseUrl_def blank_def Let_def)

lemma default_urls:
  "normalizeBaseUrl DEFAULT_RELAY_HTTP_URL = Inr DEFAULT_RELAY_HTTP_URL"
  "normalizeBaseUrl DEFAULT_RELAY_WS_URL = Inr DEFAULT_RELAY_WS_URL"
  by (simp_all add: normalizeBaseUrl_cases DEFAULT_RELAY_HTTP_URL_def DEFAULT_RELAY_WS_URL_def
      blank_plain trim_plain plain_char_def strip_slashes_def)

lemma defaultDeviceName_ok:
  "\<not> blank (defaultDeviceName h) \<and> trim (defaultDeviceName h) = defaultDeviceName h"
proof -
  have "trim DEFAULT_DEVICE_NAME = DEFAULT_DEVICE_NAME" "\<not> blank DEFAULT_DEVICE_NAME"
    by (simp_all add: DEFAULT_DEVICE_NAME_def trim_plain blank_plain plain_char_def)
  then show ?thesis
    by (auto simp: defaultDeviceName_def blank_def split: option.splits)
qed

text \<open>What every normalised configuration satisfies.\<close>

definition no_trailing_slash :: "string \<Rightarrow> bool" where
  "no_trailing_slash u = (u = [] \<or> last u \<noteq> CHR ''/'')"

definition clean_name :: "string \<Rightarrow> bool" where
  "clean_name s = (\<not> blank s \<and> trim s = s)"

definition config_ok :: "normalized_config \<Rightarrow> bool" where
  "config_ok c =
     (no_trailing_slash (relayHttpUrl c) \<and> no_trailing_slash (relayWsUrl c) \<and>
      clean_name (cfgDeviceName c) \<and>
      pred_option clean_name (cfgDeviceId c) \<and> pred_option clean_name (cfgClientVersion c))"

lemma normalizeBaseUrl_no_slash: "normalizeBaseUrl u = Inr v \<Longrightarrow> no_trailing_slash v"
  using strip_slashes_no_slash
  by (auto simp: normalizeBaseUrl_cases no_trailing_slash_def split: if_splits)

lemma nonEmpty_clean: "pred_option clean_name (nonEmpty v)"
  by (cases v) (auto simp: clean_name_def)

lemma nullish_or_clean:
  "pred_option clean_name a \<Longrightarrow> clean_name d \<Longrightarrow> clean_name (nullish_or a d)"
  by (cases a) auto

lemma defaultDeviceName_clean: "clean_name (defaultDeviceName h)"
  using defaultDeviceName_ok by (simp add: clean_name_def)

section \<open>Properties\<close>

text \<open>C40. \<open>normalizeBaseUrl\<close> throws exactly on blank input; otherwise its result is the
  trimmed URL without its trailing slashes.\<close>

theorem normalizeBaseUrl_spec:
  "normalizeBaseUrl raw = Inr u \<longleftrightarrow>
     \<not> blank raw \<and> (\<exists>n. trim raw = u @ replicate n CHR ''/'') \<and> no_trailing_slash u"
proof -
  let ?s = "CHR ''/''"
  have uniq: "strip_slashes (v @ replicate n ?s) = v" if "no_trailing_slash v" for v n
  proof -
    have "dropWhile (\<lambda>c. c = ?s) (rev v) = rev v"
      using that by (cases "rev v") (auto simp: no_trailing_slash_def)
    then show ?thesis
      by (simp add: strip_slashes_def dropWhile_append)
  qed
  show ?thesis
  proof
    assume a: "normalizeBaseUrl raw = Inr u"
    then show "\<not> blank raw \<and> (\<exists>n. trim raw = u @ replicate n ?s) \<and> no_trailing_slash u"
      using strip_slashes_append [of "trim raw"] normalizeBaseUrl_no_slash [OF a]
      by (auto simp: normalizeBaseUrl_cases split: if_splits)
  next
    assume "\<not> blank raw \<and> (\<exists>n. trim raw = u @ replicate n ?s) \<and> no_trailing_slash u"
    then show "normalizeBaseUrl raw = Inr u"
      using uniq by (auto simp: normalizeBaseUrl_cases)
  qed
qed

text \<open>
  The check for an empty URL comes before the slashes are stripped, so a URL of slashes only is
  accepted and becomes the empty string.
\<close>

lemma normalizeBaseUrl_slashes: "normalizeBaseUrl ''//'' = Inr []"
  by (simp add: normalizeBaseUrl_cases blank_plain trim_plain plain_char_def strip_slashes_def)

text \<open>C39. Every configuration \<open>normalizeConfig\<close> returns is clean: no URL ends in a slash, the
  device name is a non-blank trimmed string, and so are the device id and the client version when
  they are present, whatever the file, the environment and the explicit options hold.\<close>

theorem normalizeConfig_ok:
  assumes "normalizeConfig h config = Inr n"
  shows "config_ok n"
  using assms
  by (auto simp: normalizeConfig_def bindE_Inr_iff Let_def config_ok_def nonEmpty_clean
      intro: normalizeBaseUrl_no_slash intro!: nullish_or_clean nonEmpty_clean defaultDeviceName_clean)

definition bare_host :: node_host where
  "bare_host = \<lparr>env_var = (\<lambda>_. None), host_homedir = ''/root'', path_join = concat,
     file_exists = (\<lambda>_. False), file_read = (\<lambda>_. Inl JUndef)\<rparr>"

lemma bare_host_config:
  "normalizeConfig bare_host empty_config =
     Inr \<lparr>relayHttpUrl = DEFAULT_RELAY_HTTP_URL, relayWsUrl = DEFAULT_RELAY_WS_URL,
          cfgDeviceName = DEFAULT_DEVICE_NAME, cfgDeviceId = None, cfgClientVersion = None\<rparr>"
  by (simp add: normalizeConfig_def loadDefaultConfigFile_def bare_host_def spread_config_def
      empty_config_def default_urls defaultDeviceName_def Let_def)

theorem normalizeConfig_ok_witness:
  "\<exists>n. normalizeConfig bare_host empty_config = Inr n \<and> config_ok n"
  using bare_host_config normalizeConfig_ok by blast

text \<open>
  A property that is present in the explicit options hides the file's, even when its value is
  \<open>undefined\<close>: then the default is used.
\<close>

definition all_present :: "relay_client_config \<Rightarrow> bool" where
  "all_present c =
     (cfg_relayHttpUrl c \<noteq> None \<and> cfg_relayWsUrl c \<noteq> None \<and> cfg_deviceName c \<noteq> None \<and>
      cfg_deviceId c \<noteq> None \<and> cfg_clientVersion c \<noteq> None)"

lemma spread_all_present: "all_present c \<Longrightarrow> spread_config f c = c"
  by (auto simp: all_present_def spread_config_def)

lemma normalizeConfig_hides_url:
  assumes "normalizeConfig h config = Inr n" and "cfg_relayHttpUrl config = Some None"
  shows "relayHttpUrl n = DEFAULT_RELAY_HTTP_URL"
  using assms by (auto simp: normalizeConfig_def bindE_Inr_iff Let_def spread_config_def default_urls)

text \<open>Options in which every property is present decide the configuration: two hosts whose
  configuration files both load, and which agree on the fallback device name, give the same result
  whatever the two files say.\<close>

theorem explicit_options_override:
  assumes "all_present config"
    and "loadDefaultConfigFile h = Inr file" and "loadDefaultConfigFile h' = Inr file'"
    and "defaultDeviceName h = defaultDeviceName h'"
  shows "normalizeConfig h config = normalizeConfig h' config"
  using assms by (simp add: normalizeConfig_def spread_all_present)

definition file_host :: node_host where
  "file_host = bare_host\<lparr>file_exists := (\<lambda>_. True), file_read := (\<lambda>_. Inr ''{}'')\<rparr>"

definition full_config :: relay_client_config where
  "full_config = \<lparr>cfg_relayHttpUrl = Some (Some ''http://r''), cfg_relayWsUrl = Some None,
     cfg_deviceName = Some (Some ''dev''), cfg_deviceId = Some None, cfg_clientVersion = Some None\<rparr>"

theorem explicit_options_override_witness:
  "normalizeConfig bare_host full_config = normalizeConfig file_host full_config"
proof (rule explicit_options_override)
  show "all_present full_config" by (simp add: full_config_def all_present_def)
  show "loadDefaultConfigFile bare_host = Inr empty_config"
    by (simp add: loadDefaultConfigFile_def bare_host_def)
  have "json_parse ''{}'' = Some (JObj [])"
    by (simp add: json_parse_def parse_value.simps skip_ws_def json_ws_def)
  then show "loadDefaultConfigFile file_host = Inr
      \<lparr>cfg_relayHttpUrl = Some None, cfg_relayWsUrl = Some None, cfg_deviceName = Some None,
       cfg_deviceId = Some None, cfg_clientVersion = Some None\<rparr>"
    by (simp add: loadDefaultConfigFile_def file_host_def is_object_def stringValue_def)
  show "defaultDeviceName bare_host = defaultDeviceName file_host"
    by (simp add: defaultDeviceName_def bare_host_def file_host_def)
qed

end
