(* ===== verification/Pending.thy ===== *)
theory Pending
  imports Js_Value
begin

text \<open>
  The local store of unanswered items (\<open>extension/src/state/pending.ts\<close>): asks, join
  requests and the inbox, each an insertion-ordered \<open>Map\<close> keyed by the item's id. The locale
  \<open>keyed_items\<close> states what such a store promises to the tool; it is interpreted for the
  three maps. Fields the tool copies from an unvalidated relay event are plain JavaScript values.
\<close>

section \<open>State\<close>

record pending_ask =
  ask_id :: jsval
  ask_from :: jsval
  ask_to :: jsval
  ask_channelId :: jsval
  ask_message :: string
  ask_receivedAt :: string

record pending_join_request =
  jr_id :: string
  jr_joinRequestId :: string
  jr_deviceId :: string
  jr_deviceName :: string
  jr_channelId :: "string option"
  jr_channelName :: "string option"
  jr_receivedAt :: string

record pending_inbox_item =
  item_id :: jsval
  item_type :: string
  item_from :: jsval
  item_to :: jsval
  item_channelId :: jsval
  item_message :: "string option"
  item_receivedAt :: string
  item_event :: jsval

record pending_snapshot =
  snap_asks :: "pending_ask list"
  snap_joinRequests :: "pending_join_request list"
  snap_inbox :: "pending_inbox_item list"

record pending_state =
  asks :: "(jsval, pending_ask) jsmap"
  joinRequests :: "(string, pending_join_request) jsmap"
  inbox :: "(jsval, pending_inbox_item) jsmap"

section \<open>Operations\<close>

definition createPendingState :: pending_state where
  "createPendingState = \<lparr>asks = [], joinRequests = [], inbox = []\<rparr>"

definition addAsk :: "pending_ask \<Rightarrow> pending_state \<Rightarrow> pending_state" where
  "addAsk ask p = p\<lparr>asks := jm_set (ask_id ask) ask (asks p)\<rparr>"

definition getAsk :: "pending_state \<Rightarrow> jsval \<Rightarrow> pending_ask option" where
  "getAsk p k = jm_get (asks p) k"

text \<open>The \<open>delete\<close> operations also return whether the entry was there.\<close>

definition deleteAsk :: "jsval \<Rightarrow> pending_state \<Rightarrow> bool \<times> pending_state" where
  "deleteAsk k p = (jm_has (asks p) k, p\<lparr>asks := jm_delete k (asks p)\<rparr>)"

definition listAsks :: "pending_state \<Rightarrow> pending_ask list" where
  "listAsks p = jm_values (asks p)"

definition addJoinRequest :: "pending_join_request \<Rightarrow> pending_state \<Rightarrow> pending_state" where
  "addJoinRequest r p = p\<lparr>joinRequests := jm_set (jr_id r) r (joinRequests p)\<rparr>"

definition getJoinRequest :: "pending_state \<Rightarrow> string \<Rightarrow> pending_join_request option" where
  "getJoinRequest p k = jm_get (joinRequests p) k"

definition deleteJoinRequest :: "string \<Rightarrow> pending_state \<Rightarrow> bool \<times> pending_state" where
  "deleteJoinRequest k p =
     (jm_has (joinRequests p) k, p\<lparr>joinRequests := jm_delete k (joinRequests p)\<rparr>)"

definition listJoinRequests :: "pending_state \<Rightarrow> pending_join_request list" where
  "listJoinRequests p = jm_values (joinRequests p)"

definition addInbox :: "pending_inbox_item \<Rightarrow> pending_state \<Rightarrow> pending_state" where
  "addInbox i p = p\<lparr>inbox := jm_set (item_id i) i (inbox p)\<rparr>"

definition deleteInbox :: "jsval \<Rightarrow> pending_state \<Rightarrow> bool \<times> pending_state" where
  "deleteInbox k p = (jm_has (inbox p) k, p\<lparr>inbox := jm_delete k (inbox p)\<rparr>)"

definition listInbox :: "pending_state \<Rightarrow> pending_inbox_item list" where
  "listInbox p = jm_values (inbox p)"

definition snapshot :: "pending_state \<Rightarrow> pending_snapshot" where
  "snapshot p = \<lparr>snap_asks = listAsks p, snap_joinRequests = listJoinRequests p, snap_inbox = listInbox p\<rparr>"

definition clear :: "pending_state \<Rightarrow> pending_state" where
  "clear p = p\<lparr>asks := [], joinRequests := [], inbox := []\<rparr>"

section \<open>The representation invariant\<close>

text \<open>Keys are distinct and every item sits under its own id.\<close>

definition keyed :: "('i \<Rightarrow> 'k) \<Rightarrow> ('k, 'i) jsmap \<Rightarrow> bool" where
  "keyed key m = (distinct_keys m \<and> (\<forall>(k, i) \<in> set m. key i = k))"

definition pending_ok :: "pending_state \<Rightarrow> bool" where
  "pending_ok p = (keyed ask_id (asks p) \<and> keyed jr_id (joinRequests p) \<and> keyed item_id (inbox p))"

lemma keyed_Nil [simp]: "keyed key []"
  by (simp add: keyed_def)

lemma keyed_set [simp, intro]: "keyed key m \<Longrightarrow> keyed key (jm_set (key i) i m)"
  using set_jm_set_subset [of "key i" i m] by (auto simp: keyed_def)

lemma keyed_delete [simp, intro]: "keyed key m \<Longrightarrow> keyed key (jm_delete k m)"
  by (auto simp: keyed_def set_jm_delete)

lemma keyed_values: "keyed key m \<Longrightarrow> i \<in> set (jm_values m) \<longleftrightarrow> jm_get m (key i) = Some i"
  by (force simp: keyed_def jm_values_def jm_get_in)

lemma keyed_distinct: "keyed key m \<Longrightarrow> distinct (map key (jm_values m))"
proof -
  assume k: "keyed key m"
  then have "map key (jm_values m) = map fst m"
    by (force simp: keyed_def jm_values_def)
  with k show ?thesis by (simp add: keyed_def distinct_keys_def)
qed

text \<open>Re-adding keeps an item's place in the listing; a new item goes to the end.\<close>

lemma keyed_set_order:
  assumes "keyed key m"
  shows "map key (jm_values (jm_set (key i) i m)) =
    (if jm_has m (key i) then map key (jm_values m) else map key (jm_values m) @ [key i])"
proof -
  have keys: "map key (jm_values m') = map fst m'" if "keyed key m'" for m'
    using that by (force simp: keyed_def jm_values_def)
  have "jm_has m (key i) \<longleftrightarrow> key i \<in> fst ` set m"
    by (simp add: jm_has_def jm_get_def map_of_eq_None_iff)
  then show ?thesis
    using assms keys [OF keyed_set [OF assms]] keys [OF assms]
    by (auto simp: jm_set_keys jm_set_new)
qed

section \<open>The interface of a keyed store\<close>

locale keyed_items =
  fixes add :: "'i \<Rightarrow> 's \<Rightarrow> 's"
    and look :: "'s \<Rightarrow> 'k \<Rightarrow> 'i option"
    and del :: "'k \<Rightarrow> 's \<Rightarrow> bool \<times> 's"
    and items :: "'s \<Rightarrow> 'i list"
    and key :: "'i \<Rightarrow> 'k"
    and ok :: "'s \<Rightarrow> bool"
  assumes look_add: "look (add i s) k = (if k = key i then Some i else look s k)"
    and look_del: "look (snd (del j s)) k = (if k = j then None else look s k)"
    and del_found: "fst (del j s) \<longleftrightarrow> look s j \<noteq> None"
    and items_look: "ok s \<Longrightarrow> i \<in> set (items s) \<longleftrightarrow> look s (key i) = Some i"
    and items_distinct: "ok s \<Longrightarrow> distinct (map key (items s))"
    and ok_add: "ok s \<Longrightarrow> ok (add i s)"
    and ok_del: "ok s \<Longrightarrow> ok (snd (del j s))"
begin

lemma items_add: "ok s \<Longrightarrow> set (items (add i s)) = insert i {x \<in> set (items s). key x \<noteq> key i}"
  using ok_add by (auto simp: items_look look_add split: if_splits)

lemma items_del: "ok s \<Longrightarrow> set (items (snd (del j s))) = {x \<in> set (items s). key x \<noteq> j}"
  using ok_del by (auto simp: items_look look_del split: if_splits)

lemma key_inj: "ok s \<Longrightarrow> x \<in> set (items s) \<Longrightarrow> y \<in> set (items s) \<Longrightarrow> key x = key y \<Longrightarrow> x = y"
  by (simp add: items_look)

lemma add_then_del: "ok s \<Longrightarrow> look s (key i) = None \<Longrightarrow>
    fst (del (key i) (add i s)) \<and> set (items (snd (del (key i) (add i s)))) = set (items s)"
  using items_look [of s] by (auto simp: del_found look_add items_del items_add ok_add)

lemma length_items: "ok s \<Longrightarrow> length (items s) = card (key ` set (items s))"
  by (metis items_distinct length_map list.set_map distinct_card)

end

lemmas pending_defs = addAsk_def getAsk_def deleteAsk_def listAsks_def
  addJoinRequest_def getJoinRequest_def deleteJoinRequest_def listJoinRequests_def
  addInbox_def deleteInbox_def listInbox_def jm_has_def pending_ok_def

interpretation ask_items: keyed_items addAsk getAsk deleteAsk listAsks ask_id pending_ok
  by unfold_locales (auto simp: pending_defs keyed_values keyed_distinct)

interpretation join_items: keyed_items addJoinRequest getJoinRequest deleteJoinRequest
    listJoinRequests jr_id pending_ok
  by unfold_locales (auto simp: pending_defs keyed_values keyed_distinct)

interpretation inbox_items: keyed_items addInbox "\<lambda>p. jm_get (inbox p)" deleteInbox
    listInbox item_id pending_ok
  by unfold_locales (auto simp: pending_defs keyed_values keyed_distinct)

lemma pending_ok_create [simp]: "pending_ok createPendingState"
  by (simp add: pending_ok_def createPendingState_def)

lemma pending_ok_clear [simp]: "pending_ok (clear p)"
  by (simp add: pending_ok_def clear_def)

lemma snapshot_clear: "snapshot (clear p) = snapshot createPendingState"
  by (simp add: snapshot_def clear_def createPendingState_def pending_defs jm_values_def)

lemma pending_frame [simp]:
  "joinRequests (addAsk a p) = joinRequests p" "inbox (addAsk a p) = inbox p"
  "asks (addJoinRequest j p) = asks p" "inbox (addJoinRequest j p) = inbox p"
  "asks (addInbox i p) = asks p" "joinRequests (addInbox i p) = joinRequests p"
  "joinRequests (snd (deleteAsk k p)) = joinRequests p" "inbox (snd (deleteAsk k p)) = inbox p"
  "asks (snd (deleteJoinRequest r p)) = asks p" "inbox (snd (deleteJoinRequest r p)) = inbox p"
  by (simp_all add: pending_defs)

section \<open>Runs of operations\<close>

text \<open>Everything a client of the store can do to it, as data.\<close>

datatype pending_op =
    AddAsk pending_ask
  | DeleteAsk jsval
  | AddJoinRequest pending_join_request
  | DeleteJoinRequest string
  | AddInbox pending_inbox_item
  | DeleteInbox jsval
  | Clear

fun pending_step :: "pending_op \<Rightarrow> pending_state \<Rightarrow> pending_state" where
  "pending_step (AddAsk a) p = addAsk a p"
| "pending_step (DeleteAsk k) p = snd (deleteAsk k p)"
| "pending_step (AddJoinRequest r) p = addJoinRequest r p"
| "pending_step (DeleteJoinRequest k) p = snd (deleteJoinRequest k p)"
| "pending_step (AddInbox i) p = addInbox i p"
| "pending_step (DeleteInbox k) p = snd (deleteInbox k p)"
| "pending_step Clear p = clear p"

lemma pending_step_ok: "pending_ok p \<Longrightarrow> pending_ok (pending_step op p)"
  by (cases op) (simp_all add: ask_items.ok_add ask_items.ok_del join_items.ok_add join_items.ok_del
      inbox_items.ok_add inbox_items.ok_del)

interpretation pending_runs: invariant_system "\<lambda>op p. Some (pending_step op p)" pending_ok
  by unfold_locales (auto intro: pending_step_ok)

lemma run_pending: "run_actions (\<lambda>op p. Some (pending_step op p)) ops p = Some (fold pending_step ops p)"
  by (induction ops arbitrary: p) simp_all

lemma fold_pending_ok: "pending_ok p \<Longrightarrow> pending_ok (fold pending_step ops p)"
  using pending_runs.run_inv [OF run_pending] .

section \<open>The history as a reference\<close>

text \<open>
  What a store ought to hold after a history of changes, read off the history alone, latest change first:
  an item is found unless its key was dropped, or everything reset, after it was last put; and it stands in
  the listing where the put stands that brought it in.
\<close>

datatype ('i, 'k) change = Put 'i | Drop 'k | Reset

fun found :: "('i \<Rightarrow> 'k) \<Rightarrow> ('i, 'k) change list \<Rightarrow> 'k \<Rightarrow> 'i option" where
  "found key [] k = None"
| "found key (Put i # cs) k = (if key i = k then Some i else found key cs k)"
| "found key (Drop j # cs) k = (if j = k then None else found key cs k)"
| "found key (Reset # cs) k = None"

fun born :: "('i \<Rightarrow> 'k) \<Rightarrow> ('i, 'k) change list \<Rightarrow> 'k \<Rightarrow> nat" where
  "born key [] k = 0"
| "born key (Put i # cs) k = (if key i = k \<and> found key cs k = None then length cs else born key cs k)"
| "born key (c # cs) k = born key cs k"

definition listing :: "('i \<Rightarrow> 'k) \<Rightarrow> ('i, 'k) change list \<Rightarrow> 'i list \<Rightarrow> bool" where
  "listing key cs xs = (set xs = {i. found key cs (key i) = Some i} \<and> sorted_wrt (<) (map (born key cs \<circ> key) xs))"

lemma found_key: "found key cs k = Some i \<Longrightarrow> key i = k"
  by (induction cs) (auto split: if_splits elim: found.elims)

lemma listing_unique: "listing key cs xs \<Longrightarrow> listing key cs ys \<Longrightarrow> xs = ys"
proof -
  assume l: "listing key cs xs" "listing key cs ys"
  let ?f = "born key cs \<circ> key"
  have "set (map ?f xs) = set (map ?f ys)" using l by (simp only: listing_def set_map)
  with l have "map ?f xs = map ?f ys" by (intro strict_sorted_equal) (simp_all only: listing_def)
  moreover have "inj_on ?f (set xs)"
    using l(1) by (metis listing_def distinct_map strict_sorted_iff)
  ultimately show ?thesis using l by (auto simp: listing_def intro: map_inj_on)
qed

text \<open>A map that goes through the changes agrees with the reference.\<close>

fun replay :: "('i \<Rightarrow> 'k) \<Rightarrow> ('i, 'k) change list \<Rightarrow> ('k, 'i) jsmap" where
  "replay key [] = []"
| "replay key (Put i # cs) = jm_set (key i) i (replay key cs)"
| "replay key (Drop k # cs) = jm_delete k (replay key cs)"
| "replay key (Reset # cs) = []"

lemma replay_keyed: "keyed key (replay key cs)"
  by (induction key cs rule: replay.induct) auto

lemma get_replay: "jm_get (replay key cs) = found key cs"
proof -
  have "jm_get (replay key cs) k = found key cs k" for k
    by (induction key cs k rule: found.induct) auto
  then show ?thesis by blast
qed

lemma born_less: "found key cs k \<noteq> None \<Longrightarrow> born key cs k < length cs"
proof (induction cs)
  case (Cons c cs)
  then show ?case by (cases c) (auto split: if_splits intro: less_SucI)
qed simp

lemma map_fst_delete: "map fst (jm_delete j m) = filter (\<lambda>k. k \<noteq> j) (map fst m)"
  by (induction m) (auto simp: jm_delete_def)

lemma replay_keys: "sorted_wrt (<) (map (born key cs) (map fst (replay key cs)))"
proof (induction cs)
  case (Cons c cs)
  have in_found: "k \<in> fst ` set (replay key cs) \<longleftrightarrow> found key cs k \<noteq> None" for k
    by (simp add: get_replay [symmetric] jm_get_def map_of_eq_None_iff)
  show ?case
  proof (cases c)
    case (Put i)
    have same: "map (born key (c # cs)) (map fst (replay key cs)) = map (born key cs) (map fst (replay key cs))"
      using in_found by (force simp: Put)
    show ?thesis
    proof (cases "found key cs (key i)")
      case None
      then have "replay key (c # cs) = replay key cs @ [(key i, i)]"
        using in_found [of "key i"] by (simp add: Put jm_set_new)
      then have "map (born key (c # cs)) (map fst (replay key (c # cs))) =
          map (born key cs) (map fst (replay key cs)) @ [length cs]"
        using same None by (simp add: Put)
      moreover have "born key cs k < length cs" if "k \<in> fst ` set (replay key cs)" for k
        using that in_found [of k] born_less [of key cs k] by simp
      ultimately show ?thesis using Cons by (simp only: sorted_wrt_append) auto
    next
      case (Some j)
      then have "map fst (replay key (c # cs)) = map fst (replay key cs)"
        using in_found [of "key i"] by (simp add: Put jm_set_keys)
      with same Cons show ?thesis by metis
    qed
  next
    case (Drop j)
    with Cons show ?thesis by (simp add: map_fst_delete sorted_wrt_map sorted_wrt_filter)
  qed simp
qed simp

lemma listing_replay: "listing key cs (jm_values (replay key cs))"
proof -
  have "map key (jm_values (replay key cs)) = map fst (replay key cs)"
    using replay_keyed [of key cs] by (force simp: keyed_def jm_values_def)
  then have "map (born key cs \<circ> key) (jm_values (replay key cs)) = map (born key cs) (map fst (replay key cs))"
    by (metis map_map)
  then show ?thesis
    using keyed_values [OF replay_keyed, of _ key cs] replay_keys [of key cs] by (auto simp: listing_def get_replay)
qed

fun ask_change :: "pending_op \<Rightarrow> (pending_ask, jsval) change option" where
  "ask_change (AddAsk a) = Some (Put a)"
| "ask_change (DeleteAsk k) = Some (Drop k)"
| "ask_change Clear = Some Reset"
| "ask_change _ = None"

fun join_change :: "pending_op \<Rightarrow> (pending_join_request, string) change option" where
  "join_change (AddJoinRequest r) = Some (Put r)"
| "join_change (DeleteJoinRequest k) = Some (Drop k)"
| "join_change Clear = Some Reset"
| "join_change _ = None"

fun inbox_change :: "pending_op \<Rightarrow> (pending_inbox_item, jsval) change option" where
  "inbox_change (AddInbox i) = Some (Put i)"
| "inbox_change (DeleteInbox k) = Some (Drop k)"
| "inbox_change Clear = Some Reset"
| "inbox_change _ = None"

definition history :: "(pending_op \<Rightarrow> 'c option) \<Rightarrow> pending_op list \<Rightarrow> 'c list" where
  "history f ops = List.map_filter f (rev ops)"

lemma history_simps [simp]: "history f [] = []"
    "history f (ops @ [op]) = (case f op of None \<Rightarrow> history f ops | Some c \<Rightarrow> c # history f ops)"
  by (auto simp: history_def map_filter_simps split: option.split)

lemma store_replays:
  "fold pending_step ops createPendingState =
     \<lparr>asks = replay ask_id (history ask_change ops), joinRequests = replay jr_id (history join_change ops),
      inbox = replay item_id (history inbox_change ops)\<rparr>"
proof (induction ops rule: rev_induct)
  case (snoc op ops)
  then show ?case by (cases op) (simp_all add: pending_defs clear_def)
qed (simp add: createPendingState_def)

section \<open>Properties\<close>

text \<open>C18. The store is equivalent to its history. After any sequence of operations on a fresh store, a lookup gives what
  the history gives, the item last put under the key unless it was deleted or the store cleared since;
  and each part of the snapshot is the one listing of those items, each once, in the order in which they came in, where an
  item that is replaced keeps its place.\<close>

theorem store_equals_history:
  "let p = fold pending_step ops createPendingState; s = snapshot p in
     getAsk p = found ask_id (history ask_change ops) \<and>
     getJoinRequest p = found jr_id (history join_change ops) \<and>
     listing ask_id (history ask_change ops) (snap_asks s) \<and>
     listing jr_id (history join_change ops) (snap_joinRequests s) \<and>
     listing item_id (history inbox_change ops) (snap_inbox s)"
  by (simp add: store_replays Let_def snapshot_def getAsk_def [abs_def] getJoinRequest_def [abs_def] get_replay
      listAsks_def listJoinRequests_def listInbox_def listing_replay)

text \<open>After any sequence of operations on a fresh store, the snapshot lists every ask, join
  request and inbox item at most once per id, and exactly the items a lookup finds.\<close>

theorem snapshot_faithful:
  "let p = fold pending_step ops createPendingState; s = snapshot p in
     distinct (map ask_id (snap_asks s)) \<and> distinct (map jr_id (snap_joinRequests s)) \<and>
     distinct (map item_id (snap_inbox s)) \<and>
     (\<forall>a. a \<in> set (snap_asks s) \<longleftrightarrow> getAsk p (ask_id a) = Some a) \<and>
     (\<forall>r. r \<in> set (snap_joinRequests s) \<longleftrightarrow> getJoinRequest p (jr_id r) = Some r)"
  using fold_pending_ok [OF pending_ok_create, of ops]
  by (simp add: Let_def snapshot_def ask_items.items_distinct ask_items.items_look
      join_items.items_distinct join_items.items_look inbox_items.items_distinct)

end
