(* ===== verification/Protocol.thy ===== *)
theory Protocol
  imports Json
begin

text \<open>
  The wire vocabulary (\<open>extension/src/client/protocol.ts\<close>) and the functions of
  \<open>extension/src/client/relay-client.ts\<close> without client state: errors, the checks on connect
  responses and acknowledgements, and the readings of socket events.

  Relay events are JavaScript objects, because the client casts what it parses to the event type
  without checking it.
\<close>

section \<open>Event types\<close>

datatype relay_event_type =
    Error | MessageSend | MessageAsk | MessageReply | MessageBroadcast | MessageAck
  | JoinRequest | JoinApprove | JoinDeny | JoinApproved | JoinDenied | JoinDecisionAck
  | ListRequest | ListResponse | StatusRequest | StatusResponse

fun wire :: "relay_event_type \<Rightarrow> string" where
  "wire Error = ''error''"
| "wire MessageSend = ''message.send''"
| "wire MessageAsk = ''message.ask''"
| "wire MessageReply = ''message.reply''"
| "wire MessageBroadcast = ''message.broadcast''"
| "wire MessageAck = ''message.ack''"
| "wire JoinRequest = ''join.request''"
| "wire JoinApprove = ''join.approve''"
| "wire JoinDeny = ''join.deny''"
| "wire JoinApproved = ''join.approved''"
| "wire JoinDenied = ''join.denied''"
| "wire JoinDecisionAck = ''join.decision.ack''"
| "wire ListRequest = ''list.request''"
| "wire ListResponse = ''list.response''"
| "wire StatusRequest = ''status.request''"
| "wire StatusResponse = ''status.response''"

lemma wire_inj [simp]: "wire a = wire b \<longleftrightarrow> a = b"
  by (cases a; cases b) simp_all

record connect_request =
  rq_channelName :: string
  rq_pin :: string
  rq_deviceName :: string
  rq_deviceId :: "string option"
  rq_clientVersion :: "string option"

record connect_response =
  cr_status :: string
  cr_channelId :: string
  cr_deviceId :: string
  cr_token :: string
  cr_wsUrl :: string
  cr_joinRequestId :: "string option"

definition opt_member :: "string \<Rightarrow> string option \<Rightarrow> (string \<times> jsval) list" where
  "opt_member k v = (case v of None \<Rightarrow> [] | Some s \<Rightarrow> [(k, JStr s)])"

definition connect_body :: "connect_request \<Rightarrow> string" where
  "connect_body r = json_stringify (JObj
     ([(''channelName'', JStr (rq_channelName r)), (''pin'', JStr (rq_pin r)),
       (''deviceName'', JStr (rq_deviceName r))]
      @ opt_member ''deviceId'' (rq_deviceId r) @ opt_member ''clientVersion'' (rq_clientVersion r)))"

section \<open>Errors\<close>

definition relay_client_error :: "string \<Rightarrow> jsval \<Rightarrow> jsval \<Rightarrow> string option \<Rightarrow> jsval" where
  "relay_client_error message status details code =
     JError message [(''name'', JStr ''RelayClientError''), (''status'', status),
                     (''details'', details), (''code'', opt_str code)]"

lemma relay_client_error_fields [simp]:
  "get (relay_client_error m st d c) ''message'' = JStr m"
  "get (relay_client_error m st d c) ''status'' = st"
  "get (relay_client_error m st d c) ''details'' = d"
  "get (relay_client_error m st d c) ''code'' = opt_str c"
  by (simp_all add: relay_client_error_def get_def)

definition non_blank_string :: "jsval \<Rightarrow> string option" where
  "non_blank_string v = (case as_string v of Some s \<Rightarrow> (if blank s then None else Some s) | None \<Rightarrow> None)"

definition unknown_error :: string where
  "unknown_error = ''unknown error''"

text \<open>The text of an \<open>Error\<close> instance or of a string, unless it is blank.\<close>

definition error_text :: "jsval \<Rightarrow> string option" where
  "error_text v =
     (case v of
        JError m _ \<Rightarrow> (if blank m then None else Some m)
      | JStr s \<Rightarrow> (if blank s then None else Some s)
      | _ \<Rightarrow> None)"

definition errorMessage :: "jsval \<Rightarrow> string" where
  "errorMessage err =
     (case error_text err of
        Some m \<Rightarrow> m
      | None \<Rightarrow>
          (if is_object err then
             (case non_blank_string (get err ''message'') of
                Some m \<Rightarrow> m
              | None \<Rightarrow> nullish_or (error_text (get err ''error'')) unknown_error)
           else unknown_error))"

section \<open>HTTP responses\<close>

text \<open>
  A fetch response: the outcome of \<open>response.json()\<close> is part of it (\<open>Inl\<close> when it rejects).
\<close>

record fetch_response =
  resp_ok :: bool
  resp_status :: int
  resp_statusText :: "string option"
  resp_json :: "jsval + jsval"

definition parseJSONResponse :: "fetch_response \<Rightarrow> jsval + jsval" where
  "parseJSONResponse r =
     (case resp_json r of
        Inr v \<Rightarrow> Inr v
      | Inl e \<Rightarrow>
          (if resp_ok r
           then Inl (relay_client_error ''relay response was not valid JSON'' (js_int (resp_status r)) e None)
           else Inr JUndef))"

definition errorFromResponse :: "fetch_response \<Rightarrow> jsval \<Rightarrow> jsval" where
  "errorFromResponse r payload =
     (let default = ''relay request failed with HTTP '' @ int_str (resp_status r);
          message =
            (if is_object payload then
               (case non_blank_string (js_nullish (get payload ''error'') (get payload ''message'')) of
                  Some m \<Rightarrow> m | None \<Rightarrow> default)
             else
               (case resp_statusText r of
                  Some t \<Rightarrow> (if blank t then default else t) | None \<Rightarrow> default))
      in relay_client_error message (js_int (resp_status r)) payload None)"

definition assertConnectResponse :: "jsval \<Rightarrow> jsval + connect_response" where
  "assertConnectResponse payload =
     (if \<not> is_object payload
      then Inl (relay_client_error ''relay connect response was not an object'' JUndef JUndef None)
      else
        case (as_string (get payload ''status''), as_string (get payload ''channelId''),
              as_string (get payload ''deviceId''), as_string (get payload ''token''),
              as_string (get payload ''wsUrl'')) of
          (Some status, Some channelId, Some deviceId, Some token, Some wsUrl) \<Rightarrow>
            (let j = get payload ''joinRequestId'' in
             if j \<noteq> JUndef \<and> as_string j = None
             then Inl (relay_client_error ''relay connect response had invalid joinRequestId'' JUndef payload None)
             else Inr \<lparr>cr_status = status, cr_channelId = channelId, cr_deviceId = deviceId,
                        cr_token = token, cr_wsUrl = wsUrl, cr_joinRequestId = as_string j\<rparr>)
        | _ \<Rightarrow> Inl (relay_client_error ''relay connect response was missing required fields'' JUndef payload None))"

section \<open>Requests and acknowledgements\<close>

record request_response =
  rr_requestEvent :: jsval
  rr_responseEvent :: jsval
  rr_payload :: jsval

definition non_blank :: "jsval \<Rightarrow> bool" where
  "non_blank v = (non_blank_string v \<noteq> None)"

definition validateMessageAck :: "request_response \<Rightarrow> jsval + request_response" where
  "validateMessageAck r =
     (if get (rr_payload r) ''status'' \<noteq> JStr ''delivered'' \<or> \<not> non_blank (get (rr_payload r) ''deviceId'')
      then Inl (relay_client_error ''message acknowledgement payload did not match the request''
                  JUndef (rr_responseEvent r) (Some ''invalid_response''))
      else Inr r)"

definition validateJoinDecisionAck ::
  "request_response \<Rightarrow> string \<Rightarrow> string \<Rightarrow> jsval + request_response" where
  "validateJoinDecisionAck r joinRequestId decision =
     (if get (rr_payload r) ''joinRequestId'' \<noteq> JStr joinRequestId
         \<or> get (rr_payload r) ''decision'' \<noteq> JStr decision
         \<or> \<not> non_blank (get (rr_payload r) ''deviceId'')
      then Inl (relay_client_error ''join decision acknowledgement payload did not match the request''
                  JUndef (rr_responseEvent r) (Some ''invalid_response''))
      else Inr r)"

section \<open>Socket events\<close>

fun number_text :: "jsnum \<Rightarrow> string" where
  "number_text (Fin m e) = num_str m e"
| "number_text NaN = ''NaN''"
| "number_text PosInf = ''Infinity''"
| "number_text NegInf = ''-Infinity''"

record close_info =
  ci_code :: "jsnum option"
  ci_reason :: "string option"
  ci_wasClean :: "bool option"
  ci_message :: string
  ci_summary :: string

fun join_with :: "string \<Rightarrow> string list \<Rightarrow> string" where
  "join_with sep [] = []"
| "join_with sep [s] = s"
| "join_with sep (s # ss) = s @ sep @ join_with sep ss"

definition closeEventInfo :: "jsval \<Rightarrow> close_info" where
  "closeEventInfo event =
     (let code = (case get event ''code'' of JNum n \<Rightarrow> Some n | _ \<Rightarrow> None);
          reason = as_string (get event ''reason'');
          wasClean = (case get event ''wasClean'' of JBool b \<Rightarrow> Some b | _ \<Rightarrow> None);
          parts =
            (case code of None \<Rightarrow> [] | Some c \<Rightarrow> [''code='' @ number_text c])
            @ (case reason of None \<Rightarrow> [] | Some r \<Rightarrow> (if r = [] then [] else [''reason='' @ r]))
            @ (case wasClean of None \<Rightarrow> [] | Some b \<Rightarrow> [''wasClean='' @ (if b then ''true'' else ''false'')]);
          detail = join_with '' '' parts
      in \<lparr>ci_code = code, ci_reason = reason, ci_wasClean = wasClean,
          ci_message = (if detail = [] then ''websocket closed'' else ''websocket closed '' @ detail),
          ci_summary = (if detail = [] then [] else '' ('' @ detail @ '')'')\<rparr>)"

definition socketErrorToRelayClientError :: "jsval \<Rightarrow> jsval" where
  "socketErrorToRelayClientError err =
     relay_client_error (''relay WebSocket error before opening: '' @ errorMessage err) JUndef err None"

definition messageData :: "jsval \<Rightarrow> jsval" where
  "messageData v = (if is_object v \<and> has_prop v ''data'' then get v ''data'' else v)"

text \<open>
  \<open>Buffer.from\<close> of a part that is not a buffer is Node's and comes as a parameter; it throws on
  values it cannot convert.
\<close>

fun concat_parts :: "(jsval \<Rightarrow> jsval + string) \<Rightarrow> jsval list \<Rightarrow> jsval + string" where
  "concat_parts from [] = Inr []"
| "concat_parts from (p # ps) =
     bindE (case p of JBytes b \<Rightarrow> Inr b | _ \<Rightarrow> from p) (\<lambda>b.
     bindE (concat_parts from ps) (\<lambda>bs. Inr (b @ bs)))"

definition dataToString :: "(jsval \<Rightarrow> jsval + string) \<Rightarrow> jsval \<Rightarrow> jsval + string option" where
  "dataToString from d =
     (case d of
        JStr s \<Rightarrow> Inr (Some s)
      | JBytes b \<Rightarrow> Inr (Some (utf8_decode b))
      | JArr ps \<Rightarrow> bindE (concat_parts from ps) (\<lambda>b. Inr (Some (utf8_decode b)))
      | _ \<Rightarrow> Inr None)"

section \<open>Lemmas\<close>

lemma non_blank_string_Some: "non_blank_string v = Some s \<longleftrightarrow> v = JStr s \<and> \<not> blank s"
  by (cases v) (auto simp: non_blank_string_def)

lemma validateMessageAck_Inr:
  "validateMessageAck r = Inr r' \<longleftrightarrow>
     r' = r \<and> get (rr_payload r) ''status'' = JStr ''delivered'' \<and> non_blank (get (rr_payload r) ''deviceId'')"
  by (auto simp: validateMessageAck_def)

lemma validateJoinDecisionAck_Inr:
  "validateJoinDecisionAck r j d = Inr r' \<longleftrightarrow>
     r' = r \<and> get (rr_payload r) ''joinRequestId'' = JStr j \<and> get (rr_payload r) ''decision'' = JStr d
     \<and> non_blank (get (rr_payload r) ''deviceId'')"
  by (auto simp: validateJoinDecisionAck_def)

lemma error_text_Some: "error_text v = Some m \<Longrightarrow> \<not> blank m"
  by (auto simp: error_text_def split: jsval.splits if_splits)

lemma errorMessage_error [simp]: "\<not> blank m \<Longrightarrow> errorMessage (JError m kvs) = m"
  by (simp add: errorMessage_def error_text_def)

lemma errorMessage_string [simp]: "\<not> blank m \<Longrightarrow> errorMessage (JStr m) = m"
  by (simp add: errorMessage_def error_text_def)

lemma blank_unknown: "\<not> blank unknown_error"
  by (simp add: unknown_error_def blank_plain plain_char_def)

section \<open>Properties\<close>

text \<open>The text the client reports for an error, whatever was thrown, is never blank.\<close>

theorem errorMessage_never_blank: "\<not> blank (errorMessage err)"
  using blank_unknown
  by (auto simp: errorMessage_def non_blank_string_Some nullish_or_def dest: error_text_Some
      split: option.splits)

text \<open>A connect response is accepted exactly when it is an object whose five required fields are
  strings and whose joinRequestId is a string or absent, and the accepted record holds those fields.\<close>

theorem assertConnectResponse_spec:
  "assertConnectResponse p = Inr r \<longleftrightarrow>
     is_object p \<and> get p ''status'' = JStr (cr_status r) \<and> get p ''channelId'' = JStr (cr_channelId r) \<and>
     get p ''deviceId'' = JStr (cr_deviceId r) \<and> get p ''token'' = JStr (cr_token r) \<and>
     get p ''wsUrl'' = JStr (cr_wsUrl r) \<and> get p ''joinRequestId'' = opt_str (cr_joinRequestId r)"
proof -
  have opt: "(v = JUndef \<or> as_string v \<noteq> None) \<and> x = as_string v \<longleftrightarrow> v = opt_str x" for v x
    by (cases v; cases x) auto
  show ?thesis
    using opt [of "get p ''joinRequestId''" "cr_joinRequestId r"]
    by (cases r) (auto simp: assertConnectResponse_def Let_def split: option.splits if_splits)
qed

end
