(* ===== verification/Runtime.thy ===== *)
theory Runtime
  imports Js_Value
begin

text \<open>
  The part of the JavaScript runtime the asynchronous client lives in: a clock, a table of
  promises, the continuations that wait for them, the timers that are armed and a log of the
  effects on the outside. The record is polymorphic in the values of the promises, the
  continuations, the timer callbacks and the log entries; the client extends it with its fields.

  A promise is its index in the table. A continuation is the code after an \<open>await\<close> or in a
  \<open>then\<close>, with the index of the promise it waits for. The order in which ready
  continuations run is left open, which includes the order of the microtask queue.
\<close>

section \<open>State\<close>

datatype 'v outcome = Pending | Fulfilled 'v | Rejected jsval

record ('v, 'k, 't, 'o) runtime =
  now :: nat
  promises :: "'v outcome list"
  conts :: "(nat \<times> 'k) list"
  timers :: "(nat, nat \<times> 't) jsmap"
  nextTimer :: nat
  log :: "'o list"

section \<open>Operations\<close>

definition newPromise :: "'v outcome \<Rightarrow> ('v, 'k, 't, 'o, 'z) runtime_scheme \<Rightarrow> nat \<times> ('v, 'k, 't, 'o, 'z) runtime_scheme" where
  "newPromise v c = (length (promises c), c\<lparr>promises := promises c @ [v]\<rparr>)"

text \<open>Only a pending promise can be settled; later calls of its resolve functions do nothing.\<close>

definition settled :: "nat \<Rightarrow> 'v outcome \<Rightarrow> 'v outcome list \<Rightarrow> 'v outcome list" where
  "settled p v ps = (if p < length ps \<and> ps ! p = Pending then ps[p := v] else ps)"

definition settle :: "nat \<Rightarrow> 'v outcome \<Rightarrow> ('v, 'k, 't, 'o, 'z) runtime_scheme \<Rightarrow> ('v, 'k, 't, 'o, 'z) runtime_scheme" where
  "settle p v c = c\<lparr>promises := settled p v (promises c)\<rparr>"

definition await :: "nat \<Rightarrow> 'k \<Rightarrow> ('v, 'k, 't, 'o, 'z) runtime_scheme \<Rightarrow> ('v, 'k, 't, 'o, 'z) runtime_scheme" where
  "await p k c = c\<lparr>conts := conts c @ [(p, k)]\<rparr>"

definition setTimeout :: "'t \<Rightarrow> nat \<Rightarrow> ('v, 'k, 't, 'o, 'z) runtime_scheme \<Rightarrow> nat \<times> ('v, 'k, 't, 'o, 'z) runtime_scheme" where
  "setTimeout k ms c =
     (nextTimer c,
      c\<lparr>timers := jm_set (nextTimer c) (now c + ms, k) (timers c), nextTimer := nextTimer c + 1\<rparr>)"

definition clearTimeout :: "nat \<Rightarrow> ('v, 'k, 't, 'o, 'z) runtime_scheme \<Rightarrow> ('v, 'k, 't, 'o, 'z) runtime_scheme" where
  "clearTimeout t c = c\<lparr>timers := jm_delete t (timers c)\<rparr>"

definition emitLog :: "'o \<Rightarrow> ('v, 'k, 't, 'o, 'z) runtime_scheme \<Rightarrow> ('v, 'k, 't, 'o, 'z) runtime_scheme" where
  "emitLog x c = c\<lparr>log := log c @ [x]\<rparr>"

definition promise_of :: "('v, 'k, 't, 'o, 'z) runtime_scheme \<Rightarrow> nat \<Rightarrow> 'v outcome" where
  "promise_of c p = (if p < length (promises c) then promises c ! p else Pending)"

definition armed :: "('v, 'k, 't, 'o, 'z) runtime_scheme \<Rightarrow> nat \<Rightarrow> (nat \<times> 't) option" where
  "armed c t = jm_get (timers c) t"

section \<open>Effects of the operations\<close>

lemma length_settled [simp]: "length (settled p v ps) = length ps"
  by (simp add: settled_def)

lemma promise_of_settle [step_simps]:
  "promise_of (settle p v c) q =
     (if q = p \<and> p < length (promises c) \<and> promise_of c p = Pending then v else promise_of c q)"
  by (simp add: promise_of_def settle_def settled_def nth_list_update)

text \<open>A settled promise keeps its outcome.\<close>

lemma settle_stable: "promise_of c q \<noteq> Pending \<Longrightarrow> promise_of (settle p v c) q = promise_of c q"
  by (auto simp: promise_of_settle)

lemma promise_of_new [step_simps]:
  "promise_of (snd (newPromise v c)) q = (if q = length (promises c) then v else promise_of c q)"
  by (simp add: promise_of_def newPromise_def nth_append)

lemma fst_newPromise [simp]: "fst (newPromise v c) = length (promises c)"
  by (simp add: newPromise_def)

lemma fst_setTimeout [simp]: "fst (setTimeout k ms c) = nextTimer c"
  by (simp add: setTimeout_def)

lemma newPromise_upd: "newPromise v c = (length (promises c), c\<lparr>promises := promises c @ [v]\<rparr>)"
  by (simp add: newPromise_def)

section \<open>Promises and timers as sets\<close>

text \<open>
  \<open>pending ps\<close> are the indices of the promises not settled yet. The lemmas say how the elementary
  operations change them and the table of armed timers.
\<close>

definition pending :: "'v outcome list \<Rightarrow> nat set" where
  "pending ps = {p. p < length ps \<and> ps ! p = Pending}"

lemma pending_Nil [simp]: "pending [] = {}"
  by (simp add: pending_def)

lemma pending_snoc [simp]: "pending (ps @ [v]) = (if v = Pending then insert (length ps) (pending ps) else pending ps)"
  by (auto simp: pending_def nth_append less_Suc_eq)

lemma pending_settled: "v \<noteq> Pending \<Longrightarrow> pending (settled p v ps) = pending ps - {p}"
  by (auto simp: pending_def settled_def nth_list_update split: if_splits)

lemma pending_settled_simps [simp]:
  "pending (settled p (Fulfilled v) ps) = pending ps - {p}"
  "pending (settled p (Rejected e) ps) = pending ps - {p}"
  by (simp_all add: pending_settled)

lemma pending_promise_of: "p \<in> pending (promises c) \<Longrightarrow> promise_of c p = Pending"
  by (simp add: pending_def promise_of_def)

lemma not_pending_promise_of: "promise_of c p \<noteq> Pending \<Longrightarrow> p \<notin> pending (promises c)"
  by (auto simp: pending_promise_of)

end
