(* ===== verification/Client_State.thy ===== *)
theory Client_State
  imports Protocol Runtime Config
begin

text \<open>
  The state of \<open>RelayClient\<close> (\<open>extension/src/client/relay-client.ts\<close>) and its synchronous
  operations: event dispatch, the socket's cleanup, closing, sending and the table of response
  waiters. The class's private fields are the fields of the record \<open>relay_client\<close>, which extends
  the runtime record; a socket, a promise and a timer are numbers, and a closure of the source is
  the data it closes over.
\<close>

section \<open>Data\<close>

text \<open>One socket: the object's visible state and the variables its closures share.\<close>

record ws =
  ws_url :: string
  ws_readyState :: nat
  ws_listening :: bool
  ws_settled :: bool
  ws_promise :: nat

datatype transport = Connected | Stale | Reconnecting | Disconnected

record relay_client_state =
  st_token :: "string option"
  st_channelId :: "string option"
  st_deviceId :: "string option"
  st_status :: "string option"
  st_joinRequestId :: "string option"
  st_wsUrl :: "string option"
  st_transportStatus :: "transport option"
  st_lastRelayActivityAt :: "string option"
  st_lastDisconnectedAt :: "string option"
  st_lastCloseCode :: "jsnum option"
  st_lastCloseReason :: "string option"
  st_reconnectAttempt :: "nat option"

record connect_options =
  opt_deviceName :: "string option"
  opt_deviceId :: "string option"
  opt_clientVersion :: "string option"

record connect_args =
  arg_channel :: string
  arg_pin :: string
  arg_options :: connect_options

record waiter =
  w_responseType :: string
  w_timeoutCode :: "string option"
  w_requestEvent :: jsval
  w_promise :: nat
  w_timer :: nat

text \<open>
  A network operation: the event it writes, the response it waits for, how long, the code of a
  timeout, and the check on the response.
\<close>

datatype response_check = NoCheck | MessageAckCheck | DecisionCheck string string

record request =
  req_event :: jsval
  req_responseType :: string
  req_timeoutMs :: nat
  req_timeoutCode :: "string option"
  req_check :: response_check

datatype pval = VUnit | VConnect connect_response | VResponse request_response | VFetch fetch_response

text \<open>
  The continuations of the client, one per \<open>await\<close> and \<open>then\<close>; \<open>ret\<close> is the promise
  of the asynchronous function the continuation belongs to.
\<close>

datatype cont =
    ConnectFetched (ret: nat) nat string string
  | ConnectOpened (ret: nat) connect_response
  | ReconnectDelayed (ret: nat) nat nat nat
  | ReconnectConnected (ret: nat) nat nat
  | ReconnectFinally
  | HealthStatus (ret: nat) nat
  | HealthReconnected (ret: nat)
  | HealthFinally
  | RunOperation (ret: nat) request
  | Validate (ret: nat) response_check
  | Adopt (ret: nat)

datatype timer = THeartbeat | TReconnect nat | TWaiter jsval nat string "string option"

datatype effect =
    OFetch string string nat
  | ONewSocket nat string
  | OSend nat jsval string
  | OClose nat "jsnum option" "string option"
  | ODispatch nat jsval
  | OUncaught jsval

record relay_client = "(pval, cont, timer, effect) runtime" +
  config :: normalized_config
  reconnectDelayMs :: nat
  handlers :: "(string, nat list) jsmap"
  responseWaiters :: "(jsval, waiter) jsmap"
  replyTargets :: "(jsval, jsval) jsmap"
  suppressReconnectForSocket :: "nat list"
  socket :: "nat option"
  socketCleanup :: "nat option"
  pendingOpenReject :: "nat option"
  reconnectTimer :: "nat option"
  reconnectTimerResolve :: "nat option"
  reconnectPromise :: "nat option"
  heartbeatTimer :: "nat option"
  healthCheckPromise :: "nat option"
  healthGeneration :: nat
  lastInboundAt :: nat
  reconnectAttempt :: nat
  connectionGeneration :: nat
  reconnectGeneration :: nat
  explicitDisconnect :: bool
  lastConnectArgs :: "nat option"
  client_state :: relay_client_state
  argsHeap :: "connect_args list"
  sockets :: "ws list"
  idCount :: nat

text \<open>
  What the client gets from outside: the generator of event ids (\<open>randomUUID\<close>), URLs, the
  WebSocket constructor and its initial ready state, \<open>close\<close> on a code it rejects,
  \<open>Buffer.from\<close>, and the registered handlers, which may throw.
\<close>

record client_host =
  idGenerator :: "nat \<Rightarrow> string"
  socketURLWithToken :: "string \<Rightarrow> string \<Rightarrow> jsval + string"
  ws_constructor :: "string \<Rightarrow> jsval option"
  ws_initial :: "string \<Rightarrow> nat"
  close_throws :: "jsnum \<Rightarrow> string option \<Rightarrow> jsval option"
  buffer_from :: "jsval \<Rightarrow> jsval + string"
  handler_throws :: "nat \<Rightarrow> jsval \<Rightarrow> jsval option"

definition WEBSOCKET_OPEN :: nat where "WEBSOCKET_OPEN = 1"
definition HEARTBEAT_INTERVAL_MS :: nat where "HEARTBEAT_INTERVAL_MS = 25000"
definition HEARTBEAT_TIMEOUT_MS :: nat where "HEARTBEAT_TIMEOUT_MS = 5000"

section \<open>Construction\<close>

definition empty_state :: relay_client_state where
  "empty_state = \<lparr>st_token = None, st_channelId = None, st_deviceId = None, st_status = None,
     st_joinRequestId = None, st_wsUrl = None, st_transportStatus = None, st_lastRelayActivityAt = None,
     st_lastDisconnectedAt = None, st_lastCloseCode = None, st_lastCloseReason = None,
     st_reconnectAttempt = None\<rparr>"

definition new_client :: "normalized_config \<Rightarrow> nat option \<Rightarrow> nat \<Rightarrow> relay_client" where
  "new_client cfg delay t =
     \<lparr>now = t, promises = [], conts = [], timers = [], nextTimer = 0, log = [],
      config = cfg, reconnectDelayMs = nullish_or delay 250, handlers = [], responseWaiters = [],
      replyTargets = [], suppressReconnectForSocket = [], socket = None, socketCleanup = None,
      pendingOpenReject = None, reconnectTimer = None, reconnectTimerResolve = None,
      reconnectPromise = None, heartbeatTimer = None, healthCheckPromise = None, healthGeneration = 0,
      lastInboundAt = 0, reconnectAttempt = 0, connectionGeneration = 0, reconnectGeneration = 0,
      explicitDisconnect = False, lastConnectArgs = None, client_state = empty_state, argsHeap = [],
      sockets = [], idCount = 0\<rparr>"

text \<open>\<open>new RelayClient(config, dependencies)\<close> throws when the configuration cannot be normalised.\<close>

definition construct_client ::
  "node_host \<Rightarrow> relay_client_config \<Rightarrow> nat option \<Rightarrow> nat \<Rightarrow> jsval + relay_client" where
  "construct_client nh cfg delay t = bindE (normalizeConfig nh cfg) (\<lambda>n. Inr (new_client n delay t))"

text \<open>The public getters.\<close>

definition get_token :: "relay_client \<Rightarrow> string option" where
  "get_token c = st_token (client_state c)"

definition get_channelId :: "relay_client \<Rightarrow> string option" where
  "get_channelId c = st_channelId (client_state c)"

definition get_deviceId :: "relay_client \<Rightarrow> string option" where
  "get_deviceId c = st_deviceId (client_state c)"

definition currentStatus :: "relay_client \<Rightarrow> string option" where
  "currentStatus c = st_status (client_state c)"

definition connectState :: "relay_client \<Rightarrow> relay_client_state" where
  "connectState c = client_state c"

definition webSocket :: "relay_client \<Rightarrow> ws option" where
  "webSocket c = map_option (\<lambda>s. sockets c ! s) (socket c)"

section \<open>Handlers\<close>

definition on :: "string \<Rightarrow> nat \<Rightarrow> relay_client \<Rightarrow> relay_client" where
  "on eventType handler c =
     (let existing = nullish_or (jm_get (handlers c) eventType) [];
          added = (if handler \<in> set existing then existing else existing @ [handler])
      in c\<lparr>handlers := jm_set eventType added (handlers c)\<rparr>)"

definition off :: "string \<Rightarrow> nat \<Rightarrow> relay_client \<Rightarrow> relay_client" where
  "off eventType handler c =
     (case jm_get (handlers c) eventType of
        None \<Rightarrow> c
      | Some existing \<Rightarrow>
          (let left = filter (\<lambda>x. x \<noteq> handler) existing in
           if left = [] then c\<lparr>handlers := jm_delete eventType (handlers c)\<rparr>
           else c\<lparr>handlers := jm_set eventType left (handlers c)\<rparr>))"

text \<open>
  \<open>emit\<close> without the report of handler errors: every handler in the snapshot runs, and what it
  throws is dropped.
\<close>

definition emit_quiet :: "string \<Rightarrow> jsval \<Rightarrow> relay_client \<Rightarrow> relay_client" where
  "emit_quiet eventType event c =
     fold (\<lambda>hid. emitLog (ODispatch hid event)) (nullish_or (jm_get (handlers c) eventType) []) c"

definition error_event :: "string option \<Rightarrow> string \<Rightarrow> jsval \<Rightarrow> (string \<times> jsval) list \<Rightarrow> jsval" where
  "error_event channelId code err details =
     JObj [(''type'', JStr (wire Error)), (''channelId'', opt_str channelId),
           (''payload'', js_spread (JObj [(''code'', JStr code), (''message'', JStr (errorMessage err))]) details)]"

definition emitError :: "string \<Rightarrow> jsval \<Rightarrow> (string \<times> jsval) list \<Rightarrow> relay_client \<Rightarrow> relay_client" where
  "emitError code err details c =
     emit_quiet (wire Error) (error_event (st_channelId (client_state c)) code err details) c"

definition run_handler :: "client_host \<Rightarrow> string \<Rightarrow> jsval \<Rightarrow> nat \<Rightarrow> relay_client \<Rightarrow> relay_client" where
  "run_handler h eventType event hid c =
     (let c1 = emitLog (ODispatch hid event) c in
      case handler_throws h hid event of
        None \<Rightarrow> c1
      | Some err \<Rightarrow>
          (if eventType \<noteq> wire Error
           then emitError ''handler_error'' err [(''handlerEventType'', JStr eventType)] c1 else c1))"

definition emit :: "client_host \<Rightarrow> string \<Rightarrow> jsval \<Rightarrow> relay_client \<Rightarrow> relay_client" where
  "emit h eventType event c =
     fold (run_handler h eventType event) (nullish_or (jm_get (handlers c) eventType) []) c"

section \<open>Timers and activity\<close>

definition stopHeartbeat :: "relay_client \<Rightarrow> relay_client" where
  "stopHeartbeat c =
     (case heartbeatTimer c of None \<Rightarrow> c | Some t \<Rightarrow> (clearTimeout t c)\<lparr>heartbeatTimer := None\<rparr>)"

definition startHeartbeat :: "relay_client \<Rightarrow> relay_client" where
  "startHeartbeat c =
     (let (t, c1) = setTimeout THeartbeat HEARTBEAT_INTERVAL_MS (stopHeartbeat c)
      in c1\<lparr>heartbeatTimer := Some t\<rparr>)"

definition recordRelayActivity :: "relay_client \<Rightarrow> relay_client" where
  "recordRelayActivity c =
     startHeartbeat (c\<lparr>lastInboundAt := now c,
       client_state := (client_state c)\<lparr>st_lastRelayActivityAt := Some (iso_string (now c))\<rparr>\<rparr>)"

definition clearReconnectTimer :: "relay_client \<Rightarrow> relay_client" where
  "clearReconnectTimer c =
     (let c1 = (case reconnectTimer c of
                  None \<Rightarrow> c | Some t \<Rightarrow> (clearTimeout t c)\<lparr>reconnectTimer := None\<rparr>);
          c2 = c1\<lparr>reconnectTimerResolve := None\<rparr>
      in case reconnectTimerResolve c of None \<Rightarrow> c2 | Some p \<Rightarrow> settle p (Fulfilled VUnit) c2)"

section \<open>Response waiters\<close>

definition reject_waiter :: "string \<Rightarrow> jsval \<times> waiter \<Rightarrow> relay_client \<Rightarrow> relay_client" where
  "reject_waiter message kw c =
     (case kw of (k, w) \<Rightarrow>
        let c1 = clearTimeout (w_timer w) c;
            c2 = settle (w_promise w) (Rejected (relay_client_error message JUndef
                   (JObj [(''requestId'', k), (''responseType'', JStr (w_responseType w))])
                   (w_timeoutCode w))) c1
        in c2\<lparr>responseWaiters := jm_delete k (responseWaiters c2)\<rparr>)"

definition rejectResponseWaiters :: "string \<Rightarrow> relay_client \<Rightarrow> relay_client" where
  "rejectResponseWaiters message c = fold (reject_waiter message) (responseWaiters c) c"

definition waiter_timeout ::
  "jsval \<Rightarrow> nat \<Rightarrow> string \<Rightarrow> string option \<Rightarrow> relay_client \<Rightarrow> relay_client" where
  "waiter_timeout requestId p responseType timeoutCode c =
     settle p (Rejected (relay_client_error (''timed out waiting for '' @ responseType) JUndef
         (JObj [(''requestId'', requestId), (''responseType'', JStr responseType)]) timeoutCode))
       (c\<lparr>responseWaiters := jm_delete requestId (responseWaiters c)\<rparr>)"

text \<open>The \<open>resolve\<close> closure of a waiter: a response without an object as payload rejects.\<close>

definition resolve_waiter :: "waiter \<Rightarrow> jsval \<Rightarrow> relay_client \<Rightarrow> relay_client" where
  "resolve_waiter w event c =
     (if is_object (get event ''payload'')
      then settle (w_promise w) (Fulfilled (VResponse \<lparr>rr_requestEvent = w_requestEvent w,
             rr_responseEvent = event, rr_payload = get event ''payload''\<rparr>)) c
      else settle (w_promise w) (Rejected (relay_client_error
             (w_responseType w @ '' response was missing payload'') JUndef event None)) c)"

definition drop_waiter :: "jsval \<Rightarrow> waiter \<Rightarrow> relay_client \<Rightarrow> relay_client" where
  "drop_waiter k w c = clearTimeout (w_timer w) (c\<lparr>responseWaiters := jm_delete k (responseWaiters c)\<rparr>)"

definition resolveResponseWaiter :: "jsval \<Rightarrow> relay_client \<Rightarrow> relay_client" where
  "resolveResponseWaiter event c =
     (let replyTo = get event ''replyTo''; payload = get event ''payload'' in
      if replyTo = JUndef then c
      else case jm_get (responseWaiters c) replyTo of
        None \<Rightarrow> c
      | Some w \<Rightarrow>
          (if get event ''type'' = JStr (wire Error) then
             (let code = nullish_or (as_string (get payload ''code'')) ''relay_error'';
                  message = nullish_or (as_string (get payload ''message'')) code
              in settle (w_promise w) (Rejected (relay_client_error message JUndef event (Some code)))
                   (drop_waiter replyTo w c))
           else if JStr (w_responseType w) \<noteq> get event ''type'' then c
           else resolve_waiter w event (drop_waiter replyTo w c)))"

section \<open>Closing\<close>

definition upd_socket :: "nat \<Rightarrow> (ws \<Rightarrow> ws) \<Rightarrow> relay_client \<Rightarrow> relay_client" where
  "upd_socket s f c = c\<lparr>sockets := (sockets c)[s := f (sockets c ! s)]\<rparr>"

text \<open>The cleanup closure of a socket: removes its listeners and its two registrations.\<close>

definition cleanup :: "nat \<Rightarrow> relay_client \<Rightarrow> relay_client" where
  "cleanup s c =
     (let c1 = upd_socket s (\<lambda>k. k\<lparr>ws_listening := False\<rparr>) c in
      c1\<lparr>socketCleanup := (if socketCleanup c1 = Some s then None else socketCleanup c1),
         pendingOpenReject := (if pendingOpenReject c1 = Some s then None else pendingOpenReject c1)\<rparr>)"

definition rejectBeforeOpen :: "nat \<Rightarrow> jsval \<Rightarrow> relay_client \<Rightarrow> relay_client" where
  "rejectBeforeOpen s err c =
     (if ws_settled (sockets c ! s) then c
      else
        (let c1 = upd_socket s (\<lambda>k. k\<lparr>ws_settled := True\<rparr>) c;
             c2 = c1\<lparr>socket := (if socket c1 = Some s then None else socket c1)\<rparr>
         in settle (ws_promise (sockets c ! s)) (Rejected err) (cleanup s c2)))"

text \<open>\<open>socket.close(code, reason)\<close>: the socket is closing from then on.\<close>

definition ws_close :: "nat \<Rightarrow> jsnum option \<Rightarrow> string option \<Rightarrow> relay_client \<Rightarrow> relay_client" where
  "ws_close s code reason c =
     emitLog (OClose s code reason) (upd_socket s (\<lambda>k. k\<lparr>ws_readyState := max 2 (ws_readyState k)\<rparr>) c)"

definition closed_message :: string where
  "closed_message = ''relay WebSocket connection was closed before response''"

definition closeCurrentSocket ::
  "jsnum option \<Rightarrow> string option \<Rightarrow> bool \<Rightarrow> relay_client \<Rightarrow> relay_client" where
  "closeCurrentSocket code reason suppressReconnect c =
     (let s = socket c;
          c1 = stopHeartbeat c;
          c2 = (case s of
                  Some x \<Rightarrow> (if suppressReconnect
                     then c1\<lparr>suppressReconnectForSocket := x # suppressReconnectForSocket c1\<rparr> else c1)
                | None \<Rightarrow> c1);
          c3 = (case pendingOpenReject c2 of
                  Some x \<Rightarrow> rejectBeforeOpen x (relay_client_error
                    ''relay WebSocket connection was cancelled'' JUndef JUndef None) c2
                | None \<Rightarrow>
                    (let c' = c2\<lparr>socket := None, socketCleanup := None\<rparr> in
                     case socketCleanup c2 of Some x \<Rightarrow> cleanup x c' | None \<Rightarrow> c'));
          c4 = rejectResponseWaiters closed_message c3
      in case s of Some x \<Rightarrow> ws_close x code reason c4 | None \<Rightarrow> c4)"

section \<open>Sending\<close>

definition MAX_FRAME :: nat where "MAX_FRAME = 64 * 1024"

definition not_connected :: jsval where
  "not_connected = relay_client_error ''relay WebSocket is not connected'' JUndef JUndef None"

definition too_large :: "nat \<Rightarrow> jsval" where
  "too_large actualBytes = relay_client_error
     (''relay event exceeds maximum size of '' @ nat_str MAX_FRAME @ '' bytes'') JUndef
     (JObj [(''limitBytes'', js_int (int MAX_FRAME)), (''actualBytes'', js_int (int actualBytes))])
     (Some ''message_too_large'')"

definition sendEvent :: "client_host \<Rightarrow> jsval \<Rightarrow> relay_client \<Rightarrow> (jsval + jsval) \<times> relay_client" where
  "sendEvent h event c =
     (case socket c of
        None \<Rightarrow> (Inl not_connected, c)
      | Some s \<Rightarrow>
          (if ws_readyState (sockets c ! s) \<noteq> WEBSOCKET_OPEN then (Inl not_connected, c)
           else
             (let eid = get event ''id'';
                  fresh = (eid = JUndef \<or> eid = JNull);
                  c1 = (if fresh then c\<lparr>idCount := idCount c + 1\<rparr> else c);
                  outbound = js_spread event
                    [(''id'', if fresh then JStr (idGenerator h (idCount c)) else eid),
                     (''channelId'', js_nullish (get event ''channelId'')
                                       (opt_str (st_channelId (client_state c))))];
                  serialized = json_stringify outbound;
                  actualBytes = length serialized
              in if actualBytes > MAX_FRAME then (Inl (too_large actualBytes), c1)
                 else (Inr outbound, emitLog (OSend s outbound serialized) c1))))"

definition requestResponse ::
  "client_host \<Rightarrow> jsval \<Rightarrow> string \<Rightarrow> nat \<Rightarrow> string option \<Rightarrow> relay_client \<Rightarrow> (jsval + nat) \<times> relay_client" where
  "requestResponse h event responseType timeoutMs timeoutCode c =
     (case sendEvent h event c of
        (Inl e, c1) \<Rightarrow> (Inl e, c1)
      | (Inr requestEvent, c1) \<Rightarrow>
          (let requestId = get requestEvent ''id'' in
           if requestId = JUndef
           then (Inl (relay_client_error ''request event was missing id'' JUndef JUndef None), c1)
           else
             (let (p, c2) = newPromise Pending c1;
                  (t, c3) = setTimeout (TWaiter requestId p responseType timeoutCode) timeoutMs c2;
                  w = \<lparr>w_responseType = responseType, w_timeoutCode = timeoutCode,
                       w_requestEvent = requestEvent, w_promise = p, w_timer = t\<rparr>
              in (Inr p, c3\<lparr>responseWaiters := jm_set requestId w (responseWaiters c3)\<rparr>))))"

section \<open>Operations as updates\<close>

text \<open>
  Each elementary operation is an update of a few fields whose new values do not depend on a case
  split outside the update; the record simplifier then knows every other field is unchanged.
\<close>

named_theorems upd \<open>operations as record updates\<close>

definition handlers_of :: "relay_client \<Rightarrow> string \<Rightarrow> nat list" where
  "handlers_of c ty = nullish_or (jm_get (handlers c) ty) []"

lemma handlers_of_log [simp]: "handlers_of (c\<lparr>log := l\<rparr>) ty = handlers_of c ty"
  by (simp add: handlers_of_def)

lemma emit_quiet_upd [upd]:
  "emit_quiet ty event c = c\<lparr>log := log c @ map (\<lambda>hid. ODispatch hid event) (handlers_of c ty)\<rparr>"
proof -
  have "fold (\<lambda>hid. emitLog (ODispatch hid event)) hs c = c\<lparr>log := log c @ map (\<lambda>hid. ODispatch hid event) hs\<rparr>"
    for hs and c :: relay_client
    by (induction hs arbitrary: c) (simp_all add: emitLog_def)
  then show ?thesis by (simp add: emit_quiet_def handlers_of_def)
qed

lemma emitError_upd [upd]:
  "emitError code err details c = c\<lparr>log := log c @ map (\<lambda>hid. ODispatch hid
     (error_event (st_channelId (client_state c)) code err details)) (handlers_of c (wire Error))\<rparr>"
  by (simp add: emitError_def emit_quiet_upd)

text \<open>What one handler contributes to the log: its run, and the report when it throws.\<close>

definition handler_effects :: "client_host \<Rightarrow> relay_client \<Rightarrow> string \<Rightarrow> jsval \<Rightarrow> nat \<Rightarrow> effect list" where
  "handler_effects h c ty event hid =
     ODispatch hid event #
     (case handler_throws h hid event of
        None \<Rightarrow> []
      | Some err \<Rightarrow>
          (if ty = wire Error then []
           else map (\<lambda>x. ODispatch x (error_event (st_channelId (client_state c)) ''handler_error'' err
                        [(''handlerEventType'', JStr ty)])) (handlers_of c (wire Error))))"

lemma handler_effects_log [simp]: "handler_effects h (c\<lparr>log := l\<rparr>) = handler_effects h c"
  by (intro ext) (simp add: handler_effects_def split: option.split)

lemma run_handler_upd: "run_handler h ty event hid c = c\<lparr>log := log c @ handler_effects h c ty event hid\<rparr>"
  by (simp add: run_handler_def handler_effects_def emitError_upd emitLog_def Let_def split: option.split)

lemma emit_upd [upd]:
  "emit h ty event c = c\<lparr>log := log c @ concat (map (handler_effects h c ty event) (handlers_of c ty))\<rparr>"
proof -
  have "fold (run_handler h ty event) hs c = c\<lparr>log := log c @ concat (map (handler_effects h c ty event) hs)\<rparr>"
    for hs c
    by (induction hs arbitrary: c) (simp_all add: run_handler_upd)
  then show ?thesis by (simp add: emit_def handlers_of_def)
qed

lemma stopHeartbeat_upd [upd]:
  "stopHeartbeat c = c\<lparr>timers := (case heartbeatTimer c of None \<Rightarrow> timers c | Some t \<Rightarrow> jm_delete t (timers c)),
     heartbeatTimer := None\<rparr>"
  by (simp add: stopHeartbeat_def clearTimeout_def split: option.split)

lemma recordRelayActivity_upd [upd]:
  "recordRelayActivity c = c\<lparr>lastInboundAt := now c,
     client_state := (client_state c)\<lparr>st_lastRelayActivityAt := Some (iso_string (now c))\<rparr>,
     timers := jm_set (nextTimer c) (now c + HEARTBEAT_INTERVAL_MS, THeartbeat)
       (case heartbeatTimer c of None \<Rightarrow> timers c | Some t \<Rightarrow> jm_delete t (timers c)),
     nextTimer := nextTimer c + 1, heartbeatTimer := Some (nextTimer c)\<rparr>"
  by (simp add: recordRelayActivity_def startHeartbeat_def stopHeartbeat_upd setTimeout_def Let_def
      split: option.split)

lemma clearReconnectTimer_upd [upd]:
  "clearReconnectTimer c = c\<lparr>
     timers := (case reconnectTimer c of None \<Rightarrow> timers c | Some t \<Rightarrow> jm_delete t (timers c)),
     reconnectTimer := None, reconnectTimerResolve := None,
     promises := (case reconnectTimerResolve c of None \<Rightarrow> promises c
                    | Some p \<Rightarrow> settled p (Fulfilled VUnit) (promises c))\<rparr>"
  by (simp add: clearReconnectTimer_def clearTimeout_def settle_def Let_def split: option.split)

definition waiter_error :: "string \<Rightarrow> jsval \<Rightarrow> waiter \<Rightarrow> jsval" where
  "waiter_error message k w = relay_client_error message JUndef
     (JObj [(''requestId'', k), (''responseType'', JStr (w_responseType w))]) (w_timeoutCode w)"

lemma reject_waiter_upd:
  "reject_waiter message (k, w) c = c\<lparr>timers := jm_delete (w_timer w) (timers c),
     promises := settled (w_promise w) (Rejected (waiter_error message k w)) (promises c),
     responseWaiters := jm_delete k (responseWaiters c)\<rparr>"
  by (simp add: reject_waiter_def clearTimeout_def settle_def waiter_error_def Let_def)

lemma rejectResponseWaiters_upd [upd]:
  "rejectResponseWaiters message c = c\<lparr>
     timers := fold (\<lambda>(k, w). jm_delete (w_timer w)) (responseWaiters c) (timers c),
     promises := fold (\<lambda>(k, w). settled (w_promise w) (Rejected (waiter_error message k w)))
                   (responseWaiters c) (promises c),
     responseWaiters := []\<rparr>"
proof -
  have step: "fold (reject_waiter message) ws c = c\<lparr>
      timers := fold (\<lambda>(k, w). jm_delete (w_timer w)) ws (timers c),
      promises := fold (\<lambda>(k, w). settled (w_promise w) (Rejected (waiter_error message k w))) ws (promises c),
      responseWaiters := fold (\<lambda>(k, w). jm_delete k) ws (responseWaiters c)\<rparr>" for ws c
    by (induction ws arbitrary: c) (auto simp: reject_waiter_upd)
  have "set (fold (\<lambda>(k, w). jm_delete k) ws m) = {e \<in> set m. fst e \<notin> fst ` set ws}"
    for ws :: "(jsval \<times> waiter) list" and m :: "(jsval, waiter) jsmap"
    by (induction ws arbitrary: m) (auto simp: set_jm_delete)
  then have "set (fold (\<lambda>(k, w). jm_delete k) (responseWaiters c) (responseWaiters c)) = {}"
    by auto
  then have "fold (\<lambda>(k, w). jm_delete k) (responseWaiters c) (responseWaiters c) = []"
    by (simp only: set_empty)
  then show ?thesis
    by (simp add: rejectResponseWaiters_def step)
qed

lemma waiter_timeout_upd [upd]:
  "waiter_timeout k p ty code c = c\<lparr>responseWaiters := jm_delete k (responseWaiters c),
     promises := settled p (Rejected (relay_client_error (''timed out waiting for '' @ ty) JUndef
         (JObj [(''requestId'', k), (''responseType'', JStr ty)]) code)) (promises c)\<rparr>"
  by (simp add: waiter_timeout_def settle_def)

lemma cleanup_upd [upd]:
  "cleanup s c = c\<lparr>sockets := (sockets c)[s := (sockets c ! s)\<lparr>ws_listening := False\<rparr>],
     socketCleanup := (if socketCleanup c = Some s then None else socketCleanup c),
     pendingOpenReject := (if pendingOpenReject c = Some s then None else pendingOpenReject c)\<rparr>"
  by (simp add: cleanup_def upd_socket_def Let_def)

lemma ws_close_upd [upd]:
  "ws_close s code reason c = c\<lparr>log := log c @ [OClose s code reason],
     sockets := (sockets c)[s := (sockets c ! s)\<lparr>ws_readyState := max 2 (ws_readyState (sockets c ! s))\<rparr>]\<rparr>"
  by (simp add: ws_close_def upd_socket_def emitLog_def)

end
