(* ===== verification/Client.thy ===== *)
theory Client
  imports Client_State
begin

text \<open>
  The asynchronous operations of \<open>RelayClient\<close> (\<open>extension/src/client/relay-client.ts\<close>): opening
  a socket and its four listeners, connecting, the reconnect loop, the health check and the network
  operations. An asynchronous function is cut at its awaits: the part up to the first one is the
  operation, each later part is the handler of a continuation, which \<open>resume\<close> selects.
  The actions of the outside world and the step of the whole system are at the end.
\<close>

section \<open>Opening a socket\<close>

definition resolve_unit :: "nat \<Rightarrow> relay_client \<Rightarrow> relay_client" where
  "resolve_unit p = settle p (Fulfilled VUnit)"

definition set_transport :: "transport \<Rightarrow> relay_client \<Rightarrow> relay_client" where
  "set_transport t c = c\<lparr>client_state := (client_state c)\<lparr>st_transportStatus := Some t\<rparr>\<rparr>"

definition openHandler :: "nat \<Rightarrow> relay_client \<Rightarrow> relay_client" where
  "openHandler s c =
     (if socket c \<noteq> Some s \<or> ws_settled (sockets c ! s) then c
      else
        (let c1 = upd_socket s (\<lambda>k. k\<lparr>ws_settled := True\<rparr>) c;
             c2 = c1\<lparr>pendingOpenReject := (if pendingOpenReject c1 = Some s then None else pendingOpenReject c1)\<rparr>;
             c3 = set_transport Connected (recordRelayActivity c2)
         in resolve_unit (ws_promise (sockets c ! s)) c3))"

definition openSocket :: "client_host \<Rightarrow> string \<Rightarrow> string \<Rightarrow> relay_client \<Rightarrow> (jsval + nat) \<times> relay_client" where
  "openSocket h wsUrl token c =
     (let c1 = closeCurrentSocket None None True c in
      case socketURLWithToken h wsUrl token of
        Inl e \<Rightarrow> (Inl e, c1)
      | Inr url \<Rightarrow>
          (case ws_constructor h url of
             Some e \<Rightarrow> (Inl e, c1)
           | None \<Rightarrow>
               (let s = length (sockets c1);
                    (p, c2) = newPromise Pending c1;
                    c3 = emitLog (ONewSocket s url)
                      (c2\<lparr>sockets := sockets c2 @ [\<lparr>ws_url = url, ws_readyState = ws_initial h url,
                            ws_listening = True, ws_settled = False, ws_promise = p\<rparr>],
                          socket := Some s, socketCleanup := Some s, pendingOpenReject := Some s\<rparr>)
                in (Inr p, if ws_initial h url = WEBSOCKET_OPEN then openHandler s c3 else c3))))"

section \<open>Inbound messages\<close>

definition applyStateEvent :: "jsval \<Rightarrow> relay_client \<Rightarrow> relay_client" where
  "applyStateEvent event c =
     (if get event ''type'' \<noteq> JStr (wire JoinApproved) then c
      else
        (let st = client_state c;
             token = non_blank_string (get (get event ''payload'') ''token'')
         in c\<lparr>client_state := st\<lparr>st_token := nullish token (st_token st),
                 st_status := Some ''connected'', st_joinRequestId := None\<rparr>\<rparr>))"

definition record_reply_target :: "jsval \<Rightarrow> relay_client \<Rightarrow> relay_client" where
  "record_reply_target event c =
     (if get event ''id'' \<noteq> JUndef \<and> get event ''from'' \<noteq> JUndef
         \<and> get event ''from'' \<noteq> opt_str (st_deviceId (client_state c))
      then c\<lparr>replyTargets := jm_set (get event ''id'') (get event ''from'') (replyTargets c)\<rparr> else c)"

definition type_error :: jsval where
  "type_error = JError ''Cannot read properties of null'' []"

text \<open>
  The result says what the handler threw, if anything: the type test reads a property of the parsed
  value, which throws on \<open>null\<close>, outside the \<open>try\<close> around the parser.
\<close>

definition handleSocketMessage :: "client_host \<Rightarrow> jsval \<Rightarrow> relay_client \<Rightarrow> jsval option \<times> relay_client" where
  "handleSocketMessage h rawData c =
     (case dataToString (buffer_from h) rawData of
        Inl e \<Rightarrow> (Some e, c)
      | Inr None \<Rightarrow> (None, c)
      | Inr (Some text) \<Rightarrow>
          (case json_parse text of
             None \<Rightarrow> (None, c)
           | Some event \<Rightarrow>
               (if event = JNull then (Some type_error, c)
                else case as_string (get event ''type'') of
                  None \<Rightarrow> (None, c)
                | Some ty \<Rightarrow>
                    (None,
                     emit h ''*'' event
                      (emit h ty event
                        (record_reply_target event
                          (resolveResponseWaiter event
                            (applyStateEvent event (recordRelayActivity c)))))))))"

definition messageHandler :: "client_host \<Rightarrow> nat \<Rightarrow> jsval \<Rightarrow> relay_client \<Rightarrow> jsval option \<times> relay_client" where
  "messageHandler h s first c =
     (if socket c \<noteq> Some s then (None, c) else handleSocketMessage h (messageData first) c)"

definition isEstablishedMemberConnection :: "relay_client \<Rightarrow> bool" where
  "isEstablishedMemberConnection c =
     (st_status (client_state c) \<in> {Some ''created'', Some ''connected'', Some ''pending_approval''})"

section \<open>Connecting\<close>

definition connectInternal ::
  "client_host \<Rightarrow> string \<Rightarrow> string \<Rightarrow> connect_options \<Rightarrow> nat \<Rightarrow> relay_client \<Rightarrow> relay_client" where
  "connectInternal h channel pin options r c =
     (let generation = connectionGeneration c + 1;
          c1 = c\<lparr>explicitDisconnect := False, connectionGeneration := generation,
                 argsHeap := argsHeap c @ [\<lparr>arg_channel = channel, arg_pin = pin, arg_options = options\<rparr>],
                 lastConnectArgs := Some (length (argsHeap c))\<rparr>;
          request = \<lparr>rq_channelName = channel, rq_pin = pin,
                     rq_deviceName = nullish_or (opt_deviceName options) (cfgDeviceName (config c)),
                     rq_deviceId = nullish (opt_deviceId options) (cfgDeviceId (config c)),
                     rq_clientVersion = nullish (opt_clientVersion options) (cfgClientVersion (config c))\<rparr>;
          (f, c2) = newPromise Pending c1;
          c3 = emitLog (OFetch (relayHttpUrl (config c) @ ''/channels/connect'') (connect_body request) f) c2
      in await f (ConnectFetched r generation channel pin) c3)"

definition remember_device :: "string \<Rightarrow> string \<Rightarrow> string \<Rightarrow> relay_client \<Rightarrow> relay_client" where
  "remember_device channel pin deviceId c =
     (case lastConnectArgs c of
        None \<Rightarrow> c
      | Some a \<Rightarrow>
          (let args = argsHeap c ! a in
           if arg_channel args = channel \<and> arg_pin args = pin
           then c\<lparr>argsHeap := (argsHeap c)[a := args\<lparr>arg_options :=
                    (arg_options args)\<lparr>opt_deviceId := Some deviceId\<rparr>\<rparr>]\<rparr>
           else c))"

text \<open>What survives of the state when a new connect response is taken over.\<close>

definition connectionDiagnostics :: "relay_client_state \<Rightarrow> relay_client_state" where
  "connectionDiagnostics st = empty_state
     \<lparr>st_lastRelayActivityAt := st_lastRelayActivityAt st, st_lastDisconnectedAt := st_lastDisconnectedAt st,
      st_lastCloseCode := st_lastCloseCode st, st_lastCloseReason := st_lastCloseReason st,
      st_reconnectAttempt := st_reconnectAttempt st\<rparr>"

definition connected_state :: "connect_response \<Rightarrow> relay_client_state \<Rightarrow> relay_client_state" where
  "connected_state cr st = (connectionDiagnostics st)
     \<lparr>st_token := Some (cr_token cr), st_channelId := Some (cr_channelId cr),
      st_deviceId := Some (cr_deviceId cr), st_status := Some (cr_status cr),
      st_joinRequestId := cr_joinRequestId cr, st_wsUrl := Some (cr_wsUrl cr),
      st_transportStatus := Some Reconnecting\<rparr>"

definition cancelled_error :: jsval where
  "cancelled_error = relay_client_error ''relay connection was cancelled'' JUndef JUndef
     (Some ''connection_cancelled'')"

definition check_connect :: "fetch_response \<Rightarrow> jsval + connect_response" where
  "check_connect r =
     bindE (parseJSONResponse r) (\<lambda>payload.
       if \<not> resp_ok r then Inl (errorFromResponse r payload) else assertConnectResponse payload)"

definition connect_fetched ::
  "client_host \<Rightarrow> nat \<Rightarrow> nat \<Rightarrow> string \<Rightarrow> string \<Rightarrow> pval outcome \<Rightarrow> relay_client \<Rightarrow> relay_client" where
  "connect_fetched h r generation channel pin res c =
     (case res of
        Fulfilled (VFetch resp) \<Rightarrow>
          (case check_connect resp of
             Inl e \<Rightarrow> settle r (Rejected e) c
           | Inr cr \<Rightarrow>
               (if generation \<noteq> connectionGeneration c \<or> explicitDisconnect c
                then settle r (Rejected cancelled_error) c
                else
                  (let c1 = c\<lparr>client_state := connected_state cr (client_state c)\<rparr>;
                       c2 = remember_device channel pin (cr_deviceId cr) c1;
                       url = (if cr_wsUrl cr = [] then relayWsUrl (config c) else cr_wsUrl cr)
                   in case openSocket h url (cr_token cr) c2 of
                        (Inl e, c3) \<Rightarrow> settle r (Rejected e) c3
                      | (Inr p, c3) \<Rightarrow> await p (ConnectOpened r cr) c3)))
      | Fulfilled _ \<Rightarrow> settle r (Rejected type_error) c
      | Rejected e \<Rightarrow> settle r (Rejected e) c
      | Pending \<Rightarrow> c)"

definition connect_opened :: "nat \<Rightarrow> connect_response \<Rightarrow> pval outcome \<Rightarrow> relay_client \<Rightarrow> relay_client" where
  "connect_opened r cr res c =
     (case res of
        Rejected e \<Rightarrow> settle r (Rejected e) c
      | Fulfilled v \<Rightarrow> settle r (Fulfilled (VConnect cr)) (c\<lparr>reconnectAttempt := 0\<rparr>)
      | Pending \<Rightarrow> c)"

definition connect ::
  "client_host \<Rightarrow> string \<Rightarrow> string \<Rightarrow> connect_options \<Rightarrow> relay_client \<Rightarrow> nat \<times> relay_client" where
  "connect h channel pin options c =
     (let c1 = clearReconnectTimer (c\<lparr>reconnectGeneration := reconnectGeneration c + 1,
                                      healthGeneration := healthGeneration c + 1\<rparr>);
          c2 = c1\<lparr>reconnectPromise := None, healthCheckPromise := None\<rparr>;
          c3 = closeCurrentSocket None (Some ''connection replaced'') True c2;
          (r, c4) = newPromise Pending c3
      in (r, connectInternal h channel pin options r c4))"

text \<open>
  \<open>disconnect\<close> passes its code to \<open>close\<close>, which throws on a code it rejects; the state update
  after it is then not reached.
\<close>

definition disconnect ::
  "client_host \<Rightarrow> jsnum option \<Rightarrow> string option \<Rightarrow> relay_client \<Rightarrow> jsval option \<times> relay_client" where
  "disconnect h code reason c =
     (let c1 = clearReconnectTimer (c\<lparr>explicitDisconnect := True,
                 connectionGeneration := connectionGeneration c + 1,
                 reconnectGeneration := reconnectGeneration c + 1,
                 healthGeneration := healthGeneration c + 1, healthCheckPromise := None\<rparr>);
          c2 = closeCurrentSocket code reason True c1;
          c3 = c2\<lparr>client_state := (client_state c2)\<lparr>st_transportStatus := Some Disconnected,
                 st_lastDisconnectedAt := Some (iso_string (now c2)),
                 st_lastCloseCode := code, st_lastCloseReason := reason\<rparr>\<rparr>
      in case (socket c1, code) of
           (Some s, Some n) \<Rightarrow>
             (case close_throws h n reason of Some e \<Rightarrow> (Some e, c2) | None \<Rightarrow> (None, c3))
         | _ \<Rightarrow> (None, c3))"

section \<open>The reconnect loop\<close>

definition identity_details :: "relay_client \<Rightarrow> (string \<times> jsval) list" where
  "identity_details c =
     [(''deviceId'', opt_str (st_deviceId (client_state c))),
      (''channelId'', opt_str (st_channelId (client_state c))),
      (''status'', opt_str (st_status (client_state c)))]"

definition MAX_RECONNECT_DELAY_MS :: nat where "MAX_RECONNECT_DELAY_MS = 5000"

definition reconnect_delay :: "nat \<Rightarrow> nat \<Rightarrow> nat" where
  "reconnect_delay base attempts = min (base * 2 ^ attempts) MAX_RECONNECT_DELAY_MS"

definition waitForReconnectDelay :: "nat \<Rightarrow> relay_client \<Rightarrow> nat \<times> relay_client" where
  "waitForReconnectDelay delayMs c =
     (let (d, c1) = newPromise Pending c;
          (t, c2) = setTimeout (TReconnect d) delayMs (c1\<lparr>reconnectTimerResolve := Some d\<rparr>)
      in (d, c2\<lparr>reconnectTimer := Some t\<rparr>))"

text \<open>The head of the loop: leave it, or announce the next attempt and wait for its delay.\<close>

definition schedule_attempt :: "nat \<Rightarrow> nat \<Rightarrow> relay_client \<Rightarrow> relay_client" where
  "schedule_attempt attempt delay c =
     (let c1 = c\<lparr>reconnectAttempt := attempt,
                 client_state := (client_state c)\<lparr>st_transportStatus := Some Reconnecting,
                   st_reconnectAttempt := Some attempt\<rparr>\<rparr>
      in emitError ''reconnect_scheduled''
           (JStr (''scheduled reconnect attempt '' @ nat_str attempt @ '' in '' @ nat_str delay @ ''ms''))
           ([(''attempt'', js_int (int attempt)), (''delayMs'', js_int (int delay))] @ identity_details c1) c1)"

definition loop_head :: "nat \<Rightarrow> nat \<Rightarrow> nat \<Rightarrow> relay_client \<Rightarrow> relay_client" where
  "loop_head r args generation c =
     (if explicitDisconnect c \<or> generation \<noteq> reconnectGeneration c then resolve_unit r c
      else
        (let attempt = reconnectAttempt c + 1;
             delay = reconnect_delay (reconnectDelayMs c) (reconnectAttempt c);
             (d, c1) = waitForReconnectDelay delay (schedule_attempt attempt delay c)
         in await d (ReconnectDelayed r args generation attempt) c1))"

definition reconnect_delayed ::
  "client_host \<Rightarrow> nat \<Rightarrow> nat \<Rightarrow> nat \<Rightarrow> nat \<Rightarrow> relay_client \<Rightarrow> relay_client" where
  "reconnect_delayed h r a generation attempt c =
     (if explicitDisconnect c \<or> generation \<noteq> reconnectGeneration c then resolve_unit r c
      else
        (let c1 = emitError ''reconnect_attempt'' (JStr ''reconnecting to relay'')
               ((''attempt'', js_int (int attempt)) # identity_details c) c;
             args = argsHeap c1 ! a;
             (p, c2) = newPromise Pending c1
         in await p (ReconnectConnected r a generation)
              (connectInternal h (arg_channel args) (arg_pin args) (arg_options args) p c2)))"

definition reconnect_connected ::
  "nat \<Rightarrow> nat \<Rightarrow> nat \<Rightarrow> pval outcome \<Rightarrow> relay_client \<Rightarrow> relay_client" where
  "reconnect_connected r a generation res c =
     (case res of
        Fulfilled v \<Rightarrow>
          resolve_unit r (emitError ''reconnect_success'' (JStr ''reconnected to relay'') (identity_details c) c)
      | Rejected e \<Rightarrow>
          (if explicitDisconnect c \<or> generation \<noteq> reconnectGeneration c then resolve_unit r c
           else loop_head r a generation (emitError ''reconnect_failed'' e [] c))
      | Pending \<Rightarrow> c)"

definition reconnect :: "relay_client \<Rightarrow> nat \<times> relay_client" where
  "reconnect c =
     (case reconnectPromise c of
        Some p \<Rightarrow> (p, c)
      | None \<Rightarrow>
          (case lastConnectArgs c of
             None \<Rightarrow> newPromise (Fulfilled VUnit) c
           | Some a \<Rightarrow>
               (if explicitDisconnect c then newPromise (Fulfilled VUnit) c
                else
                  (let generation = reconnectGeneration c + 1;
                       (r, c1) = newPromise Pending (c\<lparr>reconnectGeneration := generation\<rparr>);
                       c2 = loop_head r a generation c1
                   in (r, await r ReconnectFinally (c2\<lparr>reconnectPromise := Some r\<rparr>))))))"

definition scheduleReconnect :: "relay_client \<Rightarrow> relay_client" where
  "scheduleReconnect c = snd (reconnect c)"

section \<open>Close and error listeners\<close>

definition closeHandler :: "nat \<Rightarrow> jsval \<Rightarrow> relay_client \<Rightarrow> relay_client" where
  "closeHandler s first c =
     (if socket c \<noteq> Some s then c
      else
        (let info = closeEventInfo first in
         if \<not> ws_settled (sockets c ! s)
         then rejectBeforeOpen s (relay_client_error
                (''relay WebSocket closed before opening'' @ ci_summary info) JUndef JUndef None) c
         else
           (let willReconnect = (\<not> explicitDisconnect c \<and> s \<notin> set (suppressReconnectForSocket c)
                                 \<and> isEstablishedMemberConnection c);
                c1 = c\<lparr>client_state := (client_state c)
                   \<lparr>st_transportStatus := Some (if willReconnect then Stale else Disconnected),
                    st_lastDisconnectedAt := Some (iso_string (now c)),
                    st_lastCloseCode := ci_code info, st_lastCloseReason := ci_reason info\<rparr>\<rparr>;
                c2 = emitError ''websocket_close'' (JError (ci_message info) [])
                   ([(''closeCode'', (case ci_code info of None \<Rightarrow> JUndef | Some n \<Rightarrow> JNum n)),
                     (''reason'', opt_str (ci_reason info)),
                     (''wasClean'', (case ci_wasClean info of None \<Rightarrow> JUndef | Some b \<Rightarrow> JBool b)),
                     (''willReconnect'', JBool willReconnect)] @ identity_details c1) c1;
                c3 = cleanup s (stopHeartbeat (c2\<lparr>socket := None\<rparr>));
                c4 = rejectResponseWaiters closed_message c3
            in if willReconnect then scheduleReconnect c4 else c4)))"

definition errorHandler :: "nat \<Rightarrow> jsval \<Rightarrow> relay_client \<Rightarrow> relay_client" where
  "errorHandler s first c =
     (if socket c \<noteq> Some s then c
      else if \<not> ws_settled (sockets c ! s)
      then ws_close s None None (rejectBeforeOpen s (socketErrorToRelayClientError first) c)
      else emitError ''websocket_error'' first [] c)"

section \<open>The health check\<close>

definition requestStatus :: "client_host \<Rightarrow> nat \<Rightarrow> relay_client \<Rightarrow> (jsval + nat) \<times> relay_client" where
  "requestStatus h timeoutMs c =
     requestResponse h (JObj [(''type'', JStr (wire StatusRequest))]) (wire StatusResponse) timeoutMs None c"

definition health_reconnect :: "nat \<Rightarrow> nat \<Rightarrow> relay_client \<Rightarrow> relay_client" where
  "health_reconnect r generation c =
     (if generation \<noteq> healthGeneration c then resolve_unit r c
      else (let (p, c1) = reconnect c in await p (HealthReconnected r) c1))"

definition health_failed :: "nat \<Rightarrow> nat \<Rightarrow> jsval \<Rightarrow> relay_client \<Rightarrow> relay_client" where
  "health_failed r generation err c =
     (if generation \<noteq> healthGeneration c then resolve_unit r c
      else if explicitDisconnect c then settle r (Rejected err) c
      else
        (let c1 = c\<lparr>client_state := (client_state c)\<lparr>st_transportStatus := Some Stale,
               st_lastDisconnectedAt := Some (iso_string (now c)),
               st_lastCloseReason := Some ''heartbeat timeout''\<rparr>\<rparr>;
             c2 = emitError ''heartbeat_timeout'' err (identity_details c1) c1;
             c3 = closeCurrentSocket None (Some ''heartbeat timeout'') True c2
         in health_reconnect r generation c3))"

definition socket_open :: "relay_client \<Rightarrow> bool" where
  "socket_open c =
     (case socket c of None \<Rightarrow> False | Some s \<Rightarrow> ws_readyState (sockets c ! s) = WEBSOCKET_OPEN)"

definition stale :: "relay_client \<Rightarrow> bool" where
  "stale c = (now c - lastInboundAt c \<ge> HEARTBEAT_INTERVAL_MS)"

definition start_health_check :: "client_host \<Rightarrow> nat \<Rightarrow> relay_client \<Rightarrow> relay_client" where
  "start_health_check h r c =
     (let generation = healthGeneration c in
      if socket_open c then
        (case requestStatus h HEARTBEAT_TIMEOUT_MS c of
           (Inr p, c1) \<Rightarrow> await p (HealthStatus r generation) c1
         | (Inl e, c1) \<Rightarrow> health_failed r generation e c1)
      else health_reconnect r generation c)"

definition ensureHealthy :: "client_host \<Rightarrow> relay_client \<Rightarrow> nat option \<times> relay_client" where
  "ensureHealthy h c =
     (case healthCheckPromise c of
        Some p \<Rightarrow> (Some p, c)
      | None \<Rightarrow>
          (if socket_open c \<and> \<not> stale c then (None, c)
           else
             (let (r, c1) = newPromise Pending c;
                  c2 = start_health_check h r c1
              in (Some r, await r HealthFinally (c2\<lparr>healthCheckPromise := Some r\<rparr>)))))"

definition health_status :: "nat \<Rightarrow> nat \<Rightarrow> pval outcome \<Rightarrow> relay_client \<Rightarrow> relay_client" where
  "health_status r generation res c =
     (case res of
        Fulfilled v \<Rightarrow> resolve_unit r c
      | Rejected e \<Rightarrow> health_failed r generation e c
      | Pending \<Rightarrow> c)"

section \<open>Network operations\<close>

fun check_response :: "response_check \<Rightarrow> request_response \<Rightarrow> jsval + request_response" where
  "check_response NoCheck r = Inr r"
| "check_response MessageAckCheck r = validateMessageAck r"
| "check_response (DecisionCheck j d) r = validateJoinDecisionAck r j d"

text \<open>The operation itself: write the request, wait for its response and check it.\<close>

definition run_operation :: "client_host \<Rightarrow> request \<Rightarrow> relay_client \<Rightarrow> (jsval + nat) \<times> relay_client" where
  "run_operation h rq c =
     (case requestResponse h (req_event rq) (req_responseType rq) (req_timeoutMs rq) (req_timeoutCode rq) c of
        (Inl e, c1) \<Rightarrow> (Inl e, c1)
      | (Inr p, c1) \<Rightarrow>
          (if req_check rq = NoCheck then (Inr p, c1)
           else (let (q, c2) = newPromise Pending c1 in (Inr q, await p (Validate q (req_check rq)) c2))))"

definition afterHealthy :: "client_host \<Rightarrow> request \<Rightarrow> relay_client \<Rightarrow> nat \<times> relay_client" where
  "afterHealthy h rq c =
     (case ensureHealthy h c of
        (Some p, c1) \<Rightarrow> (let (r, c2) = newPromise Pending c1 in (r, await p (RunOperation r rq) c2))
      | (None, c1) \<Rightarrow>
          (case run_operation h rq c1 of
             (Inr p, c2) \<Rightarrow> (p, c2)
           | (Inl e, c2) \<Rightarrow> newPromise (Rejected e) c2))"

definition message_event :: "relay_event_type \<Rightarrow> jsval \<Rightarrow> (string \<times> jsval) list \<Rightarrow> string \<Rightarrow> string \<Rightarrow> jsval" where
  "message_event ty to extra text kind =
     JObj ([(''type'', JStr (wire ty)), (''to'', to)] @ extra
           @ [(''payload'', JObj [(''text'', JStr text), (''kind'', JStr kind)])])"

definition message_request :: "jsval \<Rightarrow> nat \<Rightarrow> request" where
  "message_request event timeoutMs =
     \<lparr>req_event = event, req_responseType = wire MessageAck, req_timeoutMs = timeoutMs,
      req_timeoutCode = Some ''delivery_unknown'', req_check = MessageAckCheck\<rparr>"

definition send :: "client_host \<Rightarrow> string \<Rightarrow> string \<Rightarrow> nat \<Rightarrow> relay_client \<Rightarrow> nat \<times> relay_client" where
  "send h to message timeoutMs =
     afterHealthy h (message_request (message_event MessageSend (JStr to) [] message ''send'') timeoutMs)"

definition ask :: "client_host \<Rightarrow> string \<Rightarrow> string \<Rightarrow> nat \<Rightarrow> relay_client \<Rightarrow> nat \<times> relay_client" where
  "ask h to message timeoutMs =
     afterHealthy h (message_request (message_event MessageAsk (JStr to) [] message ''ask'') timeoutMs)"

definition reply :: "client_host \<Rightarrow> string \<Rightarrow> string \<Rightarrow> nat \<Rightarrow> relay_client \<Rightarrow> nat \<times> relay_client" where
  "reply h replyTo message timeoutMs c =
     (case jm_get (replyTargets c) (JStr replyTo) of
        None \<Rightarrow> newPromise (Rejected (relay_client_error
                  (''no reply target recorded for '' @ replyTo) JUndef JUndef None)) c
      | Some to \<Rightarrow>
          afterHealthy h (message_request
            (message_event MessageReply to [(''replyTo'', JStr replyTo)] message ''reply'') timeoutMs) c)"

definition decision_request :: "relay_event_type \<Rightarrow> string \<Rightarrow> string \<Rightarrow> nat \<Rightarrow> request" where
  "decision_request ty joinRequestId decision timeoutMs =
     \<lparr>req_event = JObj [(''type'', JStr (wire ty)),
                        (''payload'', JObj [(''joinRequestId'', JStr joinRequestId)])],
      req_responseType = wire JoinDecisionAck, req_timeoutMs = timeoutMs,
      req_timeoutCode = Some ''decision_unknown'', req_check = DecisionCheck joinRequestId decision\<rparr>"

definition approve :: "client_host \<Rightarrow> string \<Rightarrow> nat \<Rightarrow> relay_client \<Rightarrow> nat \<times> relay_client" where
  "approve h joinRequestId timeoutMs =
     afterHealthy h (decision_request JoinApprove joinRequestId ''approved'' timeoutMs)"

definition deny :: "client_host \<Rightarrow> string \<Rightarrow> nat \<Rightarrow> relay_client \<Rightarrow> nat \<times> relay_client" where
  "deny h joinRequestId timeoutMs =
     afterHealthy h (decision_request JoinDeny joinRequestId ''denied'' timeoutMs)"

definition approveJoin :: "client_host \<Rightarrow> string \<Rightarrow> nat \<Rightarrow> relay_client \<Rightarrow> nat \<times> relay_client" where
  "approveJoin = approve"

definition denyJoin :: "client_host \<Rightarrow> string \<Rightarrow> nat \<Rightarrow> relay_client \<Rightarrow> nat \<times> relay_client" where
  "denyJoin = deny"

definition plain_request :: "relay_event_type \<Rightarrow> relay_event_type \<Rightarrow> nat \<Rightarrow> request" where
  "plain_request ty responseType timeoutMs =
     \<lparr>req_event = JObj [(''type'', JStr (wire ty))], req_responseType = wire responseType,
      req_timeoutMs = timeoutMs, req_timeoutCode = None, req_check = NoCheck\<rparr>"

definition list_members :: "client_host \<Rightarrow> nat \<Rightarrow> relay_client \<Rightarrow> nat \<times> relay_client" where
  "list_members h timeoutMs = afterHealthy h (plain_request ListRequest ListResponse timeoutMs)"

definition status :: "client_host \<Rightarrow> nat \<Rightarrow> relay_client \<Rightarrow> nat \<times> relay_client" where
  "status h timeoutMs = afterHealthy h (plain_request StatusRequest StatusResponse timeoutMs)"

section \<open>Continuations\<close>

definition run_queued :: "client_host \<Rightarrow> nat \<Rightarrow> request \<Rightarrow> pval outcome \<Rightarrow> relay_client \<Rightarrow> relay_client" where
  "run_queued h r rq res c =
     (case res of
        Fulfilled v \<Rightarrow>
          (case run_operation h rq c of
             (Inl e, c1) \<Rightarrow> settle r (Rejected e) c1
           | (Inr q, c1) \<Rightarrow> await q (Adopt r) c1)
      | Rejected e \<Rightarrow> settle r (Rejected e) c
      | Pending \<Rightarrow> c)"

definition validate_response :: "nat \<Rightarrow> response_check \<Rightarrow> pval outcome \<Rightarrow> relay_client \<Rightarrow> relay_client" where
  "validate_response r chk res c =
     (case res of
        Fulfilled (VResponse x) \<Rightarrow>
          (case check_response chk x of
             Inl e \<Rightarrow> settle r (Rejected e) c
           | Inr y \<Rightarrow> settle r (Fulfilled (VResponse y)) c)
      | Fulfilled _ \<Rightarrow> settle r (Rejected type_error) c
      | Rejected e \<Rightarrow> settle r (Rejected e) c
      | Pending \<Rightarrow> c)"

fun run_cont :: "client_host \<Rightarrow> nat \<Rightarrow> cont \<Rightarrow> pval outcome \<Rightarrow> relay_client \<Rightarrow> relay_client" where
  "run_cont h p (ConnectFetched r g channel pin) res c = connect_fetched h r g channel pin res c"
| "run_cont h p (ConnectOpened r cr) res c = connect_opened r cr res c"
| "run_cont h p (ReconnectDelayed r a g n) res c = reconnect_delayed h r a g n c"
| "run_cont h p (ReconnectConnected r a g) res c = reconnect_connected r a g res c"
| "run_cont h p ReconnectFinally res c =
     (if reconnectPromise c = Some p then c\<lparr>reconnectPromise := None\<rparr> else c)"
| "run_cont h p (HealthStatus r g) res c = health_status r g res c"
| "run_cont h p (HealthReconnected r) res c = settle r res c"
| "run_cont h p HealthFinally res c =
     (if healthCheckPromise c = Some p then c\<lparr>healthCheckPromise := None\<rparr> else c)"
| "run_cont h p (RunOperation r rq) res c = run_queued h r rq res c"
| "run_cont h p (Validate r chk) res c = validate_response r chk res c"
| "run_cont h p (Adopt r) res c = settle r res c"

fun run_timer :: "client_host \<Rightarrow> timer \<Rightarrow> relay_client \<Rightarrow> relay_client" where
  "run_timer h THeartbeat c = snd (ensureHealthy h (c\<lparr>heartbeatTimer := None\<rparr>))"
| "run_timer h (TReconnect d) c = resolve_unit d (c\<lparr>reconnectTimer := None, reconnectTimerResolve := None\<rparr>)"
| "run_timer h (TWaiter k p ty code) c = waiter_timeout k p ty code c"

section \<open>The system\<close>

text \<open>
  Everything that can happen: a call of the client's interface, the answer to a fetch, events of a
  socket, a timer that is due, a continuation whose promise is settled, and time. A socket delivers
  events only to listeners, and messages only after it has opened; otherwise the outside is free.
\<close>

datatype call =
    Connect string string connect_options
  | Disconnect "jsnum option" "string option"
  | Send string string nat
  | Ask string string nat
  | Reply string string nat
  | Approve string nat
  | Deny string nat
  | ListMembers nat
  | Status nat
  | SendEvent jsval
  | RequestResponse jsval string nat "string option"
  | On string nat
  | Off string nat

datatype action =
    Call call
  | FetchDone nat "jsval + fetch_response"
  | SockReady nat nat
  | SockOpen nat
  | SockMessage nat jsval
  | SockClose nat jsval
  | SockError nat jsval
  | Fire nat
  | Resume nat
  | Tick nat

definition uncaught :: "jsval option \<times> relay_client \<Rightarrow> relay_client" where
  "uncaught r = (case fst r of None \<Rightarrow> snd r | Some e \<Rightarrow> emitLog (OUncaught e) (snd r))"

fun run_call :: "client_host \<Rightarrow> call \<Rightarrow> relay_client \<Rightarrow> relay_client" where
  "run_call h (Connect channel pin options) c = snd (connect h channel pin options c)"
| "run_call h (Disconnect code reason) c = snd (disconnect h code reason c)"
| "run_call h (Send to m t) c = snd (send h to m t c)"
| "run_call h (Ask to m t) c = snd (ask h to m t c)"
| "run_call h (Reply k m t) c = snd (reply h k m t c)"
| "run_call h (Approve j t) c = snd (approve h j t c)"
| "run_call h (Deny j t) c = snd (deny h j t c)"
| "run_call h (ListMembers t) c = snd (list_members h t c)"
| "run_call h (Status t) c = snd (status h t c)"
| "run_call h (SendEvent event) c = snd (sendEvent h event c)"
| "run_call h (RequestResponse event ty t code) c = snd (requestResponse h event ty t code c)"
| "run_call h (On ty hid) c = on ty hid c"
| "run_call h (Off ty hid) c = off ty hid c"

text \<open>The fetches in flight are the promises a \<open>ConnectFetched\<close> waits for.\<close>

definition fetching :: "relay_client \<Rightarrow> nat \<Rightarrow> bool" where
  "fetching c p = list_ex (\<lambda>(q, k). q = p \<and> (case k of ConnectFetched _ _ _ _ \<Rightarrow> True | _ \<Rightarrow> False)) (conts c)"

definition listening :: "relay_client \<Rightarrow> nat \<Rightarrow> bool" where
  "listening c s = (s < length (sockets c) \<and> ws_listening (sockets c ! s))"

fun act :: "client_host \<Rightarrow> action \<Rightarrow> relay_client \<Rightarrow> relay_client option" where
  "act h (Call a) c = Some (run_call h a c)"
| "act h (FetchDone p res) c =
     (if fetching c p
      then Some (settle p (case res of Inl e \<Rightarrow> Rejected e | Inr r \<Rightarrow> Fulfilled (VFetch r)) c) else None)"
| "act h (SockReady s n) c =
     (if s < length (sockets c) then Some (upd_socket s (\<lambda>k. k\<lparr>ws_readyState := n\<rparr>) c) else None)"
| "act h (SockOpen s) c = (if listening c s then Some (openHandler s c) else None)"
| "act h (SockMessage s v) c = (if listening c s \<and> ws_settled (sockets c ! s) then Some (uncaught (messageHandler h s v c)) else None)"
| "act h (SockClose s v) c = (if listening c s then Some (closeHandler s v c) else None)"
| "act h (SockError s v) c = (if listening c s then Some (errorHandler s v c) else None)"
| "act h (Fire t) c =
     (case jm_get (timers c) t of
        None \<Rightarrow> None
      | Some (deadline, k) \<Rightarrow>
          (if deadline \<le> now c then Some (run_timer h k (clearTimeout t c)) else None))"
| "act h (Resume i) c =
     (if i < length (conts c)
      then (case conts c ! i of
              (p, k) \<Rightarrow>
                (if promise_of c p = Pending then None
                 else Some (run_cont h p k (promise_of c p)
                        (c\<lparr>conts := take i (conts c) @ drop (Suc i) (conts c)\<rparr>))))
      else None)"
| "act h (Tick d) c = Some (c\<lparr>now := now c + d\<rparr>)"

text \<open>The states a client can reach, as an inductive relation over the actions.\<close>

inductive client_step :: "client_host \<Rightarrow> relay_client \<Rightarrow> relay_client \<Rightarrow> bool" for h where
  step: "act h a c = Some d \<Longrightarrow> client_step h c d"

inductive reachable :: "client_host \<Rightarrow> relay_client \<Rightarrow> bool" for h where
  start: "reachable h (new_client cfg delay t)"
| next_step: "reachable h c \<Longrightarrow> client_step h c d \<Longrightarrow> reachable h d"

inductive_cases client_stepE [elim!]: "client_step h c d"

text \<open>An invariant of the actions that a new client satisfies holds in every reachable state.\<close>

locale client_invariant = invariant_system "act h" inv
  for h :: client_host and inv :: "relay_client \<Rightarrow> bool" +
  assumes init: "inv (new_client cfg delay t)"
begin

lemma reachable_inv: "reachable h c \<Longrightarrow> inv c"
  by (induction rule: reachable.induct) (auto intro: init act_inv)

end

lemma run_reachable: "run_actions (act h) as c = Some d \<Longrightarrow> reachable h c \<Longrightarrow> reachable h d"
proof (induction as arbitrary: c)
  case (Cons a as)
  then obtain e where "act h a c = Some e" "run_actions (act h) as e = Some d"
    by (auto split: option.splits)
  moreover from this have "reachable h e"
    using Cons.prems by (blast intro: reachable.next_step client_step.step)
  ultimately show ?case using Cons.IH by blast
qed simp

end
