(* ===== verification/Client_Invariant.thy ===== *)
theory Client_Invariant
  imports Client
begin

text \<open>
  The invariant of the client. Every state a client can reach is \<open>sound\<close>: timer identifiers are
  fresh; the heartbeat is the only timer of its kind, is due 25 seconds after the last inbound
  frame, and runs only on an opened current socket; every response waiter has its timer; the
  current socket is the only one with listeners; and every promise not settled yet has a source that
  will settle it. Here are the invariant and its preservation by the synchronous operations.
\<close>

section \<open>Sources\<close>

text \<open>The promise a timer settles, and the promise the function of a continuation returned.\<close>

fun timer_pid :: "timer \<Rightarrow> nat option" where
  "timer_pid THeartbeat = None"
| "timer_pid (TReconnect d) = Some d"
| "timer_pid (TWaiter k p ty code) = Some p"

fun cont_ret :: "cont \<Rightarrow> nat option" where
  "cont_ret ReconnectFinally = None"
| "cont_ret HealthFinally = None"
| "cont_ret k = Some (ret k)"

fun is_fetch :: "cont \<Rightarrow> bool" where
  "is_fetch (ConnectFetched _ _ _ _) = True"
| "is_fetch _ = False"

definition timer_src :: "(nat, nat \<times> timer) jsmap \<Rightarrow> nat set" where
  "timer_src ts = {p. \<exists>t d k. jm_get ts t = Some (d, k) \<and> timer_pid k = Some p}"

definition cont_src :: "(nat \<times> cont) list \<Rightarrow> nat set" where
  "cont_src ks = {p. \<exists>q k. (q, k) \<in> set ks \<and> (cont_ret k = Some p \<or> q = p \<and> is_fetch k)}"

definition open_src :: "nat option \<Rightarrow> ws list \<Rightarrow> nat set" where
  "open_src po ss = (case po of None \<Rightarrow> {} | Some s \<Rightarrow> {ws_promise (ss ! s)})"

section \<open>The invariant\<close>

definition timers_ok :: "(nat, nat \<times> timer) jsmap \<Rightarrow> nat \<Rightarrow> bool" where
  "timers_ok ts n = (\<forall>t. n \<le> t \<longrightarrow> jm_get ts t = None)"

definition heart_ok :: "(nat, nat \<times> timer) jsmap \<Rightarrow> nat option \<Rightarrow> nat \<Rightarrow> bool" where
  "heart_ok ts hb li = (\<forall>t d. jm_get ts t = Some (d, THeartbeat) \<longleftrightarrow> hb = Some t \<and> d = li + HEARTBEAT_INTERVAL_MS)"

definition beat_ok :: "nat option \<Rightarrow> nat option \<Rightarrow> ws list \<Rightarrow> bool" where
  "beat_ok hb sk ss = (hb \<noteq> None \<longrightarrow> (\<exists>s. sk = Some s \<and> ws_settled (ss ! s)))"

definition waiters_ok :: "(jsval, waiter) jsmap \<Rightarrow> (nat, nat \<times> timer) jsmap \<Rightarrow> bool" where
  "waiters_ok rw ts = (distinct_keys rw \<and> (\<forall>(k, w) \<in> set rw. get (w_requestEvent w) ''id'' = k \<and>
     (\<exists>d. jm_get ts (w_timer w) = Some (d, TWaiter k (w_promise w) (w_responseType w) (w_timeoutCode w)))))"

definition delay_ok :: "(nat, nat \<times> timer) jsmap \<Rightarrow> nat option \<Rightarrow> nat option \<Rightarrow> bool" where
  "delay_ok ts rt rr =
     (case rt of None \<Rightarrow> rr = None | Some t \<Rightarrow> (\<exists>d dl. rr = Some d \<and> jm_get ts t = Some (dl, TReconnect d)))"

definition socket_ok :: "nat option \<Rightarrow> nat option \<Rightarrow> nat option \<Rightarrow> ws list \<Rightarrow> bool" where
  "socket_ok sk cl po ss =
     (cl = sk \<and> (\<forall>s. sk = Some s \<longrightarrow> s < length ss) \<and>
      (\<forall>s < length ss. ws_listening (ss ! s) \<longleftrightarrow> sk = Some s) \<and>
      (\<forall>s. po = Some s \<longleftrightarrow> sk = Some s \<and> \<not> ws_settled (ss ! s)))"

definition owed :: "nat set \<Rightarrow> pval outcome list \<Rightarrow> (nat, nat \<times> timer) jsmap \<Rightarrow> (nat \<times> cont) list \<Rightarrow>
    nat option \<Rightarrow> ws list \<Rightarrow> bool" where
  "owed X ps ts ks po ss = (pending ps \<subseteq> timer_src ts \<union> cont_src ks \<union> open_src po ss \<union> X)"

text \<open>In the middle of an operation the promises in \<open>X\<close> may still be owed a settlement.\<close>

definition sound :: "nat set \<Rightarrow> relay_client \<Rightarrow> bool" where
  "sound X c =
     (timers_ok (timers c) (nextTimer c) \<and> heart_ok (timers c) (heartbeatTimer c) (lastInboundAt c) \<and>
      beat_ok (heartbeatTimer c) (socket c) (sockets c) \<and>
      waiters_ok (responseWaiters c) (timers c) \<and>
      delay_ok (timers c) (reconnectTimer c) (reconnectTimerResolve c) \<and>
      socket_ok (socket c) (socketCleanup c) (pendingOpenReject c) (sockets c) \<and>
      owed X (promises c) (timers c) (conts c) (pendingOpenReject c) (sockets c))"

lemma sound_new_client: "sound {} (new_client cfg delay t)"
  by (simp add: sound_def new_client_def timers_ok_def heart_ok_def beat_ok_def waiters_ok_def delay_ok_def
      socket_ok_def owed_def)

lemma sound_mono: "sound X c \<Longrightarrow> X \<subseteq> Y \<Longrightarrow> sound Y c"
  by (auto simp: sound_def owed_def)

section \<open>Sources under the elementary operations\<close>

lemma timer_src_set: "jm_get ts t = None \<Longrightarrow> timer_src (jm_set t (d, k) ts) = timer_src ts \<union> set_option (timer_pid k)"
  unfolding timer_src_def by (auto; metis option.simps(3))

lemma timer_src_delete: "timer_src ts \<subseteq> timer_src (jm_delete t ts) \<union>
    (case jm_get ts t of None \<Rightarrow> {} | Some (d, k) \<Rightarrow> set_option (timer_pid k))"
proof
  fix p
  assume "p \<in> timer_src ts"
  then obtain u d k where u: "jm_get ts u = Some (d, k)" "timer_pid k = Some p"
    by (auto simp: timer_src_def)
  then have "u \<noteq> t \<Longrightarrow> jm_get (jm_delete t ts) u = Some (d, k)"
    by simp
  with u show "p \<in> timer_src (jm_delete t ts) \<union>
      (case jm_get ts t of None \<Rightarrow> {} | Some (d, k) \<Rightarrow> set_option (timer_pid k))"
    unfolding timer_src_def by (cases "u = t") (simp, blast)
qed

lemma cont_src_append [simp]: "cont_src (ks @ ls) = cont_src ks \<union> cont_src ls"
  unfolding cont_src_def by auto

lemma cont_src_single [simp]: "cont_src [(q, k)] = set_option (cont_ret k) \<union> (if is_fetch k then {q} else {})"
  unfolding cont_src_def by auto

lemma cont_src_Cons: "cont_src (x # ks) = cont_src [x] \<union> cont_src ks"
  unfolding cont_src_def by auto

lemma open_src_simps [simp]: "open_src None ss = {}" "open_src (Some s) ss = {ws_promise (ss ! s)}"
  by (simp_all add: open_src_def)

section \<open>Preservation by the elementary operations\<close>

lemma sound_log [simp]: "sound X (c\<lparr>log := l\<rparr>) = sound X c"
  by (simp add: sound_def)

lemma sound_state [simp]: "sound X (c\<lparr>client_state := st\<rparr>) = sound X c"
  by (simp add: sound_def)

lemma sound_idCount [simp]: "sound X (c\<lparr>idCount := n\<rparr>) = sound X c"
  by (simp add: sound_def)

lemma sound_replyTargets [simp]: "sound X (c\<lparr>replyTargets := m\<rparr>) = sound X c"
  by (simp add: sound_def)

lemma sound_settle: "sound (insert p X) c \<Longrightarrow> v \<noteq> Pending \<Longrightarrow> sound X (settle p v c)"
  by (auto simp: sound_def settle_def owed_def pending_settled)

lemma sound_await: "sound X c \<Longrightarrow> sound (X - set_option (cont_ret k)) (await p k c)"
  by (auto simp: sound_def await_def owed_def)

lemma sound_newPromise: "sound X c \<Longrightarrow> sound (insert (length (promises c)) X) (snd (newPromise v c))"
  by (auto simp: sound_def newPromise_def owed_def)

text \<open>Deleting a timer of one kind does not concern the parts about the others.\<close>

lemma timers_ok_delete: "timers_ok ts n \<Longrightarrow> timers_ok (jm_delete t ts) n"
  by (simp add: timers_ok_def)

lemma heart_ok_delete:
  "heart_ok ts hb li \<Longrightarrow> (\<And>d. jm_get ts t \<noteq> Some (d, THeartbeat)) \<Longrightarrow> heart_ok (jm_delete t ts) hb li"
  by (auto simp: heart_ok_def)

lemma waiters_ok_delete:
  "waiters_ok rw ts \<Longrightarrow> (\<And>d k p ty code. jm_get ts t \<noteq> Some (d, TWaiter k p ty code)) \<Longrightarrow>
   waiters_ok rw (jm_delete t ts)"
  by (fastforce simp: waiters_ok_def)

lemma delay_ok_delete:
  "delay_ok ts rt rr \<Longrightarrow> (\<And>d p. jm_get ts t \<noteq> Some (d, TReconnect p)) \<Longrightarrow> delay_ok (jm_delete t ts) rt rr"
  by (auto simp: delay_ok_def split: option.splits)

lemma owed_delete:
  assumes "owed X ps ts ks po ss"
    and "\<And>d k. jm_get ts t = Some (d, k) \<Longrightarrow> set_option (timer_pid k) \<subseteq> Y"
  shows "owed (X \<union> Y) ps (jm_delete t ts) ks po ss"
  using assms timer_src_delete [of ts t] by (fastforce simp: owed_def split: option.splits)

lemmas delete_ok = timers_ok_delete heart_ok_delete waiters_ok_delete delay_ok_delete owed_delete

lemma timers_ok_set: "timers_ok ts n \<Longrightarrow> timers_ok (jm_set n e ts) (Suc n)"
  by (simp add: timers_ok_def)

lemma heart_ok_set:
  "heart_ok ts hb li \<Longrightarrow> timers_ok ts n \<Longrightarrow> k \<noteq> THeartbeat \<Longrightarrow> heart_ok (jm_set n (d, k) ts) hb li"
  by (auto simp: heart_ok_def timers_ok_def) (metis option.distinct(1) order_refl)

lemma waiters_ok_set: "waiters_ok rw ts \<Longrightarrow> timers_ok ts n \<Longrightarrow> waiters_ok rw (jm_set n e ts)"
  by (fastforce simp: waiters_ok_def timers_ok_def)

lemma delay_ok_set: "delay_ok ts rt rr \<Longrightarrow> timers_ok ts n \<Longrightarrow> delay_ok (jm_set n e ts) rt rr"
  by (auto simp: delay_ok_def timers_ok_def split: option.splits)

lemma owed_set:
  "owed X ps ts ks po ss \<Longrightarrow> timers_ok ts n \<Longrightarrow> owed (X - set_option (timer_pid k)) ps (jm_set n (d, k) ts) ks po ss"
  by (auto simp: owed_def timers_ok_def timer_src_set)

lemma sound_setTimeout:
  "sound X c \<Longrightarrow> k \<noteq> THeartbeat \<Longrightarrow> sound (X - set_option (timer_pid k)) (snd (setTimeout k ms c))"
  by (simp add: sound_def setTimeout_def timers_ok_set heart_ok_set waiters_ok_set delay_ok_set owed_set)

lemma sound_stopHeartbeat: "sound X c \<Longrightarrow> sound X (stopHeartbeat c)"
proof -
  assume s: "sound X c"
  show ?thesis
  proof (cases "heartbeatTimer c")
    case None
    with s show ?thesis by (simp add: stopHeartbeat_def)
  next
    case (Some t)
    with s have t: "jm_get (timers c) t = Some (lastInboundAt c + HEARTBEAT_INTERVAL_MS, THeartbeat)"
      by (simp add: sound_def heart_ok_def)
    have "heart_ok (jm_delete t (timers c)) None (lastInboundAt c)"
      using s Some by (auto simp: sound_def heart_ok_def)
    moreover have "owed X (promises c) (jm_delete t (timers c)) (conts c) (pendingOpenReject c) (sockets c)"
      using owed_delete [of X _ "timers c" _ _ _ t "{}"] s t by (simp add: sound_def)
    ultimately show ?thesis
      using s t Some
      by (simp add: sound_def stopHeartbeat_upd beat_ok_def delete_ok)
  qed
qed

lemma stopHeartbeat_timers:
  "sound X c \<Longrightarrow> jm_get (timers (stopHeartbeat c)) t \<noteq> Some (d, THeartbeat)"
  by (auto simp: sound_def heart_ok_def stopHeartbeat_upd split: option.splits)

text \<open>Activity may be recorded when the current socket has opened.\<close>

lemma sound_recordRelayActivity:
  assumes s: "sound X c" and "socket c = Some k" and "ws_settled (sockets c ! k)"
  shows "sound X (recordRelayActivity c)"
proof -
  let ?d = "stopHeartbeat c"
  have d: "sound X ?d" using s by (rule sound_stopHeartbeat)
  have eq: "recordRelayActivity c = ?d\<lparr>lastInboundAt := now c,
     client_state := (client_state c)\<lparr>st_lastRelayActivityAt := Some (iso_string (now c))\<rparr>,
     timers := jm_set (nextTimer ?d) (now c + HEARTBEAT_INTERVAL_MS, THeartbeat) (timers ?d),
     nextTimer := nextTimer ?d + 1, heartbeatTimer := Some (nextTimer ?d)\<rparr>"
    by (simp add: recordRelayActivity_upd stopHeartbeat_upd)
  have "heart_ok (jm_set (nextTimer ?d) (now c + HEARTBEAT_INTERVAL_MS, THeartbeat) (timers ?d))
      (Some (nextTimer ?d)) (now c)"
    using stopHeartbeat_timers [OF s] by (auto simp: heart_ok_def)
  moreover have "owed X (promises ?d) (jm_set (nextTimer ?d) (now c + HEARTBEAT_INTERVAL_MS, THeartbeat) (timers ?d))
      (conts ?d) (pendingOpenReject ?d) (sockets ?d)"
    using owed_set [of X _ "timers ?d" _ _ _ "nextTimer ?d" THeartbeat] d by (simp add: sound_def)
  moreover have "socket ?d = socket c" "sockets ?d = sockets c"
    by (simp_all add: stopHeartbeat_upd)
  ultimately show ?thesis
    using d assms(2,3) unfolding eq
    by (simp add: sound_def beat_ok_def timers_ok_set waiters_ok_set delay_ok_set)
qed

lemma sound_clearReconnectTimer: "sound X c \<Longrightarrow> sound X (clearReconnectTimer c)"
proof -
  assume s: "sound X c"
  show ?thesis
  proof (cases "reconnectTimer c")
    case None
    with s have "reconnectTimerResolve c = None" by (simp add: sound_def delay_ok_def)
    with None s show ?thesis by (simp add: clearReconnectTimer_upd sound_def)
  next
    case (Some t)
    with s obtain d dl where d: "reconnectTimerResolve c = Some d"
        "jm_get (timers c) t = Some (dl, TReconnect d)"
      by (auto simp: sound_def delay_ok_def)
    have "owed ({d} \<union> X) (promises c) (jm_delete t (timers c)) (conts c) (pendingOpenReject c) (sockets c)"
      using owed_delete [of X _ "timers c" _ _ _ t "{d}"] s d by (simp add: sound_def)
    then have "owed X (settled d (Fulfilled VUnit) (promises c)) (jm_delete t (timers c)) (conts c)
        (pendingOpenReject c) (sockets c)"
      by (auto simp: owed_def)
    moreover have "delay_ok (jm_delete t (timers c)) None None"
      by (simp add: delay_ok_def)
    ultimately show ?thesis
      using s d Some by (simp add: sound_def clearReconnectTimer_upd delete_ok)
  qed
qed

section \<open>Preservation by the waiters' operations\<close>

lemma waiter_timer:
  assumes "waiters_ok rw ts" and "jm_get rw k = Some w"
  obtains d where "jm_get ts (w_timer w) = Some (d, TWaiter k (w_promise w) (w_responseType w) (w_timeoutCode w))"
  using assms by (fastforce simp: waiters_ok_def dest!: jm_get_Some_in)

lemma waiters_ok_drop:
  assumes "waiters_ok rw ts" and "jm_get ts t = Some (d, TWaiter k p ty code)"
  shows "waiters_ok (jm_delete k rw) (jm_delete t ts)"
  using assms by (fastforce simp: waiters_ok_def set_jm_delete)

lemma waiters_ok_add:
  assumes "waiters_ok rw ts" and "get (w_requestEvent w) ''id'' = k"
    and "jm_get ts (w_timer w) = Some (d, TWaiter k (w_promise w) (w_responseType w) (w_timeoutCode w))"
  shows "waiters_ok (jm_set k w rw) ts"
proof -
  have "e = (k, w) \<or> e \<in> set rw" if "e \<in> set (jm_set k w rw)" for e
    using that set_jm_set_subset by fast
  with assms show ?thesis by (fastforce simp: waiters_ok_def)
qed

lemma waiters_ok_delete_key: "waiters_ok rw ts \<Longrightarrow> waiters_ok (jm_delete k rw) ts"
  by (auto simp: waiters_ok_def set_jm_delete)

text \<open>
  Removing a waiter's timer together with the entry under its key: the promise of the timer is then
  owed a settlement.
\<close>

lemma sound_drop_timer:
  assumes "sound X c" and "jm_get (timers c) t = Some (d, TWaiter k p ty code)"
  shows "sound (insert p X) (c\<lparr>timers := jm_delete t (timers c), responseWaiters := jm_delete k (responseWaiters c)\<rparr>)"
proof -
  have "owed (X \<union> {p}) (promises c) (jm_delete t (timers c)) (conts c) (pendingOpenReject c) (sockets c)"
    by (rule owed_delete) (use assms in \<open>simp_all add: sound_def\<close>)
  then show ?thesis
    using assms by (simp add: sound_def timers_ok_delete heart_ok_delete delay_ok_delete waiters_ok_drop)
qed

lemma sound_drop_waiter:
  assumes "sound X c" and "jm_get (responseWaiters c) k = Some w"
  shows "sound (insert (w_promise w) X) (drop_waiter k w c)"
proof -
  obtain d where "jm_get (timers c) (w_timer w) =
      Some (d, TWaiter k (w_promise w) (w_responseType w) (w_timeoutCode w))"
    using waiter_timer [of "responseWaiters c" "timers c" k w] assms by (auto simp: sound_def)
  from sound_drop_timer [OF assms(1) this] show ?thesis
    by (simp add: drop_waiter_def clearTimeout_def sound_def)
qed

lemma sound_resolve_waiter: "sound (insert (w_promise w) X) c \<Longrightarrow> sound X (resolve_waiter w event c)"
  by (simp add: resolve_waiter_def sound_settle)

lemma sound_resolveResponseWaiter: "sound X c \<Longrightarrow> sound X (resolveResponseWaiter event c)"
  by (auto simp: resolveResponseWaiter_def Let_def
      intro!: sound_settle sound_resolve_waiter sound_drop_waiter split: option.split)

lemma reject_waiter_eq:
  "reject_waiter message (k, w) c = settle (w_promise w) (Rejected (waiter_error message k w)) (drop_waiter k w c)"
  by (simp add: reject_waiter_upd drop_waiter_def clearTimeout_def settle_def)

lemma sound_reject_waiter:
  "sound X c \<Longrightarrow> jm_get (responseWaiters c) k = Some w \<Longrightarrow> sound X (reject_waiter message (k, w) c)"
  by (simp add: reject_waiter_eq sound_settle sound_drop_waiter)

lemma sound_reject_all:
  assumes "sound X c" and "distinct (map fst ws)" and "\<forall>(k, w) \<in> set ws. jm_get (responseWaiters c) k = Some w"
  shows "sound X (fold (reject_waiter message) ws c)"
  using assms
proof (induction ws arbitrary: c)
  case (Cons e ws)
  obtain k w where e: "e = (k, w)" by (cases e)
  have "sound X (reject_waiter message (k, w) c)"
    using Cons.prems e by (simp add: sound_reject_waiter)
  moreover have "\<forall>(j, v) \<in> set ws. jm_get (responseWaiters (reject_waiter message (k, w) c)) j = Some v"
    using Cons.prems e by (force simp: reject_waiter_upd)
  ultimately show ?case
    using Cons.IH Cons.prems(2) e by simp
qed simp

lemma sound_rejectResponseWaiters: "sound X c \<Longrightarrow> sound X (rejectResponseWaiters message c)"
  unfolding rejectResponseWaiters_def
  by (rule sound_reject_all)
     (auto simp: sound_def waiters_ok_def distinct_keys_def [symmetric] jm_get_in)

lemma sound_sendEvent: "sound X c \<Longrightarrow> sound X (snd (sendEvent h event c))"
  by (auto simp: sendEvent_def emitLog_def Let_def split: option.split)

lemma sendEvent_id: "fst (sendEvent h event c) = Inr out \<Longrightarrow> get out ''id'' \<noteq> JUndef"
  by (auto simp: sendEvent_def Let_def js_spread_def split: option.splits if_splits)

text \<open>A request that was written is awaited: its promise has a waiter's timer.\<close>

lemma sound_requestResponse:
  assumes "sound X c"
  shows "sound X (snd (requestResponse h event ty ms code c))"
proof (cases "sendEvent h event c")
  case (Pair r c1)
  with sound_sendEvent [OF assms] have c1: "sound X c1" by (metis snd_conv)
  show ?thesis
  proof (cases r)
    case (Inl e)
    with Pair c1 show ?thesis by (simp add: requestResponse_def)
  next
    case (Inr out)
    let ?k = "get out ''id''" and ?p = "length (promises c1)" and ?t = "nextTimer c1"
    let ?w = "\<lparr>w_responseType = ty, w_timeoutCode = code, w_requestEvent = out, w_promise = ?p, w_timer = ?t\<rparr>"
    let ?ts = "jm_set ?t (now c1 + ms, TWaiter ?k ?p ty code) (timers c1)"
    have eq: "snd (requestResponse h event ty ms code c) =
        (snd (setTimeout (TWaiter ?k ?p ty code) ms (snd (newPromise Pending c1))))
          \<lparr>responseWaiters := jm_set ?k ?w (responseWaiters c1)\<rparr>"
      using Pair Inr sendEvent_id [of h event c out]
      by (simp add: requestResponse_def newPromise_def setTimeout_def Let_def)
    have "sound X (snd (setTimeout (TWaiter ?k ?p ty code) ms (snd (newPromise Pending c1))))"
      by (rule sound_mono [OF sound_setTimeout [OF sound_newPromise [OF c1]]]) auto
    moreover have "waiters_ok (jm_set ?k ?w (responseWaiters c1)) ?ts"
      by (rule waiters_ok_add) (use c1 in \<open>simp_all add: sound_def waiters_ok_set\<close>)
    ultimately show ?thesis
      unfolding eq by (simp add: sound_def newPromise_def setTimeout_def)
  qed
qed

section \<open>Preservation by the sockets' operations\<close>

lemma upd_socket_upd: "upd_socket s f c = c\<lparr>sockets := (sockets c)[s := f (sockets c ! s)]\<rparr>"
  by (simp add: upd_socket_def)

lemma socket_ok_pending: "socket_ok sk cl (Some s) ss \<Longrightarrow> sk = Some s \<and> cl = Some s \<and> s < length ss \<and> \<not> ws_settled (ss ! s)"
  unfolding socket_ok_def by metis

text \<open>Letting go of the current socket: its listeners go, and it is no longer current.\<close>

lemma socket_ok_release:
  assumes "socket_ok (Some s) cl po ss"
  shows "socket_ok None None None (ss[s := (ss ! s)\<lparr>ws_listening := False\<rparr>])"
    and "socket_ok None None None (ss[s := (ss ! s)\<lparr>ws_settled := True, ws_listening := False\<rparr>])"
  using assms by (auto simp: socket_ok_def nth_list_update)

lemma sound_rejectBeforeOpen:
  assumes s: "sound X c" and p: "pendingOpenReject c = Some s"
  shows "sound X (rejectBeforeOpen s e c)"
proof -
  have so: "socket c = Some s" "socketCleanup c = Some s" "s < length (sockets c)" "\<not> ws_settled (sockets c ! s)"
    using s p socket_ok_pending by (auto simp: sound_def)
  moreover have "heartbeatTimer c = None"
    using s so by (auto simp: sound_def beat_ok_def)
  moreover have "owed X (settled (ws_promise (sockets c ! s)) (Rejected e) (promises c)) (timers c) (conts c)
      None ss" for ss
    using s p by (auto simp: sound_def owed_def)
  ultimately show ?thesis
    using s p socket_ok_release(2) [of s "Some s" "Some s" "sockets c"]
    by (simp add: sound_def rejectBeforeOpen_def settle_def upd_socket_upd cleanup_upd Let_def beat_ok_def)
qed

lemma rejectBeforeOpen_fields:
  assumes "sound X c" and "pendingOpenReject c = Some s"
  shows "socket (rejectBeforeOpen s e c) = None" "socketCleanup (rejectBeforeOpen s e c) = None"
    "pendingOpenReject (rejectBeforeOpen s e c) = None"
    "heartbeatTimer (rejectBeforeOpen s e c) = heartbeatTimer c"
    "responseWaiters (rejectBeforeOpen s e c) = responseWaiters c"
proof -
  have "socket c = Some s" "socketCleanup c = Some s" "\<not> ws_settled (sockets c ! s)"
    using assms socket_ok_pending by (auto simp: sound_def)
  then show "socket (rejectBeforeOpen s e c) = None" "socketCleanup (rejectBeforeOpen s e c) = None"
    "pendingOpenReject (rejectBeforeOpen s e c) = None"
    "heartbeatTimer (rejectBeforeOpen s e c) = heartbeatTimer c"
    "responseWaiters (rejectBeforeOpen s e c) = responseWaiters c"
    using assms(2)
    by (simp_all add: rejectBeforeOpen_def settle_def upd_socket_upd cleanup_upd Let_def)
qed

lemma sound_upd_socket:
  assumes "sound X c" and "\<And>k. ws_listening (f k) = ws_listening k \<and> ws_settled (f k) = ws_settled k \<and> ws_promise (f k) = ws_promise k"
  shows "sound X (upd_socket s f c)"
proof -
  have eq: "ws_listening ((sockets c)[s := f (sockets c ! s)] ! i) = ws_listening (sockets c ! i)"
     "ws_settled ((sockets c)[s := f (sockets c ! s)] ! i) = ws_settled (sockets c ! i)"
     "ws_promise ((sockets c)[s := f (sockets c ! s)] ! i) = ws_promise (sockets c ! i)" for i
    using assms(2) by (cases "s < length (sockets c)"; cases "i = s"; simp add: list_update_beyond)+
  have "open_src po ((sockets c)[s := f (sockets c ! s)]) = open_src po (sockets c)" for po
    by (simp add: open_src_def eq split: option.split)
  moreover have "beat_ok hb sk ((sockets c)[s := f (sockets c ! s)]) = beat_ok hb sk (sockets c)" for hb sk
    by (simp add: beat_ok_def eq)
  moreover have "socket_ok sk cl po ((sockets c)[s := f (sockets c ! s)]) = socket_ok sk cl po (sockets c)" for sk cl po
    by (simp add: socket_ok_def eq)
  ultimately show ?thesis
    using assms(1) by (simp add: sound_def upd_socket_upd owed_def)
qed

lemma sound_emitLog [simp]: "sound X (emitLog x c) = sound X c"
  by (simp add: emitLog_def)

lemma sound_ws_close: "sound X c \<Longrightarrow> sound X (ws_close s code reason c)"
  by (simp add: ws_close_def sound_upd_socket)

text \<open>
  After \<open>closeCurrentSocket\<close> nothing of the old connection is left: no current socket, no listener, no
  heartbeat and no waiter.
\<close>

definition no_connection :: "relay_client \<Rightarrow> bool" where
  "no_connection c = (socket c = None \<and> socketCleanup c = None \<and> pendingOpenReject c = None \<and>
     heartbeatTimer c = None \<and> responseWaiters c = [])"

lemma closeCurrentSocket_sound_gone:
  assumes s: "sound X c"
  shows "sound X (closeCurrentSocket code reason b c) \<and> no_connection (closeCurrentSocket code reason b c)"
proof -
  define c1 where "c1 = stopHeartbeat c"
  have c1: "sound X c1" "heartbeatTimer c1 = None" "socket c1 = socket c"
    using sound_stopHeartbeat [OF s] by (simp_all add: c1_def stopHeartbeat_upd)
  define c2 where "c2 = (case socket c of
      Some x \<Rightarrow> (if b then c1\<lparr>suppressReconnectForSocket := x # suppressReconnectForSocket c1\<rparr> else c1)
    | None \<Rightarrow> c1)"
  have c2: "sound X c2" "heartbeatTimer c2 = None" "socket c2 = socket c"
    using c1 by (auto simp: c2_def sound_def split: option.split)
  define c3 where "c3 = (case pendingOpenReject c2 of
      Some x \<Rightarrow> rejectBeforeOpen x (relay_client_error ''relay WebSocket connection was cancelled'' JUndef JUndef None) c2
    | None \<Rightarrow> (let c' = c2\<lparr>socket := None, socketCleanup := None\<rparr> in
               case socketCleanup c2 of Some x \<Rightarrow> cleanup x c' | None \<Rightarrow> c'))"
  have c3: "sound X c3 \<and> heartbeatTimer c3 = None \<and> socket c3 = None \<and> socketCleanup c3 = None \<and> pendingOpenReject c3 = None"
  proof (cases "pendingOpenReject c2")
    case (Some x)
    with c2 sound_rejectBeforeOpen rejectBeforeOpen_fields show ?thesis
      by (simp add: c3_def)
  next
    case None
    have sk: "socketCleanup c2 = socket c2"
      using c2 by (simp add: sound_def socket_ok_def)
    show ?thesis
    proof (cases "socket c2")
      case None
      with \<open>pendingOpenReject c2 = None\<close> sk have "c3 = c2\<lparr>socket := None, socketCleanup := None\<rparr>"
        by (simp add: c3_def)
      with None \<open>pendingOpenReject c2 = None\<close> sk c2(1,2) show ?thesis
        by (simp add: sound_def)
    next
      case (Some x)
      with \<open>pendingOpenReject c2 = None\<close> sk have "c3 = cleanup x (c2\<lparr>socket := None, socketCleanup := None\<rparr>)"
        by (simp add: c3_def)
      moreover have "socket_ok (Some x) (Some x) None (sockets c2)"
        using c2(1) Some sk \<open>pendingOpenReject c2 = None\<close> by (simp add: sound_def)
      ultimately show ?thesis
        using \<open>pendingOpenReject c2 = None\<close> c2(1,2) socket_ok_release(1) [of x "Some x" None "sockets c2"]
        by (simp add: sound_def cleanup_upd beat_ok_def owed_def)
    qed
  qed
  have "sound X (rejectResponseWaiters closed_message c3)" "no_connection (rejectResponseWaiters closed_message c3)"
    using c3 sound_rejectResponseWaiters by (simp_all add: no_connection_def rejectResponseWaiters_upd)
  then show ?thesis
    unfolding closeCurrentSocket_def Let_def c1_def [symmetric] c2_def [symmetric] c3_def [unfolded Let_def, symmetric]
    by (auto simp: no_connection_def ws_close_upd sound_ws_close [unfolded ws_close_upd] split: option.split)
qed

lemmas sound_closeCurrentSocket = closeCurrentSocket_sound_gone [THEN conjunct1]
lemmas closeCurrentSocket_gone = closeCurrentSocket_sound_gone [THEN conjunct2]

end
