(* ===== verification/Client_Sound.thy ===== *)
theory Client_Sound
  imports Client_Invariant
begin

text \<open>
  Preservation of the invariant by the asynchronous operations, the continuations, the timers and
  every action, and what follows for the states a client can reach.
\<close>

section \<open>Paying a promise\<close>

text \<open>
  An operation that must settle the promise \<open>r\<close> starts with \<open>r\<close> owed and ends with it paid:
  settled, or handed to a continuation.
\<close>

lemma sound_await_ret: "sound (insert r X) c \<Longrightarrow> cont_ret k = Some r \<Longrightarrow> sound X (await p k c)"
  using sound_await [of "insert r X" c k p] sound_mono [of "insert r X - {r}" _ X] by auto

lemma sound_await_any: "sound X c \<Longrightarrow> sound X (await p k c)"
  using sound_await [of X c k p] sound_mono [of "X - set_option (cont_ret k)" _ X] by auto

lemma sound_new_done: "sound X c \<Longrightarrow> v \<noteq> Pending \<Longrightarrow> sound X (snd (newPromise v c))"
  by (auto simp: sound_def newPromise_def owed_def)

lemma sound_resolve_unit: "sound (insert r X) c \<Longrightarrow> sound X (resolve_unit r c)"
  by (simp add: resolve_unit_def sound_settle)

lemma sound_emitError [simp]: "sound X (emitError code err details c) = sound X c"
  by (simp add: emitError_upd)

lemma sound_emit [simp]: "sound X (emit h ty event c) = sound X c"
  by (simp add: emit_upd)

lemma sound_fields [simp]:
  "sound X (c\<lparr>reconnectPromise := p\<rparr>) = sound X c"
  "sound X (c\<lparr>healthCheckPromise := p\<rparr>) = sound X c"
  "sound X (c\<lparr>reconnectAttempt := n\<rparr>) = sound X c"
  "sound X (c\<lparr>reconnectGeneration := n\<rparr>) = sound X c"
  "sound X (c\<lparr>healthGeneration := n\<rparr>) = sound X c"
  "sound X (c\<lparr>connectionGeneration := n\<rparr>) = sound X c"
  "sound X (c\<lparr>explicitDisconnect := b\<rparr>) = sound X c"
  "sound X (c\<lparr>argsHeap := a\<rparr>) = sound X c"
  "sound X (c\<lparr>lastConnectArgs := la\<rparr>) = sound X c"
  "sound X (c\<lparr>handlers := hs\<rparr>) = sound X c"
  "sound X (c\<lparr>now := n\<rparr>) = sound X c"
  by (simp_all add: sound_def)

section \<open>Sockets and messages\<close>

lemma socket_ok_open:
  assumes "socket_ok (Some s) cl po ss"
  shows "socket_ok (Some s) cl None (ss[s := (ss ! s)\<lparr>ws_settled := True\<rparr>])"
  using assms by (auto simp: socket_ok_def nth_list_update)

lemma sound_openHandler:
  assumes s: "sound X c"
  shows "sound X (openHandler s c)"
proof (cases "socket c \<noteq> Some s \<or> ws_settled (sockets c ! s)")
  case True
  with s show ?thesis by (simp add: openHandler_def)
next
  case False
  then have so: "socket_ok (Some s) (socketCleanup c) (Some s) (sockets c)" "pendingOpenReject c = Some s"
      "s < length (sockets c)" "heartbeatTimer c = None"
    using s by (auto simp: sound_def socket_ok_def beat_ok_def)
  let ?c2 = "(upd_socket s (\<lambda>k. k\<lparr>ws_settled := True\<rparr>) c)\<lparr>pendingOpenReject := None\<rparr>"
  let ?p = "ws_promise (sockets c ! s)"
  have "sound (insert ?p X) ?c2"
    using s so False socket_ok_open [OF so(1)]
    by (auto simp: sound_def upd_socket_upd beat_ok_def owed_def)
  then have "sound (insert ?p X) (recordRelayActivity ?c2)"
    using False so by (intro sound_recordRelayActivity) (auto simp: upd_socket_upd)
  then have "sound X (resolve_unit ?p (set_transport Connected (recordRelayActivity ?c2)))"
    by (simp add: sound_resolve_unit set_transport_def)
  then show ?thesis
    using False so(2) by (simp add: openHandler_def upd_socket_upd Let_def)
qed

lemma socket_ok_new:
  assumes "socket_ok None None None ss" and "ws_listening k" and "\<not> ws_settled k"
  shows "socket_ok (Some (length ss)) (Some (length ss)) (Some (length ss)) (ss @ [k])"
  using assms by (auto simp: socket_ok_def nth_append less_Suc_eq)

lemma sound_openSocket:
  assumes s: "sound X c"
  shows "sound X (snd (openSocket h url token c))"
proof -
  define c1 where "c1 = closeCurrentSocket None None True c"
  have c1: "sound X c1" "no_connection c1"
    using closeCurrentSocket_sound_gone [OF s] by (simp_all add: c1_def)
  have "sound X (c1\<lparr>promises := promises c1 @ [Pending],
      sockets := sockets c1 @ [\<lparr>ws_url = u, ws_readyState = n, ws_listening = True, ws_settled = False,
         ws_promise = length (promises c1)\<rparr>],
       socket := Some (length (sockets c1)), socketCleanup := Some (length (sockets c1)),
       pendingOpenReject := Some (length (sockets c1))\<rparr>)" for u n
    using c1 by (auto simp: sound_def no_connection_def beat_ok_def socket_ok_new owed_def)
  with c1(1) show ?thesis
    by (auto simp: openSocket_def c1_def [symmetric] Let_def newPromise_def sound_openHandler
        split: sum.split option.split)
qed

lemma sound_record_reply_target: "sound X c \<Longrightarrow> sound X (record_reply_target event c)"
  by (simp add: record_reply_target_def)

lemma sound_applyStateEvent: "sound X c \<Longrightarrow> sound X (applyStateEvent event c)"
  by (simp add: applyStateEvent_def Let_def)

lemma sound_messageHandler:
  assumes "sound X c" and "ws_settled (sockets c ! s)"
  shows "sound X (snd (messageHandler h s v c))"
proof (cases "socket c = Some s")
  case True
  then have "sound X (recordRelayActivity c)"
    using assms by (rule_tac sound_recordRelayActivity) auto
  with assms(1) show ?thesis
    by (auto simp: messageHandler_def handleSocketMessage_def sound_record_reply_target
        sound_applyStateEvent sound_resolveResponseWaiter split: sum.split option.split)
qed (simp add: messageHandler_def assms(1))

section \<open>Connecting\<close>

lemma sound_connectInternal:
  assumes "sound (insert r X) c"
  shows "sound X (connectInternal h channel pin options r c)"
  using assms by (auto simp: connectInternal_def Let_def newPromise_def emitLog_def await_def sound_def owed_def)

lemma sound_remember_device: "sound X c \<Longrightarrow> sound X (remember_device ch pin d c)"
  by (simp add: remember_device_def Let_def split: option.split)

lemma sound_reject: "sound (insert r X) c \<Longrightarrow> sound X (settle r (Rejected e) c)"
  by (simp add: sound_settle)

lemma sound_connect_fetched:
  assumes "sound (insert r X) c" and "res \<noteq> Pending"
  shows "sound X (connect_fetched h r g ch pin res c)"
proof (cases "\<exists>resp cr. res = Fulfilled (VFetch resp) \<and> check_connect resp = Inr cr \<and>
      g = connectionGeneration c \<and> \<not> explicitDisconnect c")
  case True
  then obtain resp cr where r: "res = Fulfilled (VFetch resp)" "check_connect resp = Inr cr"
      "g = connectionGeneration c" "\<not> explicitDisconnect c"
    by blast
  let ?c2 = "remember_device ch pin (cr_deviceId cr) (c\<lparr>client_state := connected_state cr (client_state c)\<rparr>)"
  let ?url = "if cr_wsUrl cr = [] then relayWsUrl (config c) else cr_wsUrl cr"
  obtain x c3 where o: "openSocket h ?url (cr_token cr) ?c2 = (x, c3)" by (cases "openSocket h ?url (cr_token cr) ?c2")
  have "sound (insert r X) (snd (openSocket h ?url (cr_token cr) ?c2))"
    using assms(1) by (intro sound_openSocket sound_remember_device) simp
  with o have "sound (insert r X) c3" by simp
  then show ?thesis
    using r o by (auto simp: connect_fetched_def Let_def sound_reject split: sum.split intro: sound_await_ret)
next
  case False
  with assms show ?thesis
    by (auto simp: connect_fetched_def sound_reject Let_def split: outcome.split pval.split sum.split)
qed

lemma sound_connect_opened:
  "sound (insert r X) c \<Longrightarrow> res \<noteq> Pending \<Longrightarrow> sound X (connect_opened r cr res c)"
  by (auto simp: connect_opened_def sound_settle split: outcome.split)

lemma sound_connect: "sound X c \<Longrightarrow> sound X (snd (connect h ch pin options c))"
proof -
  assume "sound X c"
  then have "sound X (closeCurrentSocket None (Some ''connection replaced'') True
     ((clearReconnectTimer (c\<lparr>reconnectGeneration := reconnectGeneration c + 1,
                                      healthGeneration := healthGeneration c + 1\<rparr>))
      \<lparr>reconnectPromise := None, healthCheckPromise := None\<rparr>))" (is "sound X ?c3")
    by (simp add: sound_closeCurrentSocket sound_clearReconnectTimer)
  then have "sound (insert (length (promises ?c3)) X) (snd (newPromise Pending ?c3))"
    by (rule sound_newPromise)
  then show ?thesis
    by (simp add: connect_def Let_def newPromise_def sound_connectInternal)
qed

lemma sound_disconnect: "sound X c \<Longrightarrow> sound X (snd (disconnect h code reason c))"
  by (auto simp: disconnect_def Let_def sound_closeCurrentSocket sound_clearReconnectTimer split: option.split)

section \<open>The reconnect loop\<close>

lemma sound_waitForReconnectDelay: "sound X c \<Longrightarrow> sound X (snd (waitForReconnectDelay ms c))"
proof -
  assume s: "sound X c"
  let ?p = "length (promises c)"
  have "sound X (snd (setTimeout (TReconnect ?p) ms (snd (newPromise Pending c))))"
    by (rule sound_mono [OF sound_setTimeout [OF sound_newPromise [OF s]]]) auto
  then show ?thesis
    by (auto simp: waitForReconnectDelay_def Let_def newPromise_def setTimeout_def sound_def delay_ok_def)
qed

lemma sound_schedule_attempt [simp]: "sound X (schedule_attempt i ms c) = sound X c"
  by (simp add: schedule_attempt_def Let_def)

lemma sound_loop_head: "sound (insert r X) c \<Longrightarrow> sound X (loop_head r a g c)"
proof -
  assume s: "sound (insert r X) c"
  then have "sound X (await p (ReconnectDelayed r a g i) (snd (waitForReconnectDelay ms (schedule_attempt j k c))))" for p i ms j k
    by (intro sound_await_ret [of r] sound_waitForReconnectDelay) simp_all
  with s show ?thesis
    by (auto simp: loop_head_def Let_def case_prod_unfold sound_resolve_unit)
qed

lemma sound_reconnect_delayed:
  assumes s: "sound (insert r X) c"
  shows "sound X (reconnect_delayed h r a g n c)"
proof -
  let ?c1 = "emitError ''reconnect_attempt'' (JStr ''reconnecting to relay'')
               ((''attempt'', js_int (int n)) # identity_details c) c"
  have "sound (insert (length (promises ?c1)) (insert r X)) (snd (newPromise Pending ?c1))"
    using s by (intro sound_newPromise) simp
  then have "sound X (await p (ReconnectConnected r a g)
      (connectInternal h ch pin opts (length (promises ?c1)) (snd (newPromise Pending ?c1))))" for p ch pin opts
    by (intro sound_await_ret [of r] sound_connectInternal) simp_all
  then show ?thesis
    using s by (auto simp: reconnect_delayed_def Let_def newPromise_def sound_resolve_unit)
qed

lemma sound_reconnect_connected:
  "sound (insert r X) c \<Longrightarrow> res \<noteq> Pending \<Longrightarrow> sound X (reconnect_connected r a g res c)"
  by (auto simp: reconnect_connected_def sound_resolve_unit sound_loop_head split: outcome.split)

lemma sound_reconnect: "sound X c \<Longrightarrow> sound X (snd (reconnect c))"
proof -
  assume s: "sound X c"
  let ?c = "c\<lparr>reconnectGeneration := reconnectGeneration c + 1\<rparr>"
  have "sound (insert (length (promises c)) X) (snd (newPromise Pending ?c))"
    using sound_newPromise [of X ?c Pending] s by simp
  then have "sound X (await p ReconnectFinally
      ((loop_head (length (promises c)) a g (snd (newPromise Pending ?c)))\<lparr>reconnectPromise := q\<rparr>))" for p a g q
    by (intro sound_await_any) (simp add: sound_loop_head)
  with s show ?thesis
    by (auto simp: reconnect_def Let_def sound_new_done newPromise_def [of Pending] split: option.split)
qed

section \<open>Listeners\<close>

lemma sound_errorHandler:
  assumes "sound X c"
  shows "sound X (errorHandler s v c)"
proof (cases "socket c = Some s \<and> \<not> ws_settled (sockets c ! s)")
  case True
  with assms have "pendingOpenReject c = Some s" by (simp add: sound_def socket_ok_def)
  with True assms show ?thesis
    by (simp add: errorHandler_def sound_ws_close sound_rejectBeforeOpen)
next
  case False
  with assms show ?thesis by (auto simp: errorHandler_def)
qed

lemma sound_closed:
  assumes s: "sound X c" and k: "socket c = Some s" "ws_settled (sockets c ! s)"
  shows "sound X (cleanup s (stopHeartbeat (c\<lparr>socket := None\<rparr>)))"
proof -
  let ?d = "stopHeartbeat c"
  have d: "sound X ?d" using s by (rule sound_stopHeartbeat)
  have so: "socketCleanup c = Some s" "pendingOpenReject c = None"
    using s k by (simp_all add: sound_def socket_ok_def) (metis not_None_eq option.inject)
  have "socket_ok (Some s) (Some s) None (sockets c)"
    using s k so by (simp add: sound_def)
  note socket_ok_release(1) [OF this] so
  moreover have "owed X (promises ?d) (timers ?d) (conts ?d) None ss" for ss
    using d so by (simp add: sound_def owed_def stopHeartbeat_upd)
  ultimately show ?thesis
    using d by (simp add: sound_def cleanup_upd stopHeartbeat_upd beat_ok_def cong: option.case_cong)
qed

lemma sound_closeHandler:
  assumes s: "sound X c"
  shows "sound X (closeHandler s v c)"
proof -
  consider "socket c \<noteq> Some s" | "socket c = Some s" "\<not> ws_settled (sockets c ! s)"
    | "socket c = Some s" "ws_settled (sockets c ! s)" by blast
  then show ?thesis
  proof cases
    case 2
    with s have "pendingOpenReject c = Some s" by (simp add: sound_def socket_ok_def)
    with 2 s show ?thesis by (simp add: closeHandler_def sound_rejectBeforeOpen Let_def)
  next
    case 3
    define c2 where "c2 = (\<lambda>st code m ds. emitError code m ds (c\<lparr>client_state := st\<rparr>))"
    have "sound X (rejectResponseWaiters closed_message (cleanup s (stopHeartbeat ((c2 st code m ds)\<lparr>socket := None\<rparr>))))"
      for st code m ds
      using s 3 by (intro sound_rejectResponseWaiters sound_closed)
        (simp_all add: c2_def emitError_upd)
    then show ?thesis
      using 3 by (simp add: closeHandler_def Let_def c2_def scheduleReconnect_def sound_reconnect)
  qed (simp add: closeHandler_def s)
qed

section \<open>The health check and the operations\<close>

lemma sound_health_reconnect:
  assumes s: "sound (insert r X) c"
  shows "sound X (health_reconnect r g c)"
proof -
  have "sound X (await p (HealthReconnected r) (snd (reconnect c)))" for p
    using sound_reconnect [OF s] by (rule sound_await_ret) simp
  with s show ?thesis
    by (auto simp: health_reconnect_def sound_resolve_unit split: prod.split)
qed

lemma sound_health_failed:
  "sound (insert r X) c \<Longrightarrow> sound X (health_failed r g e c)"
  by (auto simp: health_failed_def Let_def sound_resolve_unit sound_reject
      intro!: sound_health_reconnect sound_closeCurrentSocket)

lemma sound_start_health_check:
  assumes s: "sound (insert r X) c"
  shows "sound X (start_health_check h r c)"
proof -
  obtain x c1 where q: "requestStatus h HEARTBEAT_TIMEOUT_MS c = (x, c1)"
    by (cases "requestStatus h HEARTBEAT_TIMEOUT_MS c")
  have "sound (insert r X) c1"
    using sound_requestResponse [OF s] q by (metis requestStatus_def snd_conv)
  then show ?thesis
    using s q by (auto simp: start_health_check_def Let_def sound_health_failed sound_health_reconnect
        split: sum.split intro: sound_await_ret)
qed

lemma sound_ensureHealthy:
  assumes s: "sound X c"
  shows "sound X (snd (ensureHealthy h c))"
proof -
  have "sound X (start_health_check h (length (promises c)) (snd (newPromise Pending c)))"
    by (rule sound_start_health_check [OF sound_newPromise [OF s]])
  with s show ?thesis
    by (auto simp: ensureHealthy_def Let_def newPromise_def sound_await_any split: option.split)
qed

lemma sound_run_operation:
  assumes s: "sound X c"
  shows "sound X (snd (run_operation h rq c))"
proof -
  obtain x c1 where q: "requestResponse h (req_event rq) (req_responseType rq) (req_timeoutMs rq) (req_timeoutCode rq) c = (x, c1)"
    by (cases "requestResponse h (req_event rq) (req_responseType rq) (req_timeoutMs rq) (req_timeoutCode rq) c")
  have c1: "sound X c1"
    using sound_requestResponse [OF s] q by (metis snd_conv)
  have "sound X (await p (Validate (length (promises c1)) chk) (snd (newPromise Pending c1)))" for p chk
    by (rule sound_await_ret [OF sound_newPromise [OF c1]]) simp
  with q c1 show ?thesis
    by (auto simp: run_operation_def newPromise_def split: sum.split)
qed

lemma sound_afterHealthy:
  assumes s: "sound X c"
  shows "sound X (snd (afterHealthy h rq c))"
proof -
  obtain x c1 where e: "ensureHealthy h c = (x, c1)" by (cases "ensureHealthy h c")
  have c1: "sound X c1"
    using sound_ensureHealthy [OF s] e by (metis snd_conv)
  have w: "sound X (await p (RunOperation (length (promises c1)) rq) (snd (newPromise Pending c1)))" for p
    by (rule sound_await_ret [OF sound_newPromise [OF c1]]) simp
  obtain y c2 where o: "run_operation h rq c1 = (y, c2)" by (cases "run_operation h rq c1")
  have "sound X c2"
    using sound_run_operation [OF c1] o by (metis snd_conv)
  with e w o show ?thesis
    by (auto simp: afterHealthy_def newPromise_def [of Pending] sound_new_done split: sum.split option.split)
qed

lemma sound_run_queued:
  assumes s: "sound (insert r X) c" and "res \<noteq> Pending"
  shows "sound X (run_queued h r rq res c)"
proof -
  obtain y c1 where o: "run_operation h rq c = (y, c1)" by (cases "run_operation h rq c")
  have "sound (insert r X) c1"
    using sound_run_operation [OF s] o by (metis snd_conv)
  with assms o show ?thesis
    by (auto simp: run_queued_def sound_reject split: outcome.split sum.split intro: sound_await_ret)
qed

lemma sound_validate_response:
  "sound (insert r X) c \<Longrightarrow> res \<noteq> Pending \<Longrightarrow> sound X (validate_response r chk res c)"
  by (auto simp: validate_response_def sound_reject sound_settle split: outcome.split pval.split sum.split)

lemma sound_health_status:
  "sound (insert r X) c \<Longrightarrow> res \<noteq> Pending \<Longrightarrow> sound X (health_status r g res c)"
  by (auto simp: health_status_def sound_resolve_unit sound_health_failed split: outcome.split)

section \<open>Every action\<close>

lemma sound_run_cont:
  assumes "sound (set_option (cont_ret k) \<union> X) c" and "res \<noteq> Pending"
  shows "sound X (run_cont h p k res c)"
  using assms
  by (cases k) (auto simp: sound_connect_fetched sound_connect_opened sound_reconnect_delayed
      sound_reconnect_connected sound_health_status sound_settle sound_run_queued sound_validate_response)

lemma sound_fire:
  assumes s: "sound X c" and t: "jm_get (timers c) t = Some (d, k)"
  shows "sound X (run_timer h k (clearTimeout t c))"
proof (cases k)
  case THeartbeat
  with s t have "heartbeatTimer c = Some t" by (auto simp: sound_def heart_ok_def)
  then have "(clearTimeout t c)\<lparr>heartbeatTimer := None\<rparr> = stopHeartbeat c"
    by (simp add: stopHeartbeat_def)
  with THeartbeat s show ?thesis
    by (simp add: sound_ensureHealthy sound_stopHeartbeat)
next
  case (TReconnect p)
  have "owed (X \<union> {p}) (promises c) (jm_delete t (timers c)) (conts c) (pendingOpenReject c) (sockets c)"
    by (rule owed_delete) (use s t TReconnect in \<open>simp_all add: sound_def\<close>)
  then have "sound (insert p X) ((clearTimeout t c)\<lparr>reconnectTimer := None, reconnectTimerResolve := None\<rparr>)"
    using s t TReconnect by (simp add: sound_def clearTimeout_def delete_ok delay_ok_def)
  with TReconnect show ?thesis by (simp add: sound_resolve_unit)
next
  case (TWaiter key p ty code)
  with sound_drop_timer [OF s] t have "sound (insert p X)
      (c\<lparr>timers := jm_delete t (timers c), responseWaiters := jm_delete key (responseWaiters c)\<rparr>)"
    by simp
  with TWaiter show ?thesis
    by (simp add: waiter_timeout_def clearTimeout_def sound_reject)
qed

lemma cont_src_remove:
  assumes "i < length ks"
  shows "cont_src ks = cont_src [ks ! i] \<union> cont_src (take i ks @ drop (Suc i) ks)"
  by (subst id_take_nth_drop [OF assms]) (auto simp: cont_src_Cons [of "ks ! i" "drop (Suc i) ks"])

lemma sound_resume:
  assumes s: "sound X c" and i: "i < length (conts c)" "conts c ! i = (p, k)" and p: "promise_of c p \<noteq> Pending"
  shows "sound (set_option (cont_ret k) \<union> X) (c\<lparr>conts := take i (conts c) @ drop (Suc i) (conts c)\<rparr>)"
  using s cont_src_remove [OF i(1)] not_pending_promise_of [OF p] i(2)
  by (auto simp: sound_def owed_def split: if_splits)

lemma sound_run_call: "sound X c \<Longrightarrow> sound X (run_call h a c)"
proof (cases a)
  case (Reply k m t)
  assume "sound X c"
  with Reply show ?thesis
    by (auto simp: reply_def sound_afterHealthy sound_new_done split: option.split)
qed (simp_all add: sound_connect sound_disconnect sound_afterHealthy
    sound_sendEvent sound_requestResponse send_def ask_def approve_def deny_def
    list_members_def status_def on_def off_def Let_def split: option.split)

lemma sound_uncaught: "sound X (snd r) \<Longrightarrow> sound X (uncaught r)"
  by (simp add: uncaught_def split: option.split)

lemma sound_act: "sound X c \<Longrightarrow> act h a c = Some d \<Longrightarrow> sound X d"
proof (cases a)
  case (FetchDone p res)
  assume "sound X c" "act h a c = Some d"
  with FetchDone show ?thesis
    by (auto intro!: sound_settle intro: sound_mono split: if_splits sum.splits)
next
  case (Resume i)
  assume "sound X c" "act h a c = Some d"
  with Resume show ?thesis
    by (auto intro!: sound_run_cont sound_resume split: if_splits prod.splits)
next
  case (Fire t)
  assume "sound X c" "act h a c = Some d"
  with Fire show ?thesis
    by (auto intro!: sound_fire split: if_splits option.splits)
qed (auto simp: sound_run_call sound_openHandler sound_closeHandler sound_errorHandler sound_upd_socket
    intro!: sound_uncaught sound_messageHandler split: if_splits)

interpretation client_sound: client_invariant h "sound {}" for h
  by unfold_locales (rule sound_act, assumption+, rule sound_new_client)

lemmas reachable_sound = client_sound.reachable_inv

end
