(* ===== verification/Client_Effects.thy ===== *)
theory Client_Effects
  imports Client_Sound
begin

text \<open>
  What the client writes: every operation appends to the log and to the continuations, writes
  well-formed frames of bounded size, and writes the frame of a call at most once.
\<close>

section \<open>Frames\<close>

fun frame_ok :: "effect \<Rightarrow> bool" where
  "frame_ok (OSend s event txt) =
     (txt = json_stringify event \<and> length txt \<le> MAX_FRAME \<and> get event ''id'' \<noteq> JUndef \<and> get event ''id'' \<noteq> JNull)"
| "frame_ok _ = True"

text \<open>
  What identifies the frame of a call besides the fresh id: its type, its recipient, the event it
  replies to and its payload.
\<close>

type_synonym frame_key = "jsval \<times> jsval \<times> jsval \<times> jsval"

definition frame_key :: "jsval \<Rightarrow> frame_key" where
  "frame_key event = (get event ''type'', get event ''to'', get event ''replyTo'', get event ''payload'')"

fun sends_key :: "frame_key \<Rightarrow> effect \<Rightarrow> bool" where
  "sends_key k (OSend s event txt) = (frame_key event = k)"
| "sends_key k _ = False"

fun queues_key :: "frame_key \<Rightarrow> nat \<times> cont \<Rightarrow> bool" where
  "queues_key k (p, RunOperation r rq) = (frame_key (req_event rq) = k)"
| "queues_key k _ = False"

text \<open>The frames with a key that are written or queued behind a health check.\<close>

definition frames_of :: "frame_key \<Rightarrow> relay_client \<Rightarrow> nat" where
  "frames_of k c = length (filter (sends_key k) (log c)) + length (filter (queues_key k) (conts c))"

text \<open>
  \<open>emits k n c d\<close>: from \<open>c\<close> to \<open>d\<close> the log and the continuations grow, every frame
  written is well formed, and at most \<open>n\<close> frames with key \<open>k\<close> are written or queued.
\<close>

definition emits :: "frame_key \<Rightarrow> nat \<Rightarrow> relay_client \<Rightarrow> relay_client \<Rightarrow> bool" where
  "emits k n c d = (\<exists>es ks. log d = log c @ es \<and> conts d = conts c @ ks \<and> list_all frame_ok es \<and>
     length (filter (sends_key k) es) + length (filter (queues_key k) ks) \<le> n)"

lemma emits_same: "log d = log c \<Longrightarrow> conts d = conts c \<Longrightarrow> emits k n c d"
  by (auto simp: emits_def intro!: exI [of _ "[]"])

lemma emits_refl [simp]: "emits k n c c"
  by (simp add: emits_same)

lemma emits_trans: "emits k m c d \<Longrightarrow> emits k n d e \<Longrightarrow> emits k (m + n) c e"
  unfolding emits_def by (elim exE conjE) (rule exI, rule exI, auto)

lemma emits_then [trans]: "emits k 0 c d \<Longrightarrow> emits k n d e \<Longrightarrow> emits k n c e"
  using emits_trans [of k 0 c d n e] by simp

lemma then_emits [trans]: "emits k n c d \<Longrightarrow> emits k 0 d e \<Longrightarrow> emits k n c e"
  using emits_trans [of k n c d 0 e] by simp

lemma emits_le: "emits k m c d \<Longrightarrow> m \<le> n \<Longrightarrow> emits k n c d"
  unfolding emits_def by force

lemma emits_amount: "emits k n c d \<Longrightarrow> frames_of k d \<le> frames_of k c + n"
  by (auto simp: emits_def frames_of_def)

section \<open>Operations that write no frame\<close>

definition no_frame :: "effect \<Rightarrow> bool" where
  "no_frame e = (case e of OSend _ _ _ \<Rightarrow> False | _ \<Rightarrow> True)"

lemma no_frame_simps [simp]:
  "no_frame (OFetch u b f)" "no_frame (ONewSocket s u)" "no_frame (OClose s c r)" "no_frame (ODispatch i e)"
  "no_frame (OUncaught e)" "\<not> no_frame (OSend s e t)"
  by (simp_all add: no_frame_def)

lemma no_frame_ok: "no_frame e \<Longrightarrow> frame_ok e \<and> \<not> sends_key k e"
  by (cases e) auto

lemma emits_quiet:
  assumes "log d = log c @ es" "conts d = conts c" "list_all no_frame es"
  shows "emits k n c d"
proof -
  have "filter (sends_key k) es = []" "list_all frame_ok es"
    using assms(3) no_frame_ok by (auto simp: filter_empty_conv list_all_iff)
  with assms show ?thesis by (auto simp: emits_def)
qed

lemma emits_emitLog: "no_frame e \<Longrightarrow> emits k n c (emitLog e c)"
  by (rule emits_quiet [of _ _ "[e]"]) (simp_all add: emitLog_def)

lemma emits_emitError: "emits k n c (emitError code err ds c)"
  by (rule emits_quiet) (auto simp: emitError_upd list_all_iff)

lemma emits_emit: "emits k n c (emit h ty event c)"
  by (rule emits_quiet) (auto simp: emit_upd list_all_iff handler_effects_def split: option.splits if_splits)

lemma emits_await: "\<not> queues_key k (p, x) \<Longrightarrow> emits k n c (await p x c)"
  by (auto simp: emits_def await_def)

lemma emits_await_op: "emits k (if frame_key (req_event rq) = k then 1 else 0) c (await p (RunOperation r rq) c)"
  by (auto simp: emits_def await_def)

lemma same_simps [step_simps]:
  "log (settle p v c) = log c" "conts (settle p v c) = conts c"
  "log (snd (newPromise v c)) = log c" "conts (snd (newPromise v c)) = conts c"
  "log (resolve_unit p c) = log c" "conts (resolve_unit p c) = conts c"
  "log (recordRelayActivity c) = log c" "conts (recordRelayActivity c) = conts c"
  "log (clearReconnectTimer c) = log c" "conts (clearReconnectTimer c) = conts c"
  "log (stopHeartbeat c) = log c" "conts (stopHeartbeat c) = conts c"
  "log (rejectResponseWaiters m c) = log c" "conts (rejectResponseWaiters m c) = conts c"
  "log (cleanup s c) = log c" "conts (cleanup s c) = conts c"
  "log (upd_socket s f c) = log c" "conts (upd_socket s f c) = conts c"
  "log (rejectBeforeOpen s e c) = log c" "conts (rejectBeforeOpen s e c) = conts c"
  "log (waiter_timeout q p ty code c) = log c" "conts (waiter_timeout q p ty code c) = conts c"
  by (simp_all add: settle_def newPromise_def resolve_unit_def upd upd_socket_def rejectBeforeOpen_def Let_def)

lemma same_simps2 [step_simps]:
  "log (resolveResponseWaiter event c) = log c" "conts (resolveResponseWaiter event c) = conts c"
  "log (applyStateEvent event c) = log c" "conts (applyStateEvent event c) = conts c"
  "log (record_reply_target event c) = log c" "conts (record_reply_target event c) = conts c"
  "log (openHandler s c) = log c" "conts (openHandler s c) = conts c"
  "log (set_transport t c) = log c" "conts (set_transport t c) = conts c"
  "log (remember_device a b d c) = log c" "conts (remember_device a b d c) = conts c"
  "log (snd (waitForReconnectDelay ms c)) = log c" "conts (snd (waitForReconnectDelay ms c)) = conts c"
  by (simp_all add: resolveResponseWaiter_def drop_waiter_def resolve_waiter_def clearTimeout_def step_simps
      applyStateEvent_def record_reply_target_def openHandler_def set_transport_def remember_device_def
      waitForReconnectDelay_def newPromise_def setTimeout_def Let_def split: option.split)

lemma closeCurrentSocket_log [step_simps]:
  "log (closeCurrentSocket code reason b c) =
     log c @ (case socket c of None \<Rightarrow> [] | Some s \<Rightarrow> [OClose s code reason])"
  "conts (closeCurrentSocket code reason b c) = conts c"
  by (auto simp: closeCurrentSocket_def Let_def ws_close_def emitLog_def step_simps split: option.split)

lemma emits_closeCurrentSocket: "emits k n c (closeCurrentSocket code reason b c)"
  by (rule emits_quiet) (auto simp: step_simps split: option.split)

lemma emits_openSocket: "emits k n c (snd (openSocket h url token c))"
proof -
  let ?c1 = "closeCurrentSocket None None True c"
  have "emits k n ?c1 (snd (openSocket h url token c))"
    by (rule emits_quiet [of _ _ "case socketURLWithToken h url token of Inl _ \<Rightarrow> [] | Inr u \<Rightarrow>
           (case ws_constructor h u of Some _ \<Rightarrow> [] | None \<Rightarrow> [ONewSocket (length (sockets ?c1)) u])"])
      (auto simp: openSocket_def Let_def newPromise_def emitLog_def step_simps split: option.split sum.split)
  with emits_closeCurrentSocket show ?thesis by (rule emits_then)
qed

section \<open>Chains of operations\<close>

text \<open>
  The same facts as introduction rules: an operation that writes nothing keeps what was written up
  to it. Updates of other fields do not matter.
\<close>

lemma emits_fields [simp]:
  "emits k n c (d\<lparr>reconnectPromise := p\<rparr>) = emits k n c d"
  "emits k n c (d\<lparr>healthCheckPromise := p\<rparr>) = emits k n c d"
  "emits k n c (d\<lparr>reconnectAttempt := i\<rparr>) = emits k n c d"
  "emits k n c (d\<lparr>reconnectGeneration := i\<rparr>) = emits k n c d"
  "emits k n c (d\<lparr>healthGeneration := i\<rparr>) = emits k n c d"
  "emits k n c (d\<lparr>connectionGeneration := i\<rparr>) = emits k n c d"
  "emits k n c (d\<lparr>explicitDisconnect := b\<rparr>) = emits k n c d"
  "emits k n c (d\<lparr>argsHeap := ah\<rparr>) = emits k n c d"
  "emits k n c (d\<lparr>lastConnectArgs := la\<rparr>) = emits k n c d"
  "emits k n c (d\<lparr>handlers := hs\<rparr>) = emits k n c d"
  "emits k n c (d\<lparr>now := i\<rparr>) = emits k n c d"
  "emits k n c (d\<lparr>promises := ps\<rparr>) = emits k n c d"
  "emits k n c (d\<lparr>client_state := st\<rparr>) = emits k n c d"
  "emits k n c (d\<lparr>socket := sk\<rparr>) = emits k n c d"
  "emits k n c (d\<lparr>responseWaiters := rw\<rparr>) = emits k n c d"
  "emits k n c (d\<lparr>timers := ts\<rparr>) = emits k n c d"
  "emits k n c (d\<lparr>nextTimer := i\<rparr>) = emits k n c d"
  "emits k n c (d\<lparr>heartbeatTimer := ht\<rparr>) = emits k n c d"
  "emits k n c (d\<lparr>reconnectTimer := rt\<rparr>) = emits k n c d"
  "emits k n c (d\<lparr>reconnectTimerResolve := rr\<rparr>) = emits k n c d"
  "emits k n c (d\<lparr>idCount := i\<rparr>) = emits k n c d"
  by (simp_all add: emits_def)

lemma emits_chain [simp]:
  "emits k n c (settle p v d) = emits k n c d"
  "emits k n c (resolve_unit p d) = emits k n c d"
  "emits k n c (snd (newPromise v d)) = emits k n c d"
  "emits k n c (recordRelayActivity d) = emits k n c d"
  "emits k n c (clearReconnectTimer d) = emits k n c d"
  "emits k n c (stopHeartbeat d) = emits k n c d"
  "emits k n c (rejectResponseWaiters m d) = emits k n c d"
  "emits k n c (cleanup s d) = emits k n c d"
  "emits k n c (upd_socket s f d) = emits k n c d"
  "emits k n c (rejectBeforeOpen s e d) = emits k n c d"
  "emits k n c (waiter_timeout q p ty code d) = emits k n c d"
  "emits k n c (resolveResponseWaiter event d) = emits k n c d"
  "emits k n c (applyStateEvent event d) = emits k n c d"
  "emits k n c (record_reply_target event d) = emits k n c d"
  "emits k n c (openHandler s d) = emits k n c d"
  "emits k n c (set_transport t d) = emits k n c d"
  "emits k n c (remember_device a b dv d) = emits k n c d"
  "emits k n c (snd (waitForReconnectDelay ms d)) = emits k n c d"
  by (simp_all add: emits_def step_simps)

lemma chain_emits:
  "emits k n c d \<Longrightarrow> no_frame e \<Longrightarrow> emits k n c (emitLog e d)"
  "emits k n c d \<Longrightarrow> emits k n c (emitError code err ds d)"
  "emits k n c d \<Longrightarrow> emits k n c (emit h ty event d)"
  "emits k n c d \<Longrightarrow> emits k n c (closeCurrentSocket cd reason b d)"
  "emits k n c d \<Longrightarrow> \<not> queues_key k (p, x) \<Longrightarrow> emits k n c (await p x d)"
proof -
  assume d: "emits k n c d"
  note step = then_emits [OF d]
  show "emits k n c (emitLog e d)" if "no_frame e" by (rule step [OF emits_emitLog [OF that]])
  show "emits k n c (emitError code err ds d)" by (rule step [OF emits_emitError])
  show "emits k n c (emit h ty event d)" by (rule step [OF emits_emit])
  show "emits k n c (closeCurrentSocket cd reason b d)" by (rule step [OF emits_closeCurrentSocket])
  show "emits k n c (await p x d)" if "\<not> queues_key k (p, x)" by (rule step [OF emits_await [OF that]])
qed

lemma emits_messageHandler: "emits k n c (snd (messageHandler h s v c))"
  by (auto simp: messageHandler_def handleSocketMessage_def intro!: chain_emits split: sum.split option.split)

section \<open>Connecting and the reconnect loop\<close>

lemma emits_connectInternal: "emits k n c d \<Longrightarrow> emits k n c (connectInternal h ch pin options r d)"
  by (auto simp: connectInternal_def Let_def newPromise_def intro!: chain_emits)

lemma connect_fetched_cases:
  obtains (reject) e where "connect_fetched h r g ch pin res c = settle r (Rejected e) c"
  | (pending) "res = Pending" "connect_fetched h r g ch pin res c = c"
  | (opened) resp cr c2 x c3 where "res = Fulfilled (VFetch resp)" "check_connect resp = Inr cr"
      "g = connectionGeneration c" "\<not> explicitDisconnect c"
      "c2 = remember_device ch pin (cr_deviceId cr) (c\<lparr>client_state := connected_state cr (client_state c)\<rparr>)"
      "openSocket h (if cr_wsUrl cr = [] then relayWsUrl (config c) else cr_wsUrl cr) (cr_token cr) c2 = (x, c3)"
      "connect_fetched h r g ch pin res c =
         (case x of Inl e \<Rightarrow> settle r (Rejected e) c3 | Inr p \<Rightarrow> await p (ConnectOpened r cr) c3)"
proof -
  have "(\<exists>e. connect_fetched h r g ch pin res c = settle r (Rejected e) c) \<or>
      res = Pending \<and> connect_fetched h r g ch pin res c = c \<or>
      (\<exists>resp cr. res = Fulfilled (VFetch resp) \<and> check_connect resp = Inr cr \<and>
         g = connectionGeneration c \<and> \<not> explicitDisconnect c)"
    by (cases res) (auto simp: connect_fetched_def split: pval.split sum.split)
  moreover have thesis if r: "res = Fulfilled (VFetch resp)" "check_connect resp = Inr cr"
         "g = connectionGeneration c" "\<not> explicitDisconnect c" for resp cr
  proof -
    let ?c2 = "remember_device ch pin (cr_deviceId cr) (c\<lparr>client_state := connected_state cr (client_state c)\<rparr>)"
    obtain x c3 where "openSocket h (if cr_wsUrl cr = [] then relayWsUrl (config c) else cr_wsUrl cr) (cr_token cr) ?c2 = (x, c3)"
      by fastforce
    with r show thesis
      by (intro opened [OF r refl]) (auto simp: connect_fetched_def Let_def split: sum.split)
  qed
  ultimately show thesis using reject pending by blast
qed

lemma emits_connect_fetched: "emits k n c (connect_fetched h r g ch pin res c)"
proof (cases rule: connect_fetched_cases [of h r g ch pin res c])
  case (opened resp cr c2 x c3)
  have "emits k n c c2" by (simp add: opened(5))
  then have "emits k n c c3"
    using emits_openSocket [of k 0 c2 h] opened(6) by (metis snd_conv then_emits)
  then show ?thesis
    by (auto simp: opened(7) intro!: chain_emits split: sum.split)
qed simp_all

lemma emits_connect: "emits k n c (snd (connect h ch pin options c))"
  by (auto simp: connect_def Let_def newPromise_def intro!: emits_connectInternal chain_emits)

lemma emits_disconnect: "emits k n c (snd (disconnect h code reason c))"
  by (auto simp: disconnect_def Let_def intro!: chain_emits split: option.split)

lemma emits_loop_head: "emits k n c d \<Longrightarrow> emits k n c (loop_head r a g d)"
proof -
  assume d: "emits k n c d"
  then have "emits k n c (schedule_attempt i ms d)" for i ms
    by (simp add: schedule_attempt_def Let_def chain_emits)
  with d show ?thesis
    by (auto simp: loop_head_def Let_def case_prod_unfold intro!: chain_emits)
qed

lemma emits_reconnect_delayed: "emits k n c (reconnect_delayed h r a g i c)"
  by (auto simp: reconnect_delayed_def Let_def newPromise_def intro!: emits_connectInternal chain_emits)

lemma emits_reconnect_connected: "emits k n c (reconnect_connected r a g res c)"
  by (auto simp: reconnect_connected_def intro!: emits_loop_head chain_emits split: outcome.split)

lemma emits_reconnect: "emits k n c d \<Longrightarrow> emits k n c (snd (reconnect d))"
  by (auto simp: reconnect_def Let_def newPromise_def intro!: emits_loop_head chain_emits split: option.split)

lemma emits_errorHandler: "emits k n c (errorHandler s v c)"
  by (auto simp: errorHandler_def ws_close_def intro!: chain_emits)

lemma emits_closeHandler: "emits k n c (closeHandler s v c)"
  by (auto simp: closeHandler_def Let_def scheduleReconnect_def intro!: emits_reconnect chain_emits)

section \<open>Operations that write frames\<close>

definition one_if :: "bool \<Rightarrow> nat" where
  "one_if b = (if b then 1 else 0)"

lemma frame_key_outbound: "frame_key (js_spread event [(''id'', i), (''channelId'', ch)]) = frame_key event"
  by (simp add: frame_key_def js_spread_def get_props)

text \<open>A write is of the event with an id and a channel; nothing else of the event changes.\<close>

lemma sendEvent_written:
  assumes "fst (sendEvent h event c) = Inr out"
  shows "\<exists>t. log (snd (sendEvent h event c)) = log c @ [OSend t out (json_stringify out)]"
    and "frame_key out = frame_key event" and "\<And>t. frame_ok (OSend t out (json_stringify out))"
proof -
  obtain s i ch where o: "socket c = Some s" "out = js_spread event [(''id'', i), (''channelId'', ch)]"
      "i \<noteq> JUndef" "i \<noteq> JNull" "length (json_stringify out) \<le> MAX_FRAME"
      "log (snd (sendEvent h event c)) = log c @ [OSend s out (json_stringify out)]"
    using assms by (fastforce simp: sendEvent_def Let_def emitLog_def split: option.splits if_splits)
  then show "\<exists>t. log (snd (sendEvent h event c)) = log c @ [OSend t out (json_stringify out)]"
    and "frame_key out = frame_key event" and "frame_ok (OSend t out (json_stringify out))" for t
    by (simp_all add: frame_key_outbound) (simp_all add: js_spread_def)
qed

lemma sendEvent_unwritten: "fst (sendEvent h event c) = Inl e \<Longrightarrow> log (snd (sendEvent h event c)) = log c"
  by (auto simp: sendEvent_def Let_def split: option.splits if_splits)

lemma sendEvent_conts: "conts (snd (sendEvent h event c)) = conts c"
  by (simp add: sendEvent_def Let_def emitLog_def split: option.splits)

lemma emits_sendEvent: "emits k (one_if (frame_key event = k)) c (snd (sendEvent h event c))"
proof (cases "fst (sendEvent h event c)")
  case (Inl e)
  with sendEvent_unwritten sendEvent_conts show ?thesis by (intro emits_same)
next
  case (Inr out)
  from sendEvent_written [OF this] show ?thesis
    by (auto simp: emits_def sendEvent_conts one_if_def)
qed

lemma emits_requestResponse: "emits k (one_if (frame_key event = k)) c (snd (requestResponse h event ty ms code c))"
proof -
  obtain x d where q: "sendEvent h event c = (x, d)" by (cases "sendEvent h event c")
  have "emits k (one_if (frame_key event = k)) c d"
    using emits_sendEvent [of k event c h] q by simp
  with q show ?thesis
    by (simp add: requestResponse_def newPromise_def setTimeout_def Let_def split: sum.split)
qed

text \<open>The health check writes status requests only.\<close>

definition probe_key :: frame_key where
  "probe_key = frame_key (JObj [(''type'', JStr (wire StatusRequest))])"

lemma emits_requestStatus: "k \<noteq> probe_key \<Longrightarrow> emits k 0 c (snd (requestStatus h ms c))"
  using emits_requestResponse [of k "JObj [(''type'', JStr (wire StatusRequest))]" c]
  by (simp add: requestStatus_def probe_key_def one_if_def)

lemma emits_health_reconnect: "emits k n c d \<Longrightarrow> emits k n c (health_reconnect r g d)"
proof -
  assume a: "emits k n c d"
  have "reconnect d = (p, e) \<Longrightarrow> emits k n c e" for p e
    using emits_reconnect [OF a] by (metis snd_conv)
  with a show ?thesis
    by (auto simp: health_reconnect_def intro!: chain_emits split: prod.split)
qed

lemma emits_health_failed: "emits k n c d \<Longrightarrow> emits k n c (health_failed r g e d)"
  by (auto simp: health_failed_def Let_def intro!: emits_health_reconnect chain_emits)

lemma emits_start_health_check:
  assumes "k \<noteq> probe_key" and a: "emits k n c d"
  shows "emits k n c (start_health_check h r d)"
proof -
  have "requestStatus h HEARTBEAT_TIMEOUT_MS d = (x, e) \<Longrightarrow> emits k n c e" for x e
    using then_emits [OF a emits_requestStatus [OF assms(1)]] by (metis snd_conv)
  with a show ?thesis
    by (auto simp: start_health_check_def Let_def intro!: emits_health_reconnect emits_health_failed chain_emits
        split: prod.split sum.split)
qed

lemma emits_ensureHealthy:
  "k \<noteq> probe_key \<Longrightarrow> emits k n c (snd (ensureHealthy h c))"
  by (auto simp: ensureHealthy_def Let_def newPromise_def intro!: emits_start_health_check chain_emits split: option.split)

lemma emits_run_operation:
  "emits k (one_if (frame_key (req_event rq) = k)) c (snd (run_operation h rq c))"
proof -
  have "requestResponse h (req_event rq) ty ms code c = (x, d) \<Longrightarrow>
      emits k (one_if (frame_key (req_event rq) = k)) c d" for x d ty ms code
    using emits_requestResponse [of k "req_event rq" c h ty ms code] by simp
  then show ?thesis
    by (auto simp: run_operation_def newPromise_def intro!: chain_emits split: prod.split sum.split)
qed

lemma emits_afterHealthy:
  assumes "k \<noteq> probe_key"
  shows "emits k (one_if (frame_key (req_event rq) = k)) c (snd (afterHealthy h rq c))"
proof -
  obtain x d where e: "ensureHealthy h c = (x, d)" by (cases "ensureHealthy h c")
  have d: "emits k 0 c d"
    using emits_ensureHealthy [OF assms, of 0 c h] e by simp
  obtain y f where o: "run_operation h rq d = (y, f)" by (cases "run_operation h rq d")
  have "emits k (one_if (frame_key (req_event rq) = k)) c f"
    using emits_then [OF d emits_run_operation [of k rq d h]] o by simp
  moreover have "emits k (one_if (frame_key (req_event rq) = k)) c
      (await p (RunOperation r rq) (snd (newPromise Pending d)))" for p r
    using emits_then [of k c "snd (newPromise Pending d)"] d emits_await_op [of k rq "snd (newPromise Pending d)" p r]
    by (simp add: one_if_def)
  ultimately show ?thesis
    using e o by (auto simp: afterHealthy_def newPromise_def [of Pending] split: option.split sum.split)
qed

lemma emits_run_queued:
  "emits k (one_if (frame_key (req_event rq) = k)) c (run_queued h r rq res c)"
proof -
  have "run_operation h rq c = (x, d) \<Longrightarrow> emits k (one_if (frame_key (req_event rq) = k)) c d" for x d
    using emits_run_operation [of k rq c h] by simp
  then show ?thesis
    by (auto simp: run_queued_def intro!: chain_emits split: outcome.split prod.split sum.split)
qed

section \<open>Every action\<close>

lemma emits_run_cont:
  assumes "k \<noteq> probe_key"
  shows "emits k (one_if (queues_key k (p, x))) c (run_cont h p x res c)"
  by (cases x) (auto simp: connect_opened_def validate_response_def health_status_def
      intro!: emits_connect_fetched emits_reconnect_delayed emits_reconnect_connected emits_health_failed
        emits_run_queued split: outcome.split pval.split sum.split)

lemma emits_run_timer: "k \<noteq> probe_key \<Longrightarrow> emits k n c (run_timer h x c)"
proof (cases x)
  case THeartbeat
  assume "k \<noteq> probe_key"
  then have "emits k n (c\<lparr>heartbeatTimer := None\<rparr>) (run_timer h x c)"
    by (simp add: THeartbeat emits_ensureHealthy)
  then show ?thesis by (rule emits_then [OF emits_same, rotated 2]) simp_all
qed simp_all

text \<open>The frames a call may write: one with the call's own type, recipient and payload.\<close>

fun writes :: "frame_key \<Rightarrow> call \<Rightarrow> bool" where
  "writes k (Send to m t) = (frame_key (message_event MessageSend (JStr to) [] m ''send'') = k)"
| "writes k (Ask to m t) = (frame_key (message_event MessageAsk (JStr to) [] m ''ask'') = k)"
| "writes k (Reply q m t) = (\<exists>to. frame_key (message_event MessageReply to [(''replyTo'', JStr q)] m ''reply'') = k)"
| "writes k (Approve j t) = (frame_key (req_event (decision_request JoinApprove j ''approved'' t)) = k)"
| "writes k (Deny j t) = (frame_key (req_event (decision_request JoinDeny j ''denied'' t)) = k)"
| "writes k (ListMembers t) = (frame_key (req_event (plain_request ListRequest ListResponse t)) = k)"
| "writes k (SendEvent event) = (frame_key event = k)"
| "writes k (RequestResponse event ty t code) = (frame_key event = k)"
| "writes k _ = False"

fun worth :: "frame_key \<Rightarrow> action \<Rightarrow> nat" where
  "worth k (Call a) = one_if (writes k a)"
| "worth k _ = 0"

lemma emits_run_call:
  assumes "k \<noteq> probe_key"
  shows "emits k (one_if (writes k a)) c (run_call h a c)"
proof -
  have op: "emits k n c (snd (afterHealthy h rq c))" if "one_if (frame_key (req_event rq) = k) \<le> n" for rq n
    using emits_afterHealthy [OF assms] that by (rule emits_le)
  show ?thesis
  proof (cases a)
    case (Reply q m t)
    have "emits k (one_if (writes k a)) c (snd (afterHealthy h (message_request
            (message_event MessageReply to [(''replyTo'', JStr q)] m ''reply'') t) c))" for to
      by (rule op) (auto simp: Reply message_request_def one_if_def)
    then show ?thesis by (simp add: Reply reply_def split: option.split)
  next
    case (Status t)
    with assms show ?thesis
      by (simp add: status_def plain_request_def op one_if_def probe_key_def)
  next
    case (RequestResponse event ty t code)
    then show ?thesis
      using emits_requestResponse [of k event c h ty t code] by simp
  next
    case (SendEvent event)
    then show ?thesis
      using emits_sendEvent [of k event c h] by simp
  qed (auto simp: emits_connect emits_disconnect send_def ask_def approve_def deny_def list_members_def
      on_def off_def Let_def message_request_def decision_request_def intro!: op split: option.split)
qed

lemma frames_of_resume:
  assumes "i < length (conts c)" and "conts c ! i = (p, x)"
  shows "frames_of k (c\<lparr>conts := take i (conts c) @ drop (Suc i) (conts c)\<rparr>) + one_if (queues_key k (p, x)) = frames_of k c"
  using arg_cong [OF id_take_nth_drop [OF assms(1)], of "\<lambda>ks. length (filter (queues_key k) ks)"] assms(2)
  by (simp add: frames_of_def one_if_def)

text \<open>Every action but a continuation's is one chain from its state.\<close>

lemma act_emits:
  assumes "k \<noteq> probe_key" and "act h a c = Some d"
  obtains (run) "emits k (worth k a) c d"
  | (resume) i p x e where "a = Resume i" "i < length (conts c)" "conts c ! i = (p, x)"
      "e = c\<lparr>conts := take i (conts c) @ drop (Suc i) (conts c)\<rparr>"
      "emits k (one_if (queues_key k (p, x))) e d"
proof (cases a)
  case (Resume i)
  with assms show thesis
    by (auto intro!: resume emits_run_cont split: if_splits prod.splits)
next
  case (Fire t)
  have "emits k 0 c (run_timer h x (clearTimeout t c))" for x
    using emits_then [OF emits_same emits_run_timer [OF assms(1)], of "clearTimeout t c" c]
    by (simp add: clearTimeout_def)
  with Fire assms show thesis
    by (auto intro!: run split: if_splits option.splits)
qed (use assms in \<open>auto simp: uncaught_def emits_errorHandler emits_closeHandler emits_run_call
    emits_messageHandler chain_emits intro!: run split: if_splits option.splits\<close>)

lemma act_bound:
  assumes "k \<noteq> probe_key" and "act h a c = Some d"
  shows "frames_of k d \<le> frames_of k c + worth k a"
  using assms
proof (cases rule: act_emits)
  case run
  then show ?thesis by (rule emits_amount)
next
  case (resume i p x e)
  with emits_amount [OF resume(5)] frames_of_resume [OF resume(2,3), of k] show ?thesis
    by simp
qed

lemma act_frames:
  assumes "act h a c = Some d" and "list_all frame_ok (log c)"
  shows "list_all frame_ok (log d)"
proof -
  have "(JNull, JNull, JNull, JNull) \<noteq> probe_key" by (simp add: probe_key_def frame_key_def)
  from this assms(1) show ?thesis
    using assms(2) by (cases rule: act_emits) (auto simp: emits_def)
qed

text \<open>
  The probes of the health check are the only frames not bound to a call; \<open>0\<close> bounds their
  key trivially, so that the bound holds for every key.
\<close>

definition amount :: "frame_key \<Rightarrow> relay_client \<Rightarrow> nat" where
  "amount k c = (if k = probe_key then 0 else frames_of k c)"

interpretation client_frames: bounded_system "act h" "amount k" "worth k" for h k
  by unfold_locales (auto simp: amount_def act_bound)

interpretation client_logs: client_invariant h "\<lambda>c. list_all frame_ok (log c)" for h
  by unfold_locales (rule act_frames, assumption+, simp add: new_client_def)

lemma frames_bound:
  assumes "run_actions (act h) as (new_client cfg delay t) = Some c" and "k \<noteq> probe_key"
  shows "length (filter (sends_key k) (log c)) \<le> sum_list (map (worth k) as)"
  using client_frames.run_bound [OF assms(1), of k] assms(2)
  by (simp add: amount_def frames_of_def new_client_def)

end
