(* ===== verification/Client_Rest.thy ===== *)
theory Client_Rest
  imports Client_Sound Client_Effects
begin

text \<open>
  The client comes to rest. Between two events from outside, only continuations run; here is the measure
  that bounds how many, although the reconnect loop and the operations behind a health check keep adding
  continuations. The loop can go round only through the promise of its delay, which no continuation
  settles.
\<close>

section \<open>Promises of delays\<close>

definition delays :: "(nat \<times> cont) list \<Rightarrow> nat set" where
  "delays ks = {p. \<exists>r a g n. (p, ReconnectDelayed r a g n) \<in> set ks}"

definition rets :: "(nat \<times> cont) list \<Rightarrow> nat set" where
  "rets ks = {p. \<exists>q k. (q, k) \<in> set ks \<and> cont_ret k = Some p}"

lemma delays_simps [simp]: "delays [] = {}" "delays (ks @ ls) = delays ks \<union> delays ls"
    "delays [(p, k)] = (case k of ReconnectDelayed _ _ _ _ \<Rightarrow> {p} | _ \<Rightarrow> {})"
  by (auto simp: delays_def split: cont.split)

lemma rets_simps [simp]: "rets [] = {}" "rets (ks @ ls) = rets ks \<union> rets ls" "rets [(p, k)] = set_option (cont_ret k)"
  by (auto simp: rets_def)

text \<open>The promises that the client itself settles while it runs continuations.\<close>

definition payees :: "relay_client \<Rightarrow> nat set" where
  "payees c = rets (conts c) \<union> set (map ws_promise (sockets c)) \<union> (\<lambda>(k, w). w_promise w) ` set (responseWaiters c)"

definition apart :: "nat set \<Rightarrow> relay_client \<Rightarrow> bool" where
  "apart R c = (delays (conts c) \<inter> (payees c \<union> R) = {} \<and> delays (conts c) \<union> payees c \<union> R \<subseteq> {..<length (promises c)} \<and>
     (\<forall>s. pendingOpenReject c = Some s \<longrightarrow> s < length (sockets c)))"

lemma apart_mono: "apart R c \<Longrightarrow> S \<subseteq> R \<Longrightarrow> apart S c"
  by (auto simp: apart_def)

lemma apart_new_client: "apart {} (new_client cfg delay t)"
  by (simp add: apart_def payees_def new_client_def)

section \<open>Weights\<close>

fun wt :: "relay_client \<Rightarrow> nat \<times> cont \<Rightarrow> nat" where
  "wt c (p, ReconnectDelayed r a g n) = (if promise_of c p = Pending then 0 else 4)"
| "wt c (p, RunOperation r rq) = 3"
| "wt c (p, HealthStatus r g) = 3"
| "wt c (p, ConnectFetched r g ch pin) = 2"
| "wt c (p, k) = 1"

definition weight :: "relay_client \<Rightarrow> (nat \<times> cont) list \<Rightarrow> nat" where
  "weight c ks = sum_list (map (wt c) ks)"

lemma weight_simps [simp]: "weight c [] = 0" "weight c (x # ks) = wt c x + weight c ks"
    "weight c (ks @ ls) = weight c ks + weight c ls"
  by (simp_all add: weight_def)

lemma wt_le: "wt c x \<le> 4"
  by (induction c x rule: wt.induct) simp_all

lemma weight_le: "weight c ks \<le> 4 * length ks"
proof (induction ks)
  case (Cons x ks)
  then show ?case using wt_le [of c x] by simp
qed simp

lemma weight_cong: "(\<And>q. q \<in> delays ks \<Longrightarrow> promise_of d q = promise_of c q) \<Longrightarrow> weight d ks = weight c ks"
proof (induction ks)
  case (Cons x ks)
  obtain p k where x: "x = (p, k)" by fastforce
  have "delays (x # ks) = delays [x] \<union> delays ks" using delays_simps(2) [of "[x]" ks] by simp
  with Cons have "weight d ks = weight c ks" "wt d x = wt c x" by (simp_all add: x split: cont.splits)
  then show ?case by simp
qed simp

section \<open>Moves\<close>

text \<open>
  \<open>moves R n S c d\<close>: from \<open>c\<close>, where the promises in \<open>R\<close> are still to be settled, the client gets to
  \<open>d\<close>, where those in \<open>S\<close> are, adds continuations of weight at most \<open>n\<close> and settles no delay.
\<close>

definition moves :: "nat set \<Rightarrow> nat \<Rightarrow> nat set \<Rightarrow> relay_client \<Rightarrow> relay_client \<Rightarrow> bool" where
  "moves R n S c d = (apart R c \<longrightarrow> apart S d \<and> (\<exists>ks. conts d = conts c @ ks \<and> weight d ks \<le> n) \<and>
     (\<forall>q \<in> delays (conts c). promise_of d q = promise_of c q))"

lemma moves_apart: "moves R n S c d \<Longrightarrow> apart R c \<Longrightarrow> apart S d"
  by (simp add: moves_def)

lemma moves_trans:
  assumes "moves R m S c d" and "moves S n T d e"
  shows "moves R (m + n) T c e"
proof -
  have "\<exists>ks. conts e = conts c @ ks \<and> weight e ks \<le> m + n"
    if ks: "conts d = conts c @ ks" "weight d ks \<le> m" and ls: "conts e = conts d @ ls" "weight e ls \<le> n"
      and q: "\<forall>q \<in> delays (conts d). promise_of e q = promise_of d q" for ks ls
  proof -
    have "weight e ks = weight d ks" using q ks(1) by (intro weight_cong) simp
    with ks ls show ?thesis by (intro exI [of _ "ks @ ls"]) simp
  qed
  with assms show ?thesis by (fastforce simp: moves_def)
qed

lemma moves_mono: "moves R m S c d \<Longrightarrow> m \<le> n \<Longrightarrow> T \<subseteq> S \<Longrightarrow> moves R n T c d"
  by (auto simp: moves_def intro: apart_mono)

lemma moves_then: "moves R m S c d \<Longrightarrow> moves S n T d e \<Longrightarrow> m + n \<le> k \<Longrightarrow> moves R k T c e"
  by (blast intro: moves_mono moves_trans)

lemma moves_seq: "moves R 0 S c d \<Longrightarrow> moves S n T d e \<Longrightarrow> moves R n T c e"
  by (auto dest: moves_trans)

lemma moves_sub: "T \<subseteq> S \<Longrightarrow> moves S n T c c"
  by (auto simp: moves_def intro: apart_mono)

text \<open>An operation that adds no continuation and settles payees only.\<close>

lemma apart_update:
  assumes "apart R c" and "conts d = conts c" and "length (promises d) = length (promises c)"
    and "map ws_promise (sockets d) = map ws_promise (sockets c)"
    and "set (responseWaiters d) \<subseteq> set (responseWaiters c)"
    and "pendingOpenReject d = None \<or> pendingOpenReject d = pendingOpenReject c"
  shows "apart R d"
proof -
  have "payees d \<subseteq> payees c" using assms(2,4,5) by (auto simp: payees_def simp del: set_map)
  moreover have "length (sockets d) = length (sockets c)" using assms(4) by (metis length_map)
  moreover have "delays (conts c) \<inter> (payees c \<union> R) = {}" "delays (conts c) \<union> payees c \<union> R \<subseteq> {..<length (promises c)}"
      "\<forall>s. pendingOpenReject c = Some s \<longrightarrow> s < length (sockets c)"
    using assms(1) unfolding apart_def by blast+
  ultimately have "delays (conts d) \<inter> (payees d \<union> R) = {}" "delays (conts d) \<union> payees d \<union> R \<subseteq> {..<length (promises d)}"
      "\<forall>s. pendingOpenReject d = Some s \<longrightarrow> s < length (sockets d)"
    unfolding assms(2,3) using assms(6) by (blast, blast, auto)
  then show ?thesis unfolding apart_def by blast
qed

lemma moves_update:
  assumes "conts d = conts c" and "length (promises d) = length (promises c)"
    and "map ws_promise (sockets d) = map ws_promise (sockets c)"
    and "set (responseWaiters d) \<subseteq> set (responseWaiters c)"
    and "pendingOpenReject d = None \<or> pendingOpenReject d = pendingOpenReject c"
    and "\<And>q. apart R c \<Longrightarrow> q \<notin> payees c \<union> R \<Longrightarrow> promise_of d q = promise_of c q"
  shows "moves R n R c d"
  unfolding moves_def
proof (intro impI conjI ballI)
  assume a: "apart R c"
  then show "apart R d" by (rule apart_update [OF _ assms(1-5)])
  show "\<exists>ks. conts d = conts c @ ks \<and> weight d ks \<le> n" by (rule exI [of _ "[]"]) (simp add: assms(1))
  fix q
  assume "q \<in> delays (conts c)"
  with a have "q \<notin> payees c \<union> R" by (auto simp: apart_def)
  with a show "promise_of d q = promise_of c q" by (rule assms(6))
qed

lemma moves_settle: "p \<in> R \<Longrightarrow> moves R n R c (settle p v c)"
  by (rule moves_update) (auto simp: settle_def promise_of_settle [unfolded settle_def])

lemma moves_resolve: "p \<in> R \<Longrightarrow> moves R n R c (resolve_unit p c)"
  by (simp add: resolve_unit_def moves_settle)

lemma moves_new: "moves R n (insert (length (promises c)) R) c (snd (newPromise v c))"
  by (auto simp: moves_def apart_def payees_def newPromise_def promise_of_def nth_append)

lemma moves_await:
  assumes "\<And>r a g n. k \<noteq> ReconnectDelayed r a g n" and "set_option (cont_ret k) \<subseteq> R" and "wt c (p, k) \<le> n"
  shows "moves R n R c (await p k c)"
proof -
  have "wt (await p k c) (p, k) = wt c (p, k)" "delays [(p, k)] = {}" using assms(1) by (cases k; simp)+
  then show ?thesis
    using assms(2,3) by (auto simp: moves_def apart_def payees_def await_def promise_of_def)
qed

lemma moves_same:
  assumes "conts d = conts e" and "promises d = promises e" and "sockets d = sockets e"
    and "responseWaiters d = responseWaiters e" and "pendingOpenReject d = pendingOpenReject e"
  shows "moves R n S c d = moves R n S c e" and "moves R n S d f = moves R n S e f" and "apart R d = apart R e"
proof -
  have p: "promise_of d = promise_of e" using assms(2) by (intro ext) (simp add: promise_of_def)
  then have "wt d x = wt e x" for x by (induction e x rule: wt.induct) simp_all
  then have "wt d = wt e" by (rule ext)
  then have w: "weight d = weight e" by (intro ext) (simp add: weight_def)
  show a: "apart R d = apart R e" for R using assms by (simp add: apart_def payees_def)
  then show "moves R n S c d = moves R n S c e" and "moves R n S d f = moves R n S e f"
    using assms p w by (simp_all add: moves_def)
qed

lemma moves_fields [simp]:
  "moves R n S c (d\<lparr>log := l\<rparr>) = moves R n S c d"
  "moves R n S c (d\<lparr>client_state := st\<rparr>) = moves R n S c d"
  "moves R n S c (d\<lparr>reconnectPromise := p\<rparr>) = moves R n S c d"
  "moves R n S c (d\<lparr>healthCheckPromise := p\<rparr>) = moves R n S c d"
  "moves R n S c (d\<lparr>reconnectAttempt := a\<rparr>) = moves R n S c d"
  "moves R n S c (d\<lparr>argsHeap := h\<rparr>) = moves R n S c d"
  "moves R n S (c\<lparr>log := l\<rparr>) d = moves R n S c d"
  "moves R n S (c\<lparr>client_state := st\<rparr>) d = moves R n S c d"
  "moves R n S (c\<lparr>reconnectAttempt := a\<rparr>) d = moves R n S c d"
  "moves R n S (c\<lparr>reconnectGeneration := a\<rparr>) d = moves R n S c d"
  "moves R n S (c\<lparr>argsHeap := h\<rparr>) d = moves R n S c d"
  by (rule moves_same; simp)+

lemma apart_fields [simp]:
  "apart R (d\<lparr>log := l\<rparr>) = apart R d"
  "apart R (d\<lparr>client_state := st\<rparr>) = apart R d"
  "apart R (d\<lparr>reconnectPromise := p\<rparr>) = apart R d"
  "apart R (d\<lparr>healthCheckPromise := p\<rparr>) = apart R d"
  "apart R (d\<lparr>handlers := hs\<rparr>) = apart R d"
  "apart R (d\<lparr>replyTargets := ts\<rparr>) = apart R d"
  "apart R (d\<lparr>now := t\<rparr>) = apart R d"
  "apart R (d\<lparr>socket := k\<rparr>) = apart R d"
  "apart R (d\<lparr>explicitDisconnect := b\<rparr>) = apart R d"
  "apart R (d\<lparr>connectionGeneration := i\<rparr>) = apart R d"
  "apart R (d\<lparr>reconnectGeneration := i\<rparr>) = apart R d"
  "apart R (d\<lparr>healthGeneration := i\<rparr>) = apart R d"
  "apart R (d\<lparr>heartbeatTimer := x\<rparr>) = apart R d"
  "apart R (d\<lparr>reconnectTimer := x\<rparr>) = apart R d"
  "apart R (d\<lparr>reconnectTimerResolve := x\<rparr>) = apart R d"
  by (rule moves_same; simp)+

lemma moves_emitError [simp]:
  "moves R n S c (emitError code err ds d) = moves R n S c d"
  "moves R n S (emitError code err ds c) d = moves R n S c d"
  by (simp_all add: emitError_upd)

section \<open>The operations\<close>

lemma fold_settled:
  "length (fold (\<lambda>(k, w). settled (w_promise w) (f k w)) ws ps) = length ps"
  "q \<notin> (\<lambda>(k, w). w_promise w) ` set ws \<Longrightarrow> fold (\<lambda>(k, w). settled (w_promise w) (f k w)) ws ps ! q = ps ! q"
  by (induction ws arbitrary: ps) (auto simp: settled_def nth_list_update split: if_splits)

lemma moves_rejectResponseWaiters: "moves R n R c (rejectResponseWaiters m c)"
  by (rule moves_update) (auto simp: rejectResponseWaiters_upd fold_settled promise_of_def payees_def)

lemma map_upd [simp]: "(i < length xs \<Longrightarrow> f y = f (xs ! i)) \<Longrightarrow> map f (xs[i := y]) = map f xs"
  by (cases "i < length xs") (simp_all add: map_update list_update_same_conv list_update_beyond)

lemma moves_rejectBeforeOpen:
  assumes "pendingOpenReject c = Some s"
  shows "moves R n R c (rejectBeforeOpen s e c)"
proof (cases "ws_settled (sockets c ! s)")
  case True
  then show ?thesis by (simp add: rejectBeforeOpen_def moves_sub)
next
  case False
  let ?d = "rejectBeforeOpen s e c"
  have "apart R c \<Longrightarrow> ws_promise (sockets c ! s) \<in> payees c"
    using assms by (auto simp: apart_def payees_def)
  with False assms show ?thesis
    by (intro moves_update) (auto simp: rejectBeforeOpen_def upd_socket_def cleanup_upd settle_def Let_def
        promise_of_settle [unfolded settle_def] promise_of_def settled_def nth_list_update)
qed

lemma moves_closeCurrentSocket: "moves R n R c (closeCurrentSocket code reason b c)"
proof -
  define c2 where "c2 = (case socket c of
      Some x \<Rightarrow> (if b then (stopHeartbeat c)\<lparr>suppressReconnectForSocket := x # suppressReconnectForSocket (stopHeartbeat c)\<rparr> else stopHeartbeat c)
    | None \<Rightarrow> stopHeartbeat c)"
  define c3 where "c3 = (case pendingOpenReject c2 of
      Some x \<Rightarrow> rejectBeforeOpen x (relay_client_error ''relay WebSocket connection was cancelled'' JUndef JUndef None) c2
    | None \<Rightarrow> (let c' = c2\<lparr>socket := None, socketCleanup := None\<rparr> in
               case socketCleanup c2 of Some x \<Rightarrow> cleanup x c' | None \<Rightarrow> c'))"
  have c2: "moves R 0 R c c2"
    by (rule moves_update) (auto simp: c2_def stopHeartbeat_upd promise_of_def split: option.split)
  have c3: "moves R 0 R c2 c3"
  proof (cases "pendingOpenReject c2")
    case None
    then show ?thesis
      by (intro moves_update) (auto simp: c3_def cleanup_upd promise_of_def Let_def split: option.split)
  qed (simp add: c3_def moves_rejectBeforeOpen)
  have "moves R n R d (case socket c of Some x \<Rightarrow> ws_close x code reason d | None \<Rightarrow> d)" for d
    by (rule moves_update) (auto simp: ws_close_upd promise_of_def split: option.split)
  with c2 c3 have "moves R n R c (case socket c of
      Some x \<Rightarrow> ws_close x code reason (rejectResponseWaiters closed_message c3) | None \<Rightarrow> rejectResponseWaiters closed_message c3)"
    by (blast intro: moves_seq moves_rejectResponseWaiters)
  then show ?thesis unfolding closeCurrentSocket_def c3_def c2_def Let_def .
qed

lemma moves_openHandler:
  assumes "s < length (sockets c)"
  shows "moves R n R c (openHandler s c)"
proof -
  have "ws_promise (sockets c ! s) \<in> payees c" using assms by (simp add: payees_def)
  then show ?thesis
    by (intro moves_update) (auto simp: openHandler_def upd_socket_def set_transport_def recordRelayActivity_upd
        resolve_unit_def settle_def Let_def promise_of_def settled_def nth_list_update)
qed

lemma moves_new_socket:
  assumes "conts d = conts c" and "promises d = promises c @ [Pending]" and "sockets d = sockets c @ [k]"
    and "responseWaiters d = responseWaiters c" and "pendingOpenReject d = Some (length (sockets c))"
    and "ws_promise k = length (promises c)"
  shows "moves R n R c d"
  using assms by (auto simp: moves_def apart_def payees_def promise_of_def nth_append)

lemma moves_openSocket: "moves R n R c (snd (openSocket h url token c))"
proof -
  define c1 where "c1 = closeCurrentSocket None None True c"
  have c1: "moves R 0 R c c1" by (simp add: c1_def moves_closeCurrentSocket)
  have new: "moves R 0 R c1 (emitLog (ONewSocket (length (sockets c1)) u) (c1\<lparr>promises := promises c1 @ [Pending],
      sockets := sockets c1 @ [\<lparr>ws_url = u, ws_readyState = i, ws_listening = True, ws_settled = False,
         ws_promise = length (promises c1)\<rparr>],
      socket := Some (length (sockets c1)), socketCleanup := Some (length (sockets c1)),
      pendingOpenReject := Some (length (sockets c1))\<rparr>))" (is "moves R 0 R c1 (?c3 u i)") for u i
    by (rule moves_new_socket) (simp add: emitLog_def)+
  moreover have "moves R 0 R (?c3 u i) (openHandler (length (sockets c1)) (?c3 u i))" for u i
    by (rule moves_openHandler) (simp add: emitLog_def)
  ultimately have "moves R 0 R c (?c3 u i)" "moves R 0 R c (openHandler (length (sockets c1)) (?c3 u i))" for u i
    using c1 by (blast intro: moves_seq)+
  then have "moves R 0 R c (snd (openSocket h url token c))"
    using c1 by (auto simp: openSocket_def c1_def [symmetric] Let_def newPromise_def split: sum.split option.split)
  then show ?thesis by (rule moves_mono) simp_all
qed

lemma moves_remember_device: "moves R n R c (remember_device ch pin d c)"
  by (rule moves_update) (auto simp: remember_device_def Let_def promise_of_def split: option.split)

lemma moves_sendEvent: "moves R n R c (snd (sendEvent h event c))"
  by (rule moves_update) (auto simp: sendEvent_def emitLog_def Let_def promise_of_def split: option.splits if_splits)

lemma moves_new_waiter:
  assumes "conts d = conts c" and "promises d = promises c @ [Pending]" and "sockets d = sockets c"
    and "responseWaiters d = jm_set k w (responseWaiters c)" and "pendingOpenReject d = pendingOpenReject c"
    and "w_promise w = length (promises c)"
  shows "moves R n R c d"
proof -
  have "(\<lambda>(k, w). w_promise w) ` set (jm_set k w m) \<subseteq> insert (w_promise w) ((\<lambda>(k, w). w_promise w) ` set m)" for m
    using set_jm_set_subset [of k w m] by auto
  then have "payees d \<subseteq> insert (length (promises c)) (payees c)"
    using assms by (fastforce simp: payees_def)
  with assms(1,2,3,5) have "apart R c \<Longrightarrow> apart R d"
    unfolding apart_def by (auto simp: subset_iff disjoint_iff)
  with assms(1,2) show ?thesis by (auto simp: moves_def apart_def promise_of_def nth_append)
qed

lemma moves_requestResponse: "moves R n R c (snd (requestResponse h event ty ms code c))"
proof -
  obtain x c1 where x: "sendEvent h event c = (x, c1)" by fastforce
  then have "moves R 0 R c c1" using moves_sendEvent [of R 0 c h event] by simp
  moreover have "moves R n R c1 (snd (requestResponse h event ty ms code c))"
    by (auto simp: requestResponse_def x newPromise_def setTimeout_def Let_def moves_sub
        split: sum.split intro!: moves_new_waiter)
  ultimately show ?thesis by (rule moves_seq)
qed

section \<open>The asynchronous operations\<close>

lemma moves_connectInternal: "r \<in> R \<Longrightarrow> moves R 2 R c (connectInternal h ch pin opts r c)"
  by (auto simp: connectInternal_def moves_def apart_def payees_def newPromise_def emitLog_def await_def Let_def
      promise_of_def nth_append)

lemma moves_delay:
  assumes "r \<in> R" and "conts d = conts c @ [(length (promises c), ReconnectDelayed r a g i)]"
    and "promises d = promises c @ [Pending]" and "sockets d = sockets c"
    and "responseWaiters d = responseWaiters c" and "pendingOpenReject d = pendingOpenReject c"
  shows "moves R n R c d"
  using assms by (auto simp: moves_def apart_def payees_def promise_of_def nth_append)

lemma moves_loop_head: "r \<in> R \<Longrightarrow> moves R n R c (loop_head r a g c)"
  by (auto simp: loop_head_def schedule_attempt_def waitForReconnectDelay_def emitError_upd setTimeout_def
      newPromise_def await_def Let_def intro: moves_resolve moves_delay)

lemma moves_reconnect_delayed:
  assumes "r \<in> R"
  shows "moves R 3 R c (reconnect_delayed h r a g n c)"
proof -
  let ?p = "length (promises c)"
  have "moves R 3 R c (await ?p (ReconnectConnected r a g)
      (connectInternal h ch pin opts ?p (snd (newPromise Pending (c\<lparr>log := l\<rparr>)))))" for l ch pin opts
  proof -
    have "moves (insert ?p R) 2 (insert ?p R) (snd (newPromise Pending (c\<lparr>log := l\<rparr>)))
        (connectInternal h ch pin opts ?p (snd (newPromise Pending (c\<lparr>log := l\<rparr>))))" (is "moves _ _ _ ?d ?e")
      by (rule moves_connectInternal) simp
    moreover have "moves R 0 (insert ?p R) c ?d" using moves_new [of R 0 "c\<lparr>log := l\<rparr>"] by simp
    moreover have "moves (insert ?p R) 1 (insert ?p R) ?e (await ?p (ReconnectConnected r a g) ?e)"
      using assms by (intro moves_await) auto
    ultimately have "moves R (2 + 1) (insert ?p R) c (await ?p (ReconnectConnected r a g) ?e)"
      by (blast intro: moves_seq moves_trans)
    then show ?thesis by (rule moves_mono) auto
  qed
  then show ?thesis
    using assms by (auto simp: reconnect_delayed_def Let_def emitError_upd moves_resolve fst_newPromise case_prod_unfold newPromise_def)
qed

lemma moves_reconnect_connected:
  "r \<in> R \<Longrightarrow> moves R n R c (reconnect_connected r a g res c)"
  using moves_loop_head [of r R n "c\<lparr>log := l\<rparr>" for l] moves_resolve [of r R n "c\<lparr>log := l\<rparr>" for l]
  by (auto simp: reconnect_connected_def emitError_upd moves_resolve moves_sub split: outcome.split)

lemma moves_reconnect: "moves R 1 R c (snd (reconnect c))"
proof -
  let ?p = "length (promises c)"
  have new: "moves R 0 (insert ?p R) c (snd (newPromise v (c\<lparr>reconnectGeneration := g\<rparr>)))" for v g
    using moves_new [of R 0 "c\<lparr>reconnectGeneration := g\<rparr>" v] by simp
  have "moves (insert ?p R) 0 (insert ?p R) d (loop_head ?p a g d)" for a g d
    by (rule moves_loop_head) simp
  moreover have "moves (insert ?p R) 1 (insert ?p R) d (await ?p ReconnectFinally (d\<lparr>reconnectPromise := x\<rparr>))" for d x
    using moves_await [of ReconnectFinally "insert ?p R" "d\<lparr>reconnectPromise := x\<rparr>" ?p 1]
      moves_same(2) [of "d\<lparr>reconnectPromise := x\<rparr>" d] by simp
  ultimately have "moves R 1 (insert ?p R) c (await ?p ReconnectFinally
      ((loop_head ?p a g' (snd (newPromise Pending (c\<lparr>reconnectGeneration := g\<rparr>))))\<lparr>reconnectPromise := x\<rparr>))" for a g g' x
    using new by (blast intro: moves_seq)
  then have "moves R 1 R c (await ?p ReconnectFinally
      ((loop_head ?p a g' (snd (newPromise Pending (c\<lparr>reconnectGeneration := g\<rparr>))))\<lparr>reconnectPromise := x\<rparr>))" for a g g' x
    by (rule moves_mono) auto
  moreover have "moves R 1 R c (snd (newPromise v c))" for v
    using moves_new [of R 1 c v] by (rule moves_mono) auto
  ultimately show ?thesis
    by (auto simp: reconnect_def newPromise_def [of Pending] moves_sub Let_def split: option.split)
qed

lemma moves_health_reconnect: "r \<in> R \<Longrightarrow> moves R 2 R c (health_reconnect r g c)"
proof -
  assume r: "r \<in> R"
  have "moves R 1 R d (await p (HealthReconnected r) d)" for d p using r by (intro moves_await) auto
  then have "moves R (1 + 1) R c (await p (HealthReconnected r) (snd (reconnect c)))" for p
    using moves_reconnect by (blast intro: moves_trans)
  with r show ?thesis by (simp add: health_reconnect_def moves_resolve case_prod_unfold Let_def numeral_2_eq_2)
qed

lemma moves_health_failed: "r \<in> R \<Longrightarrow> moves R 2 R c (health_failed r g e c)"
proof -
  assume r: "r \<in> R"
  have "moves R 2 R c (health_reconnect r g (closeCurrentSocket code reason b d))" if "\<And>S. moves S 0 S c d" for code reason b d
    by (rule moves_seq [OF that moves_seq [OF moves_closeCurrentSocket moves_health_reconnect [OF r]]])
  then have "moves R 2 R c (health_reconnect r g (closeCurrentSocket code reason b (emitError x y z (c\<lparr>client_state := st\<rparr>))))"
    for code reason b x y z st
    by (simp add: moves_sub)
  with r show ?thesis by (auto simp: health_failed_def moves_resolve moves_settle Let_def)
qed

lemma moves_connect_fetched:
  assumes r: "r \<in> R"
  shows "moves R 1 R c (connect_fetched h r g ch pin res c)"
proof (cases "\<exists>resp cr. res = Fulfilled (VFetch resp) \<and> check_connect resp = Inr cr \<and> g = connectionGeneration c \<and> \<not> explicitDisconnect c")
  case True
  then obtain resp cr where rc: "res = Fulfilled (VFetch resp)" "check_connect resp = Inr cr"
      "g = connectionGeneration c" "\<not> explicitDisconnect c" by blast
  let ?c2 = "remember_device ch pin (cr_deviceId cr) (c\<lparr>client_state := connected_state cr (client_state c)\<rparr>)"
  let ?url = "if cr_wsUrl cr = [] then relayWsUrl (config c) else cr_wsUrl cr"
  obtain x c3 where o: "openSocket h ?url (cr_token cr) ?c2 = (x, c3)" by fastforce
  have "moves R 0 R c ?c2"
    using moves_remember_device [of R 0 "c\<lparr>client_state := connected_state cr (client_state c)\<rparr>"] by simp
  moreover have "moves R 0 R ?c2 c3" using moves_openSocket [of R 0 ?c2 h ?url "cr_token cr"] o by simp
  moreover have "moves R 1 R c3 (case x of Inl e \<Rightarrow> settle r (Rejected e) c3 | Inr p \<Rightarrow> await p (ConnectOpened r cr) c3)"
    using r by (auto intro: moves_await moves_settle split: sum.split)
  ultimately have "moves R 1 R c (case x of Inl e \<Rightarrow> settle r (Rejected e) c3 | Inr p \<Rightarrow> await p (ConnectOpened r cr) c3)"
    by (blast intro: moves_seq)
  moreover have "connect_fetched h r g ch pin res c =
      (case x of Inl e \<Rightarrow> settle r (Rejected e) c3 | Inr p \<Rightarrow> await p (ConnectOpened r cr) c3)"
    using rc o by (simp add: connect_fetched_def Let_def split: sum.split)
  ultimately show ?thesis by simp
next
  case False
  with r show ?thesis
    by (auto simp: connect_fetched_def moves_settle moves_sub Let_def split: outcome.split pval.split sum.split)
qed

lemma moves_run_operation: "moves R 1 R c (snd (run_operation h rq c))"
proof -
  obtain x c1 where x: "requestResponse h (req_event rq) (req_responseType rq) (req_timeoutMs rq) (req_timeoutCode rq) c = (x, c1)"
    by fastforce
  have c1: "moves R 0 R c c1"
    using moves_requestResponse [of R 0 c h "req_event rq" "req_responseType rq" "req_timeoutMs rq" "req_timeoutCode rq"] x by simp
  let ?q = "length (promises c1)"
  have "moves (insert ?q R) 1 (insert ?q R) (snd (newPromise Pending c1)) (await p (Validate ?q chk) (snd (newPromise Pending c1)))" for p chk
    by (rule moves_await) auto
  then have "moves R 1 (insert ?q R) c (await p (Validate ?q chk) (snd (newPromise Pending c1)))" for p chk
    by (blast intro: moves_seq c1 moves_new)
  then have "moves R 1 R c (await p (Validate ?q chk) (snd (newPromise Pending c1)))" for p chk
    by (rule moves_mono) auto
  then show ?thesis
    using x moves_mono [OF c1, of 1 R] by (auto simp: run_operation_def newPromise_def split: sum.split)
qed

lemma moves_run_queued:
  assumes r: "r \<in> R"
  shows "moves R 2 R c (run_queued h r rq res c)"
proof -
  obtain x c1 where x: "run_operation h rq c = (x, c1)" by fastforce
  have "moves R 1 R c c1" using moves_run_operation [of R c h rq] x by simp
  moreover have "moves R 1 R c1 (case x of Inl e \<Rightarrow> settle r (Rejected e) c1 | Inr q \<Rightarrow> await q (Adopt r) c1)"
    using r by (auto intro: moves_await moves_settle split: sum.split)
  ultimately have "moves R (1 + 1) R c (case x of Inl e \<Rightarrow> settle r (Rejected e) c1 | Inr q \<Rightarrow> await q (Adopt r) c1)"
    by (rule moves_trans)
  with x r show ?thesis by (auto simp: run_queued_def moves_settle moves_sub numeral_2_eq_2 split: outcome.split sum.split)
qed

text \<open>Every continuation adds less than it weighs.\<close>

lemma moves_connect_opened: "r \<in> R \<Longrightarrow> moves R n R c (connect_opened r cr res c)"
  using moves_settle [of r R n "c\<lparr>reconnectAttempt := 0\<rparr>"]
  by (auto simp: connect_opened_def moves_settle moves_sub split: outcome.split)

lemma moves_run_cont:
  assumes "promise_of d p \<noteq> Pending"
  shows "moves (set_option (cont_ret k)) (wt d (p, k) - 1) (set_option (cont_ret k)) c (run_cont h p k res c)"
  using assms
  by (cases k) (simp_all add: moves_connect_fetched [unfolded One_nat_def] moves_connect_opened moves_reconnect_delayed
      moves_reconnect_connected moves_run_queued moves_settle moves_sub health_status_def validate_response_def
      moves_resolve moves_health_failed split: outcome.split pval.split sum.split)

section \<open>Every action keeps the delays apart\<close>

lemma apart_quiet:
  "apart R (settle p v c) = apart R c" "apart R (resolve_unit p c) = apart R c" "apart R (clearReconnectTimer c) = apart R c"
  "apart R (stopHeartbeat c) = apart R c" "apart R (recordRelayActivity c) = apart R c" "apart R (clearTimeout t c) = apart R c"
  "apart R (record_reply_target e c) = apart R c" "apart R (applyStateEvent e c) = apart R c" "apart R (emit h ty e c) = apart R c"
  "apart R (emitError code err ds c) = apart R c"
  by (simp_all add: apart_def payees_def settle_def resolve_unit_def upd clearTimeout_def record_reply_target_def
      applyStateEvent_def Let_def split: option.split)

lemma apart_cleanup: "apart R c \<Longrightarrow> apart R (cleanup s c)"
  by (erule apart_update) (simp_all add: cleanup_upd)

lemma apart_upd_socket: "apart R c \<Longrightarrow> (\<And>k. ws_promise (f k) = ws_promise k) \<Longrightarrow> apart R (upd_socket s f c)"
  by (erule apart_update) (simp_all add: upd_socket_def)

lemma apart_ws_close: "apart R c \<Longrightarrow> apart R (ws_close s code reason c)"
  by (erule apart_update) (simp_all add: ws_close_upd)

lemma apart_rejectBeforeOpen: "apart R c \<Longrightarrow> apart R (rejectBeforeOpen s e c)"
  by (erule apart_update) (auto simp: rejectBeforeOpen_def upd_socket_def cleanup_upd settle_def Let_def)

lemma apart_resolveResponseWaiter: "apart R c \<Longrightarrow> apart R (resolveResponseWaiter e c)"
  by (erule apart_update) (auto simp: resolveResponseWaiter_def resolve_waiter_def drop_waiter_def clearTimeout_def
      settle_def Let_def set_jm_delete split: option.split)

lemma apart_waiter_timeout: "apart R c \<Longrightarrow> apart R (waiter_timeout k p ty code c)"
  by (erule apart_update) (auto simp: waiter_timeout_upd set_jm_delete)

lemma apart_messageHandler: "apart R c \<Longrightarrow> apart R (snd (messageHandler h s v c))"
  by (auto simp: messageHandler_def handleSocketMessage_def apart_quiet apart_resolveResponseWaiter
      split: sum.split option.split)

lemma apart_reconnect: "apart R c \<Longrightarrow> apart R (snd (reconnect c))"
  by (rule moves_apart [OF moves_reconnect])

lemma apart_rejectResponseWaiters: "apart R c \<Longrightarrow> apart R (rejectResponseWaiters m c)"
  by (rule moves_apart [OF moves_rejectResponseWaiters])

lemma apart_closeHandler: "apart R c \<Longrightarrow> apart R (closeHandler s v c)"
  by (auto simp: closeHandler_def scheduleReconnect_def emitError_upd Let_def apart_quiet
      intro!: apart_reconnect apart_rejectResponseWaiters apart_cleanup apart_rejectBeforeOpen)

lemma apart_errorHandler: "apart R c \<Longrightarrow> apart R (errorHandler s v c)"
  by (auto simp: errorHandler_def apart_quiet intro: apart_ws_close apart_rejectBeforeOpen)

lemma moves_start_health_check:
  assumes r: "r \<in> R"
  shows "moves R 3 R c (start_health_check h r c)"
proof -
  obtain x c1 where x: "requestStatus h HEARTBEAT_TIMEOUT_MS c = (x, c1)" by fastforce
  then have "moves R 0 R c c1"
    by (metis moves_requestResponse requestStatus_def snd_conv)
  moreover have "moves R 3 R c1 (case x of Inr p \<Rightarrow> await p (HealthStatus r g) c1 | Inl e \<Rightarrow> health_failed r g e c1)" for g
    using r moves_mono [OF moves_health_failed [OF r], of 3 R] by (auto intro: moves_await split: sum.split)
  ultimately have "moves R 3 R c (case x of Inr p \<Rightarrow> await p (HealthStatus r g) c1 | Inl e \<Rightarrow> health_failed r g e c1)" for g
    by (rule moves_seq)
  with x r show ?thesis
    using moves_mono [OF moves_health_reconnect [OF r], of 3 R]
    by (auto simp: start_health_check_def Let_def split: sum.splits)
qed

lemma apart_ensureHealthy: "apart R c \<Longrightarrow> apart R (snd (ensureHealthy h c))"
proof -
  assume a: "apart R c"
  let ?r = "length (promises c)"
  have "apart (insert ?r R) (snd (newPromise Pending c))" using a by (rule moves_apart [OF moves_new])
  then have "apart (insert ?r R) (start_health_check h ?r (snd (newPromise Pending c)))"
    by (rule moves_apart [OF moves_start_health_check, rotated]) simp
  then have "apart (insert ?r R) ((start_health_check h ?r (snd (newPromise Pending c)))\<lparr>healthCheckPromise := Some ?r\<rparr>)"
    by simp
  then have "apart (insert ?r R) (await ?r HealthFinally ((start_health_check h ?r (snd (newPromise Pending c)))\<lparr>healthCheckPromise := Some ?r\<rparr>))"
    by (rule moves_apart [OF moves_await, rotated 3]) auto
  then have "apart R (await ?r HealthFinally ((start_health_check h ?r (snd (newPromise Pending c)))\<lparr>healthCheckPromise := Some ?r\<rparr>))"
    by (rule apart_mono) auto
  with a show ?thesis
    by (auto simp: ensureHealthy_def newPromise_def Let_def split: option.split)
qed

lemma apart_afterHealthy: "apart R c \<Longrightarrow> apart R (snd (afterHealthy h rq c))"
proof -
  assume a: "apart R c"
  obtain x c1 where x: "ensureHealthy h c = (x, c1)" by fastforce
  have c1: "apart R c1" using apart_ensureHealthy [OF a, of h] x by simp
  let ?r = "length (promises c1)"
  have "apart (insert ?r R) (snd (newPromise Pending c1))" using c1 by (rule moves_apart [OF moves_new])
  then have "apart (insert ?r R) (await p (RunOperation ?r rq) (snd (newPromise Pending c1)))" for p
    by (rule moves_apart [OF moves_await, rotated 3]) auto
  then have "apart R (await p (RunOperation ?r rq) (snd (newPromise Pending c1)))" for p
    by (rule apart_mono) auto
  moreover obtain y c2 where y: "run_operation h rq c1 = (y, c2)" by fastforce
  have "apart R c2" using moves_apart [OF moves_run_operation c1, of h rq] y by simp
  moreover from this have "apart R (snd (newPromise v c2))" for v
    using moves_apart [OF moves_new, of R c2 v] by (blast intro: apart_mono)
  ultimately show ?thesis
    using x y by (auto simp: afterHealthy_def newPromise_def split: option.split sum.split)
qed

lemma apart_closeCurrentSocket: "apart R c \<Longrightarrow> apart R (closeCurrentSocket code reason b c)"
  by (rule moves_apart [OF moves_closeCurrentSocket])

lemma apart_connect: "apart R c \<Longrightarrow> apart R (snd (connect h ch pin opts c))"
proof -
  assume a: "apart R c"
  let ?c3 = "closeCurrentSocket None (Some ''connection replaced'') True
     ((clearReconnectTimer (c\<lparr>reconnectGeneration := reconnectGeneration c + 1,
                                      healthGeneration := healthGeneration c + 1\<rparr>))
      \<lparr>reconnectPromise := None, healthCheckPromise := None\<rparr>)"
  have "apart R ?c3" using a by (intro apart_closeCurrentSocket) (simp add: apart_quiet)
  then have "apart (insert (length (promises ?c3)) R) (snd (newPromise Pending ?c3))" by (rule moves_apart [OF moves_new])
  then have "apart (insert (length (promises ?c3)) R) (connectInternal h ch pin opts (length (promises ?c3)) (snd (newPromise Pending ?c3)))"
    by (rule moves_apart [OF moves_connectInternal, rotated]) simp
  then show ?thesis
    by (auto simp: connect_def Let_def newPromise_def intro: apart_mono)
qed

lemma apart_disconnect: "apart R c \<Longrightarrow> apart R (snd (disconnect h code reason c))"
  by (auto simp: disconnect_def Let_def apart_quiet intro!: apart_closeCurrentSocket split: option.split)

lemma apart_operations:
  assumes "apart R c"
  shows "apart R (snd (send h to m t c))" "apart R (snd (ask h to m t c))" "apart R (snd (reply h i m t c))"
    "apart R (snd (approve h j t c))" "apart R (snd (deny h j t c))" "apart R (snd (list_members h t c))"
    "apart R (snd (status h t c))"
  using assms moves_apart [OF moves_new assms, of "Rejected e" for e, THEN apart_mono, of R]
  by (auto simp: send_def ask_def reply_def approve_def deny_def list_members_def status_def apart_afterHealthy
      split: option.split)

lemma apart_run_call: "apart R c \<Longrightarrow> apart R (run_call h a c)"
  by (cases a) (auto simp: apart_operations apart_connect apart_disconnect on_def off_def Let_def
      moves_apart [OF moves_sendEvent] moves_apart [OF moves_requestResponse] split: option.split)

lemma apart_run_timer: "apart R c \<Longrightarrow> apart R (run_timer h k c)"
  by (cases k) (simp_all add: apart_ensureHealthy apart_quiet apart_waiter_timeout)

lemma apart_resume:
  assumes a: "apart R c" and i: "i < length (conts c)" "conts c ! i = (p, k)"
  shows "apart (set_option (cont_ret k) \<union> R) (c\<lparr>conts := take i (conts c) @ drop (Suc i) (conts c)\<rparr>)"
proof -
  let ?ks = "take i (conts c) @ drop (Suc i) (conts c)"
  have "conts c = take i (conts c) @ [(p, k)] @ drop (Suc i) (conts c)"
    using id_take_nth_drop [OF i(1)] i(2) by simp
  then have "delays (conts c) = delays ?ks \<union> delays [(p, k)]" "rets (conts c) = rets ?ks \<union> rets [(p, k)]"
    by (metis delays_simps(2) Un_left_commute Un_commute, metis rets_simps(2) Un_left_commute Un_commute)
  with a show ?thesis unfolding apart_def payees_def by auto
qed

text \<open>A continuation that is resumed leaves less weight than there was.\<close>

lemma resume_decreases:
  assumes a: "apart {} c" and d: "act h (Resume i) c = Some d"
  shows "apart {} d \<and> weight d (conts d) < weight c (conts c)"
proof -
  obtain p k where i: "i < length (conts c)" "conts c ! i = (p, k)" "promise_of c p \<noteq> Pending"
    using d by (auto split: if_splits prod.splits)
  let ?c = "c\<lparr>conts := take i (conts c) @ drop (Suc i) (conts c)\<rparr>" and ?R = "set_option (cont_ret k)"
  have de: "d = run_cont h p k (promise_of c p) ?c" using d i by simp
  have c: "apart ?R ?c" using apart_resume [OF a i(1,2)] by simp
  have m: "moves ?R (wt c (p, k) - 1) ?R ?c d" unfolding de by (rule moves_run_cont [OF i(3)])
  then obtain ks where ks: "conts d = conts ?c @ ks" "weight d ks \<le> wt c (p, k) - 1"
      and same: "\<forall>q \<in> delays (conts ?c). promise_of d q = promise_of ?c q"
    using c by (auto simp: moves_def)
  have "weight d (conts ?c) = weight ?c (conts ?c)" using same by (intro weight_cong) blast
  moreover have "weight ?c ls = weight c ls" for ls by (rule weight_cong) (simp add: promise_of_def)
  moreover have "weight c (conts c) = weight c (conts ?c) + wt c (p, k)"
  proof -
    have "conts c = take i (conts c) @ (p, k) # drop (Suc i) (conts c)" using id_take_nth_drop [OF i(1)] i(2) by simp
    then have "weight c (conts c) = weight c (take i (conts c) @ (p, k) # drop (Suc i) (conts c))" by simp
    then show ?thesis by (simp del: append_take_drop_id)
  qed
  moreover have "0 < wt c (p, k)" using i(3) by (cases k) simp_all
  ultimately show ?thesis using ks moves_apart [OF m c] by (auto intro: apart_mono)
qed

lemma apart_act: "apart {} c \<Longrightarrow> act h a c = Some d \<Longrightarrow> apart {} d"
proof (cases a)
  case (Resume i)
  assume "apart {} c" "act h a c = Some d"
  with Resume resume_decreases show ?thesis by blast
next
  case (SockMessage s v)
  assume "apart {} c" "act h a c = Some d"
  with SockMessage show ?thesis
    by (auto simp: uncaught_def emitLog_def apart_messageHandler split: if_splits option.splits)
next
  case (Fire t)
  assume "apart {} c" "act h a c = Some d"
  with Fire show ?thesis
    by (auto simp: apart_quiet intro!: apart_run_timer split: if_splits option.splits)
next
  case (SockOpen s)
  assume "apart {} c" "act h a c = Some d"
  with SockOpen show ?thesis
    by (auto simp: listening_def split: if_splits intro: moves_apart [OF moves_openHandler])
qed (auto simp: apart_run_call apart_closeHandler apart_errorHandler apart_quiet split: if_splits
    intro: apart_upd_socket)

interpretation client_apart: client_invariant h "apart {}" for h
  by unfold_locales (rule apart_act, assumption+, rule apart_new_client)

end
