(* ===== verification/Client_Waits.thy ===== *)
theory Client_Waits
  imports Client_Rest
begin

text \<open>
  No circular waits. A continuation waits for one promise and returns another; the kinds of
  functions of the client form levels, and each waits for promises of lower levels only: an operation for the
  health check, the health check for the reconnect loop, the loop for a connect.
\<close>

section \<open>Levels\<close>

fun lvl :: "cont \<Rightarrow> nat" where
  "lvl (ConnectFetched _ _ _ _) = 1"
| "lvl (ConnectOpened _ _) = 1"
| "lvl (Validate _ _) = 1"
| "lvl (ReconnectDelayed _ _ _ _) = 2"
| "lvl (ReconnectConnected _ _ _) = 2"
| "lvl (HealthStatus _ _) = 3"
| "lvl (HealthReconnected _) = 3"
| "lvl (RunOperation _ _) = 4"
| "lvl (Adopt _) = 4"
| "lvl ReconnectFinally = 5"
| "lvl HealthFinally = 5"

text \<open>
  The promises with a level: those in \<open>B\<close>, which an operation in progress still has to settle, those of the
  health check and of the reconnect loop, and those the continuations return.
\<close>

definition ret_grades :: "(nat \<times> cont) list \<Rightarrow> (nat \<times> nat) set" where
  "ret_grades ks = {(r, x). \<exists>q k. (q, k) \<in> set ks \<and> cont_ret k = Some r \<and> lvl k = x}"

definition grades :: "(nat \<times> nat) set \<Rightarrow> relay_client \<Rightarrow> (nat \<times> nat) set" where
  "grades B c = B \<union> ret_grades (conts c) \<union> {(p, 3) | p. healthCheckPromise c = Some p} \<union>
     {(p, 2) | p. reconnectPromise c = Some p}"

lemma ret_grades_simps [simp]: "ret_grades [] = {}" "ret_grades (ks @ ls) = ret_grades ks \<union> ret_grades ls"
    "ret_grades [(q, k)] = (\<lambda>r. (r, lvl k)) ` set_option (cont_ret k)"
  by (auto simp: ret_grades_def)

definition waits_ordered :: "(nat \<times> nat) set \<Rightarrow> nat \<Rightarrow> (nat \<times> cont) list \<Rightarrow> bool" where
  "waits_ordered G n ks = (\<forall>(q, k) \<in> set ks. q < n \<and> (\<forall>x. (q, x) \<in> G \<longrightarrow> x < lvl k))"

lemma waits_ordered_simps [simp]: "waits_ordered G n []"
    "waits_ordered G n (ks @ ls) \<longleftrightarrow> waits_ordered G n ks \<and> waits_ordered G n ls"
    "waits_ordered G n [(q, k)] \<longleftrightarrow> q < n \<and> (\<forall>x. (q, x) \<in> G \<longrightarrow> x < lvl k)"
  by (auto simp: waits_ordered_def)

definition graded :: "(nat \<times> nat) set \<Rightarrow> relay_client \<Rightarrow> bool" where
  "graded B c = (single_valued (grades B c) \<and> fst ` grades B c \<subseteq> {..<length (promises c)} \<and>
     waits_ordered (grades B c) (length (promises c)) (conts c))"

lemma graded_new_client: "graded {} (new_client cfg delay t)"
  by (simp add: graded_def grades_def new_client_def)

text \<open>A state with the same continuations and no new promise with a level.\<close>

lemma graded_sub:
  assumes g: "graded B c" and "grades C d \<subseteq> grades B c" and "length (promises c) \<le> length (promises d)"
    and "conts d = conts c"
  shows "graded C d"
proof -
  have "single_valued (grades C d)"
    using g single_valued_subset [OF assms(2)] by (simp add: graded_def)
  moreover have "fst ` grades C d \<subseteq> {..<length (promises d)}"
    using g image_mono [OF assms(2), of fst] assms(3) by (fastforce simp: graded_def)
  moreover have "waits_ordered (grades C d) (length (promises d)) (conts d)"
    using g assms(2-4) by (fastforce simp: graded_def waits_ordered_def)
  ultimately show ?thesis by (simp add: graded_def)
qed

lemma graded_mono: "graded B c \<Longrightarrow> C \<subseteq> B \<Longrightarrow> graded C c"
  by (rule graded_sub) (auto simp: grades_def)

lemma graded_same:
  assumes "graded B c" and "conts d = conts c" and "length (promises d) = length (promises c)"
    and "healthCheckPromise d = None \<or> healthCheckPromise d = healthCheckPromise c"
    and "reconnectPromise d = None \<or> reconnectPromise d = reconnectPromise c"
  shows "graded B d"
  by (rule graded_sub [OF assms(1)]) (use assms(2-5) in \<open>auto simp: grades_def\<close>)

lemma graded_new:
  assumes g: "graded B c"
  shows "graded (insert (length (promises c), x) B) (snd (newPromise v c))"
proof -
  let ?n = "length (promises c)" and ?G = "grades B c"
  from g have G: "single_valued ?G" "fst ` ?G \<subseteq> {..<?n}" "waits_ordered ?G ?n (conts c)"
    by (simp_all add: graded_def)
  then have fresh: "(?n, y) \<notin> ?G" for y by force
  have "single_valued (insert (?n, x) ?G)" using G(1) fresh by (auto simp: single_valued_def)
  moreover have "fst ` insert (?n, x) ?G \<subseteq> {..<Suc ?n}" using G(2) by (auto simp: less_Suc_eq)
  moreover have "waits_ordered (insert (?n, x) ?G) (Suc ?n) (conts c)" using G(3) by (auto simp: waits_ordered_def)
  moreover have "grades (insert (?n, x) B) (snd (newPromise v c)) = insert (?n, x) ?G" by (simp add: grades_def newPromise_def)
  ultimately show ?thesis by (simp add: graded_def newPromise_def)
qed

lemma graded_new_plain: "graded B c \<Longrightarrow> graded B (snd (newPromise v c))"
  by (rule graded_mono [OF graded_new]) auto

text \<open>A continuation may wait for a promise below its own level.\<close>

definition below :: "(nat \<times> nat) set \<Rightarrow> relay_client \<Rightarrow> nat \<Rightarrow> nat \<Rightarrow> bool" where
  "below B c q x = (q < length (promises c) \<and> (\<forall>y. (q, y) \<in> grades B c \<longrightarrow> y < x))"

lemma graded_await:
  assumes g: "graded B c" and r: "\<And>r. cont_ret k = Some r \<Longrightarrow> (r, lvl k) \<in> B" and q: "below B c q (lvl k)"
  shows "graded B (await q k c)"
proof -
  have "grades B (await q k c) = grades B c" using r by (auto simp: grades_def await_def)
  with g q show ?thesis by (simp add: graded_def await_def below_def)
qed

lemma below_graded: "graded B c \<Longrightarrow> (q, y) \<in> grades B c \<Longrightarrow> y < x \<Longrightarrow> below B c q x"
  by (auto simp: graded_def below_def single_valued_def)

lemma below_fresh: "graded B c \<Longrightarrow> below B (snd (newPromise v c)) (length (promises c)) x"
  by (fastforce simp: graded_def below_def grades_def newPromise_def)

text \<open>An operation that neither awaits nor makes a promise, and leaves the shared promises alone.\<close>

definition unmoved :: "relay_client \<Rightarrow> relay_client \<Rightarrow> bool" where
  "unmoved c d = (conts d = conts c \<and> length (promises d) = length (promises c) \<and>
     healthCheckPromise d = healthCheckPromise c \<and> reconnectPromise d = reconnectPromise c)"

lemma unmoved_graded: "unmoved c d \<Longrightarrow> graded B d = graded B c"
  by (simp add: graded_def unmoved_def grades_def)

lemma unmoved_below: "unmoved c d \<Longrightarrow> below B d q x = below B c q x"
  by (simp add: below_def unmoved_def grades_def)

lemma unmoved_refl [simp]: "unmoved c c"
  by (simp add: unmoved_def)

lemma unmoved_trans: "unmoved c d \<Longrightarrow> unmoved d e \<Longrightarrow> unmoved c e"
  by (simp add: unmoved_def)

lemma unmoved_same: "unmoved c d \<Longrightarrow> length (promises d) = length (promises c) \<and> conts d = conts c"
  by (simp add: unmoved_def)

lemma unmoved_emitError: "unmoved c (emitError code err ds c)"
  by (simp add: unmoved_def emitError_upd)

lemma unmoved_emit: "unmoved c (emit h ty event c)"
  by (simp add: unmoved_def emit_upd)

lemma unmoved_settle: "unmoved c (settle p v c)" "unmoved c (resolve_unit p c)"
  by (simp_all add: unmoved_def settle_def resolve_unit_def)

lemma unmoved_recordRelayActivity: "unmoved c (recordRelayActivity c)"
  by (simp add: unmoved_def recordRelayActivity_upd)

lemma unmoved_cleanup: "unmoved c (cleanup s c)"
  by (simp add: unmoved_def cleanup_upd)

lemma unmoved_rejectResponseWaiters: "unmoved c (rejectResponseWaiters m c)"
  by (simp add: unmoved_def rejectResponseWaiters_upd fold_settled)

lemma unmoved_rejectBeforeOpen: "unmoved c (rejectBeforeOpen s e c)"
  by (simp add: unmoved_def rejectBeforeOpen_def Let_def settle_def cleanup_upd upd_socket_def)

lemma unmoved_closeCurrentSocket: "unmoved c (closeCurrentSocket code reason b c)"
  by (simp add: unmoved_def closeCurrentSocket_def Let_def ws_close_upd rejectResponseWaiters_upd fold_settled cleanup_upd
      rejectBeforeOpen_def settle_def upd_socket_def stopHeartbeat_upd split: option.split)

lemma unmoved_openHandler: "unmoved c (openHandler s c)"
  by (simp add: unmoved_def openHandler_def Let_def upd_socket_def set_transport_def recordRelayActivity_upd
      resolve_unit_def settle_def)

lemma unmoved_remember_device: "unmoved c (remember_device ch pin d c)"
  by (simp add: unmoved_def remember_device_def Let_def split: option.split)

lemma unmoved_sendEvent: "unmoved c (snd (sendEvent h event c))"
  by (simp add: unmoved_def sendEvent_def Let_def emitLog_def split: option.split)

lemma unmoved_clearReconnectTimer: "unmoved c (clearReconnectTimer c)"
  by (simp add: unmoved_def clearReconnectTimer_upd split: option.split)

lemma unmoved_messageHandler: "unmoved c (snd (messageHandler h s v c))"
  by (auto simp: messageHandler_def handleSocketMessage_def unmoved_def emit_upd record_reply_target_def
      resolveResponseWaiter_def resolve_waiter_def drop_waiter_def clearTimeout_def settle_def applyStateEvent_def
      recordRelayActivity_upd Let_def split: sum.split option.split)

lemma unmoved_errorHandler: "unmoved c (errorHandler s v c)"
  by (simp add: errorHandler_def unmoved_def ws_close_upd rejectBeforeOpen_def Let_def settle_def cleanup_upd upd_socket_def
      emitError_upd)

lemmas unmoved_ops = unmoved_emitError unmoved_emit unmoved_settle unmoved_recordRelayActivity unmoved_cleanup
  unmoved_rejectResponseWaiters unmoved_rejectBeforeOpen unmoved_closeCurrentSocket unmoved_openHandler unmoved_remember_device
  unmoved_sendEvent unmoved_clearReconnectTimer unmoved_messageHandler unmoved_errorHandler

lemmas graded_ops [simp] = unmoved_ops [THEN unmoved_graded]

lemma graded_fields [simp]:
  "graded B (d\<lparr>log := l\<rparr>) = graded B d"
  "graded B (d\<lparr>client_state := st\<rparr>) = graded B d"
  "graded B (d\<lparr>reconnectAttempt := a\<rparr>) = graded B d"
  "graded B (d\<lparr>reconnectGeneration := i\<rparr>) = graded B d"
  "graded B (d\<lparr>healthGeneration := i\<rparr>) = graded B d"
  "graded B (d\<lparr>connectionGeneration := i\<rparr>) = graded B d"
  "graded B (d\<lparr>explicitDisconnect := b\<rparr>) = graded B d"
  "graded B (d\<lparr>argsHeap := ah\<rparr>) = graded B d"
  "graded B (d\<lparr>handlers := hs\<rparr>) = graded B d"
  "graded B (d\<lparr>socket := k\<rparr>) = graded B d"
  "graded B (d\<lparr>sockets := ss\<rparr>) = graded B d"
  "graded B (d\<lparr>timers := ts\<rparr>) = graded B d"
  "graded B (d\<lparr>now := t\<rparr>) = graded B d"
  "graded B (d\<lparr>heartbeatTimer := x\<rparr>) = graded B d"
  "graded B (d\<lparr>reconnectTimer := x\<rparr>) = graded B d"
  "graded B (d\<lparr>reconnectTimerResolve := x\<rparr>) = graded B d"
  "graded B (d\<lparr>responseWaiters := ws\<rparr>) = graded B d"
  by (rule unmoved_graded; simp add: unmoved_def)+

section \<open>The operations\<close>

lemma below_new:
  "below B c q x \<Longrightarrow> below (insert (length (promises c), y) B) (snd (newPromise v c)) q x"
  by (auto simp: below_def grades_def newPromise_def)

lemma below_mono: "below B c q x \<Longrightarrow> C \<subseteq> B \<Longrightarrow> below C c q x"
  by (auto simp: below_def grades_def)

lemma below_le: "below B c q x \<Longrightarrow> x \<le> y \<Longrightarrow> below B c q y"
  by (auto simp: below_def intro: less_le_trans)

lemma below_in: "graded B c \<Longrightarrow> (q, y) \<in> B \<Longrightarrow> y < x \<Longrightarrow> below B c q x"
  by (rule below_graded) (auto simp: grades_def)

lemma graded_connectInternal:
  assumes g: "graded B c" and r: "(r, 1) \<in> B"
  shows "graded B (connectInternal h ch pin opts r c)"
proof -
  have "graded B (await (length (promises c)) (ConnectFetched r i ch pin) ((snd (newPromise Pending d))\<lparr>log := l\<rparr>))"
    if d: "unmoved c d" for d i l
  proof -
    have "graded B d" "length (promises d) = length (promises c)" using g d by (simp_all add: unmoved_graded unmoved_same)
    with below_fresh [of B d Pending] graded_new_plain [of B d Pending] r
      unmoved_below [of "snd (newPromise Pending d)" "(snd (newPromise Pending d))\<lparr>log := l\<rparr>"]
    show ?thesis by (intro graded_await) (simp_all add: unmoved_def)
  qed
  then show ?thesis by (simp add: connectInternal_def Let_def case_prod_unfold emitLog_def unmoved_def)
qed

lemma graded_openSocket:
  assumes g: "graded B c"
  shows "graded B (snd (openSocket h url token c))"
    and "fst (openSocket h url token c) = Inr p \<Longrightarrow> below B (snd (openSocket h url token c)) p x"
proof -
  define c1 where "c1 = closeCurrentSocket None None True c"
  have c1: "graded B c1" using g by (simp add: c1_def)
  have new: "unmoved (snd (newPromise Pending c1)) (emitLog (ONewSocket s u) ((snd (newPromise Pending c1))\<lparr>sockets := ks, socket := i, socketCleanup := i, pendingOpenReject := i\<rparr>))"
    for s u ks i by (simp add: unmoved_def emitLog_def)
  note q = unmoved_graded [OF new] unmoved_below [OF new] unmoved_graded [OF unmoved_trans [OF new unmoved_openHandler]]
    unmoved_below [OF unmoved_trans [OF new unmoved_openHandler]]
  show "graded B (snd (openSocket h url token c))"
    using c1 graded_new_plain [OF c1, of Pending]
    by (simp add: openSocket_def c1_def [symmetric] Let_def case_prod_unfold q split: sum.split option.split)
  show "fst (openSocket h url token c) = Inr p \<Longrightarrow> below B (snd (openSocket h url token c)) p x"
    using below_fresh [OF c1, of Pending x]
    by (simp add: openSocket_def c1_def [symmetric] Let_def case_prod_unfold q split: sum.splits option.splits if_splits)
qed

lemma graded_connect_fetched:
  assumes g: "graded B c" and r: "(r, 1) \<in> B"
  shows "graded B (connect_fetched h r g ch pin res c)"
proof -
  have "graded B (case openSocket h u t d of (Inl e, c3) \<Rightarrow> settle r (Rejected e) c3 | (Inr p, c3) \<Rightarrow> await p (ConnectOpened r cr) c3)"
    if "graded B d" for u t d cr
    using graded_openSocket [OF that, of h u t] r by (auto intro!: graded_await split: prod.split sum.split)
  with g show ?thesis by (simp add: connect_fetched_def Let_def split: outcome.split pval.split sum.split)
qed

lemma graded_connect_opened: "graded B c \<Longrightarrow> graded B (connect_opened r cr res c)"
  by (simp add: connect_opened_def split: outcome.split)

lemma graded_loop_head:
  assumes g: "graded B c" and r: "(r, 2) \<in> B"
  shows "graded B (loop_head r a gen c)"
proof -
  have "graded B (await (length (promises d)) (ReconnectDelayed r a i n) e)"
    if "graded B d" "unmoved (snd (newPromise Pending d)) e" for d e i n
    using r below_fresh [OF that(1), of Pending] graded_new_plain [OF that(1), of Pending] that(2)
    by (intro graded_await) (simp_all add: unmoved_graded unmoved_below)
  moreover have "graded B (schedule_attempt n t c)" for n t using g by (simp add: schedule_attempt_def Let_def)
  moreover have "unmoved (snd (newPromise Pending d)) (snd (waitForReconnectDelay t d))" for t d
    by (simp add: unmoved_def waitForReconnectDelay_def newPromise_def setTimeout_def)
  moreover have "fst (waitForReconnectDelay t d) = length (promises d)" for t d
    by (simp add: waitForReconnectDelay_def newPromise_def setTimeout_def)
  ultimately show ?thesis using g by (simp add: loop_head_def Let_def case_prod_unfold)
qed

lemma graded_reconnect_delayed:
  assumes g: "graded B c" and r: "(r, 2) \<in> B"
  shows "graded B (reconnect_delayed h r a gen n c)"
proof -
  have "graded B (await (length (promises d)) (ReconnectConnected r a i) (connectInternal h ch pin opts (length (promises d)) (snd (newPromise Pending d))))"
    if d: "graded B d" for d ch pin opts i
  proof -
    let ?p = "length (promises d)" and ?B = "insert (length (promises d), 1) B"
    have e: "graded ?B (connectInternal h ch pin opts ?p (snd (newPromise Pending d)))" (is "graded _ ?e")
      by (rule graded_connectInternal [OF graded_new [OF d]]) simp
    have "graded ?B (await ?p (ReconnectConnected r a i) ?e)"
      using r below_in [OF e, of ?p 1 2] by (intro graded_await e) simp_all
    then show ?thesis by (rule graded_mono) auto
  qed
  with g show ?thesis by (simp add: reconnect_delayed_def Let_def case_prod_unfold)
qed

lemma graded_reconnect_connected: "graded B c \<Longrightarrow> (r, 2) \<in> B \<Longrightarrow> graded B (reconnect_connected r a gen res c)"
  by (simp add: reconnect_connected_def graded_loop_head split: outcome.split)

lemma graded_reconnect:
  assumes g: "graded B c"
  shows "graded B (snd (reconnect c)) \<and> below B (snd (reconnect c)) (fst (reconnect c)) 3"
proof (cases "reconnectPromise c")
  case (Some p)
  then have "below B c p 3" by (intro below_graded [OF g, of _ 2]) (auto simp: grades_def)
  with Some g show ?thesis by (simp add: reconnect_def)
next
  case None
  let ?r = "length (promises c)"
  have "graded B e \<and> below B e ?r 3"
    if e: "e = await ?r ReconnectFinally ((loop_head ?r a (gen + 1) (snd (newPromise Pending (c\<lparr>reconnectGeneration := gen + 1\<rparr>))))\<lparr>reconnectPromise := Some ?r\<rparr>)"
    (is "e = await _ _ (?d\<lparr>reconnectPromise := _\<rparr>)") for a gen e
  proof -
    let ?B = "insert (?r, 2) B"
    have "graded ?B (snd (newPromise Pending (c\<lparr>reconnectGeneration := gen + 1\<rparr>)))"
      using graded_new [of B "c\<lparr>reconnectGeneration := gen + 1\<rparr>" 2 Pending] g by simp
    then have "graded ?B ?d" by (rule graded_loop_head) simp
    then have d: "graded ?B (?d\<lparr>reconnectPromise := Some ?r\<rparr>)"
      by (rule graded_sub) (auto simp: grades_def)
    have e1: "graded ?B e" unfolding e
      using below_in [OF d, of ?r 2 5] by (intro graded_await d) simp_all
    then have "graded B e" by (rule graded_mono) auto
    moreover have "below ?B e ?r 3" by (rule below_in [OF e1, of _ 2]) simp_all
    then have "below B e ?r 3" by (rule below_mono) auto
    ultimately show ?thesis by blast
  qed
  with None g show ?thesis
    by (auto simp: reconnect_def Let_def case_prod_unfold graded_new_plain below_fresh split: option.split)
qed


lemma graded_health_reconnect:
  assumes g: "graded B c" and r: "(r, 3) \<in> B"
  shows "graded B (health_reconnect r i c)"
  using graded_reconnect [OF g] r g
  by (auto simp: health_reconnect_def Let_def case_prod_unfold intro!: graded_await)

lemma graded_health_failed: "graded B c \<Longrightarrow> (r, 3) \<in> B \<Longrightarrow> graded B (health_failed r i e c)"
  by (simp add: health_failed_def Let_def graded_health_reconnect)

lemma graded_requestResponse:
  assumes g: "graded B c"
  shows "graded B (snd (requestResponse h event ty ms code c))"
    and "fst (requestResponse h event ty ms code c) = Inr p \<Longrightarrow> below B (snd (requestResponse h event ty ms code c)) p x"
proof -
  let ?e = "snd (requestResponse h event ty ms code c)"
  obtain s c1 where s: "sendEvent h event c = (s, c1)" by fastforce
  have c1: "graded B c1" using g s unmoved_graded [OF unmoved_sendEvent, of B h event c] by simp
  show "graded B ?e"
  proof (cases "\<exists>out. s = Inr out \<and> get out ''id'' \<noteq> JUndef")
    case True
    then have "unmoved (snd (newPromise Pending c1)) ?e"
      by (auto simp: requestResponse_def s unmoved_def Let_def newPromise_def setTimeout_def)
    then show ?thesis using graded_new_plain [OF c1] by (simp add: unmoved_graded)
  next
    case False
    with c1 show ?thesis by (auto simp: requestResponse_def s Let_def split: sum.split)
  qed
  assume "fst (requestResponse h event ty ms code c) = Inr p"
  then have "unmoved (snd (newPromise Pending c1)) ?e" "p = length (promises c1)"
    by (auto simp: requestResponse_def s unmoved_def Let_def newPromise_def setTimeout_def split: sum.splits if_splits)
  then show "below B ?e p x" using below_fresh [OF c1] by (simp add: unmoved_below)
qed

lemma graded_start_health_check:
  assumes g: "graded B c" and r: "(r, 3) \<in> B"
  shows "graded B (start_health_check h r c)"
proof -
  obtain x c1 where x: "requestStatus h HEARTBEAT_TIMEOUT_MS c = (x, c1)" by fastforce
  have "graded B c1" "x = Inr p \<Longrightarrow> below B c1 p 3" for p
    using graded_requestResponse [OF g] x by (simp_all add: requestStatus_def) (metis fst_conv snd_conv)+
  then show ?thesis
    using g r x by (auto simp: start_health_check_def Let_def graded_health_reconnect graded_health_failed
        intro!: graded_await split: sum.split)
qed

lemma graded_ensureHealthy:
  assumes g: "graded B c"
  shows "graded B (snd (ensureHealthy h c))"
    and "fst (ensureHealthy h c) = Some p \<Longrightarrow> below B (snd (ensureHealthy h c)) p 4"
proof -
  let ?r = "length (promises c)"
  let ?B = "insert (?r, 3) B" and ?d = "start_health_check h ?r (snd (newPromise Pending c))"
  have "graded ?B ?d" by (rule graded_start_health_check [OF graded_new [OF g]]) simp
  then have d: "graded ?B (?d\<lparr>healthCheckPromise := Some ?r\<rparr>)" by (rule graded_sub) (auto simp: grades_def)
  then have e: "graded ?B (await ?r HealthFinally (?d\<lparr>healthCheckPromise := Some ?r\<rparr>))" (is "graded _ ?e")
    using below_in [OF d, of ?r 3 5] by (intro graded_await d) simp_all
  then have "graded B ?e" by (rule graded_mono) auto
  moreover have "below B ?e ?r 4" by (rule below_mono [OF below_in [OF e, of _ 3]]) auto
  moreover have "below B c p 4" if "healthCheckPromise c = Some p" for p
    using that by (intro below_graded [OF g, of _ 3]) (auto simp: grades_def)
  ultimately show "graded B (snd (ensureHealthy h c))"
      and "fst (ensureHealthy h c) = Some p \<Longrightarrow> below B (snd (ensureHealthy h c)) p 4"
    using g by (auto simp: ensureHealthy_def Let_def case_prod_unfold split: option.splits if_splits)
qed

lemma graded_health_status: "graded B c \<Longrightarrow> (r, 3) \<in> B \<Longrightarrow> graded B (health_status r i res c)"
  by (simp add: health_status_def graded_health_failed split: outcome.split)

lemma graded_run_operation:
  assumes g: "graded B c"
  shows "graded B (snd (run_operation h rq c))"
    and "fst (run_operation h rq c) = Inr p \<Longrightarrow> below B (snd (run_operation h rq c)) p 4"
proof -
  obtain x c1 where x: "requestResponse h (req_event rq) (req_responseType rq) (req_timeoutMs rq) (req_timeoutCode rq) c = (x, c1)"
    by fastforce
  have c1: "graded B c1" and b: "\<And>p y. x = Inr p \<Longrightarrow> below B c1 p y"
    using graded_requestResponse [OF g] x by (metis snd_conv, metis fst_conv snd_conv)
  let ?q = "length (promises c1)"
  have v: "graded B (await p (Validate ?q chk) (snd (newPromise Pending c1))) \<and> below B (await p (Validate ?q chk) (snd (newPromise Pending c1))) ?q 4"
    if "x = Inr p" for p chk
  proof -
    let ?B = "insert (?q, 1) B"
    have "below ?B (snd (newPromise Pending c1)) p 1" using b [OF that] by (rule below_new)
    then have e: "graded ?B (await p (Validate ?q chk) (snd (newPromise Pending c1)))"
      by (intro graded_await graded_new c1) simp_all
    then have "below ?B (await p (Validate ?q chk) (snd (newPromise Pending c1))) ?q 4"
      by (rule below_in [of _ _ _ 1]) simp_all
    then show ?thesis using e by (auto intro: graded_mono below_mono)
  qed
  show "graded B (snd (run_operation h rq c))"
    using x c1 v by (auto simp: run_operation_def Let_def case_prod_unfold split: sum.split)
  show "fst (run_operation h rq c) = Inr p \<Longrightarrow> below B (snd (run_operation h rq c)) p 4"
    using x b v by (auto simp: run_operation_def Let_def case_prod_unfold split: sum.splits if_splits)
qed

lemma graded_run_queued: "graded B c \<Longrightarrow> (r, 4) \<in> B \<Longrightarrow> graded B (run_queued h r rq res c)"
  using graded_run_operation [of B c h rq]
  by (cases "run_operation h rq c") (auto simp: run_queued_def intro!: graded_await split: outcome.split sum.split)

lemma graded_afterHealthy:
  assumes g: "graded B c"
  shows "graded B (snd (afterHealthy h rq c))"
proof -
  obtain x c1 where x: "ensureHealthy h c = (x, c1)" by fastforce
  have c1: "graded B c1" and b: "\<And>p. x = Some p \<Longrightarrow> below B c1 p 4"
    using graded_ensureHealthy [OF g] x by (metis snd_conv, metis fst_conv snd_conv)
  let ?q = "length (promises c1)"
  have "graded B (await p (RunOperation ?q rq) (snd (newPromise Pending c1)))" if "x = Some p" for p
  proof -
    have "below (insert (?q, 4) B) (snd (newPromise Pending c1)) p 4" using b [OF that] by (rule below_new)
    then have "graded (insert (?q, 4) B) (await p (RunOperation ?q rq) (snd (newPromise Pending c1)))"
      by (intro graded_await graded_new c1) simp_all
    then show ?thesis by (rule graded_mono) auto
  qed
  moreover have "graded B (snd (run_operation h rq c1))" by (rule graded_run_operation [OF c1])
  ultimately show ?thesis
    using x by (auto simp: afterHealthy_def Let_def case_prod_unfold graded_new_plain split: option.split sum.split)
qed

lemma graded_run_cont:
  assumes "graded ((\<lambda>r. (r, lvl k)) ` set_option (cont_ret k)) c"
  shows "graded {} (run_cont h p k res c)"
proof -
  let ?B = "(\<lambda>r. (r, lvl k)) ` set_option (cont_ret k)"
  have "graded ?B (c\<lparr>reconnectPromise := None\<rparr>)" "graded ?B (c\<lparr>healthCheckPromise := None\<rparr>)"
    using assms by (rule graded_same; simp)+
  with assms have "graded ?B (run_cont h p k res c)"
    by (cases k) (simp_all add: graded_connect_fetched [unfolded One_nat_def] graded_connect_opened graded_reconnect_delayed
      graded_reconnect_connected graded_run_queued graded_health_status validate_response_def
      split: outcome.split pval.split sum.split)
  then show ?thesis by (rule graded_mono) simp
qed

section \<open>Every action\<close>

lemma graded_connect: "graded B c \<Longrightarrow> graded B (snd (connect h ch pin opts c))"
proof -
  assume g: "graded B c"
  let ?c2 = "(clearReconnectTimer (c\<lparr>reconnectGeneration := reconnectGeneration c + 1, healthGeneration := healthGeneration c + 1\<rparr>))
      \<lparr>reconnectPromise := None, healthCheckPromise := None\<rparr>"
  let ?c3 = "closeCurrentSocket None (Some ''connection replaced'') True ?c2"
  have "graded B ?c2" using g by (rule graded_same) (simp_all add: clearReconnectTimer_upd split: option.split)
  then have "graded (insert (length (promises ?c3), 1) B) (snd (newPromise Pending ?c3))" by (intro graded_new) simp
  then have "graded (insert (length (promises ?c3), 1) B) (connectInternal h ch pin opts (length (promises ?c3)) (snd (newPromise Pending ?c3)))"
    by (rule graded_connectInternal) simp
  then show ?thesis by (auto simp: connect_def Let_def case_prod_unfold intro: graded_mono)
qed

lemma graded_disconnect: "graded B c \<Longrightarrow> graded B (snd (disconnect h code reason c))"
proof -
  assume g: "graded B c"
  let ?c1 = "clearReconnectTimer (c\<lparr>explicitDisconnect := True, connectionGeneration := connectionGeneration c + 1,
                 reconnectGeneration := reconnectGeneration c + 1,
                 healthGeneration := healthGeneration c + 1, healthCheckPromise := None\<rparr>)"
  have "graded B ?c1" using g by (rule graded_same) (simp_all add: clearReconnectTimer_upd split: option.split)
  then show ?thesis by (simp add: disconnect_def Let_def split: option.split)
qed

lemma graded_operations:
  assumes "graded B c"
  shows "graded B (snd (send h to m t c))" "graded B (snd (ask h to m t c))" "graded B (snd (reply h i m t c))"
    "graded B (snd (approve h j t c))" "graded B (snd (deny h j t c))" "graded B (snd (list_members h t c))"
    "graded B (snd (status h t c))"
  using assms by (simp_all add: send_def ask_def reply_def approve_def deny_def list_members_def status_def
      graded_afterHealthy graded_new_plain split: option.split)

lemma graded_run_call: "graded B c \<Longrightarrow> graded B (run_call h a c)"
  by (cases a) (simp_all add: graded_operations graded_connect graded_disconnect on_def off_def Let_def
      graded_requestResponse split: option.split)

lemma graded_closeHandler:
  assumes g: "graded B c"
  shows "graded B (closeHandler s v c)"
proof -
  have "graded B (snd (reconnect d))" if "graded B d" for d using graded_reconnect [OF that] ..
  with g show ?thesis by (simp add: closeHandler_def scheduleReconnect_def Let_def stopHeartbeat_upd)
qed

lemma graded_run_timer: "graded B c \<Longrightarrow> graded B (run_timer h k c)"
  by (cases k) (simp_all add: graded_ensureHealthy waiter_timeout_def)

lemma graded_resume:
  assumes g: "graded {} c" and i: "i < length (conts c)" "conts c ! i = (p, k)"
  shows "graded ((\<lambda>r. (r, lvl k)) ` set_option (cont_ret k)) (c\<lparr>conts := take i (conts c) @ drop (Suc i) (conts c)\<rparr>)"
proof -
  let ?ks = "take i (conts c) @ drop (Suc i) (conts c)" and ?B = "(\<lambda>r. (r, lvl k)) ` set_option (cont_ret k)"
  have split: "conts c = take i (conts c) @ [(p, k)] @ drop (Suc i) (conts c)"
    using id_take_nth_drop [OF i(1)] i(2) by simp
  have "ret_grades (conts c) = ?B \<union> ret_grades ?ks"
    unfolding arg_cong [OF split, of ret_grades] ret_grades_simps by blast
  then have "grades ?B (c\<lparr>conts := ?ks\<rparr>) = grades {} c" by (auto simp: grades_def)
  moreover have "waits_ordered G n (conts c) \<Longrightarrow> waits_ordered G n ?ks" for G n
    unfolding arg_cong [OF split, of "waits_ordered G n"] waits_ordered_simps by blast
  ultimately show ?thesis using g by (simp add: graded_def)
qed

lemma graded_uncaught [simp]: "graded B (uncaught r) = graded B (snd r)"
  by (simp add: uncaught_def emitLog_def split: option.split)

lemma graded_act: "graded {} c \<Longrightarrow> act h a c = Some d \<Longrightarrow> graded {} d"
proof (cases a)
  case (Resume i)
  assume "graded {} c" "act h a c = Some d"
  with Resume show ?thesis
    by (auto intro!: graded_run_cont graded_resume split: if_splits prod.splits)
qed (auto simp: graded_run_call graded_closeHandler upd_socket_def clearTimeout_def
    intro!: graded_run_timer split: if_splits option.splits)

interpretation client_graded: client_invariant h "graded {}" for h
  by unfold_locales (rule graded_act, assumption+, rule graded_new_client)


section \<open>What a promise waits for\<close>

text \<open>
  \<open>progresses c p\<close>: \<open>p\<close> is settled by an armed timer, the answer to a fetch in flight or an event of
  the socket that is opening, or by a continuation whose own promise is settled already or, in turn,
  progresses.
\<close>

inductive progresses :: "relay_client \<Rightarrow> nat \<Rightarrow> bool" for c where
  timer: "armed c t = Some (deadline, k) \<Longrightarrow> timer_pid k = Some p \<Longrightarrow> progresses c p"
| fetch: "fetching c p \<Longrightarrow> progresses c p"
| handshake: "pendingOpenReject c = Some s \<Longrightarrow> listening c s \<Longrightarrow> ws_promise (sockets c ! s) = p \<Longrightarrow> progresses c p"
| ready: "(q, k) \<in> set (conts c) \<Longrightarrow> cont_ret k = Some p \<Longrightarrow> promise_of c q \<noteq> Pending \<Longrightarrow> progresses c p"
| chain: "(q, k) \<in> set (conts c) \<Longrightarrow> cont_ret k = Some p \<Longrightarrow> progresses c q \<Longrightarrow> progresses c p"

lemma fetch_progresses: "(q, k) \<in> set (conts c) \<Longrightarrow> is_fetch k \<Longrightarrow> progresses c q"
  by (rule progresses.fetch) (cases k; force simp: fetching_def list_ex_iff)

lemma timer_progresses: "p \<in> timer_src (timers c) \<Longrightarrow> progresses c p"
  by (auto simp: timer_src_def armed_def intro: progresses.timer)

lemma handshake_progresses:
  assumes "sound X c" and "p \<in> open_src (pendingOpenReject c) (sockets c)"
  shows "progresses c p"
proof -
  obtain s where s: "pendingOpenReject c = Some s" "ws_promise (sockets c ! s) = p"
    using assms(2) by (auto simp: open_src_def split: option.splits)
  have ok: "socket_ok (socket c) (socketCleanup c) (Some s) (sockets c)" using assms(1) s(1) by (simp add: sound_def)
  then have "socket c = Some s" by (auto simp: socket_ok_def)
  with ok have "listening c s" by (simp add: socket_ok_def listening_def)
  with s show ?thesis by (blast intro: progresses.handshake)
qed

lemma owed_progresses:
  assumes s: "sound {} c" and g: "graded {} c"
  shows "(q, k) \<in> set (conts c) \<Longrightarrow> cont_ret k = Some p \<Longrightarrow> progresses c p"
proof (induction "lvl k" arbitrary: q k p rule: less_induct)
  case less
  show ?case
  proof (cases "promise_of c q = Pending")
    case False
    with less.prems show ?thesis by (rule progresses.ready)
  next
    case True
    have "waits_ordered (grades {} c) (length (promises c)) (conts c)" using g by (simp add: graded_def)
    then have q: "q < length (promises c)" "\<And>x. (q, x) \<in> grades {} c \<Longrightarrow> x < lvl k"
      using less.prems(1) by (auto simp: waits_ordered_def)
    then have "q \<in> pending (promises c)" using True by (simp add: pending_def promise_of_def)
    then consider "q \<in> timer_src (timers c)" | "q \<in> cont_src (conts c)" | "q \<in> open_src (pendingOpenReject c) (sockets c)"
      using s by (auto simp: sound_def owed_def)
    then have "progresses c q"
    proof cases
      case 2
      have "progresses c q" if "(q', k') \<in> set (conts c)" "cont_ret k' = Some q" for q' k'
      proof (rule less.hyps [OF _ that])
        show "lvl k' < lvl k" using that by (intro q(2)) (auto simp: grades_def ret_grades_def)
      qed
      with 2 show ?thesis by (auto simp: cont_src_def intro: fetch_progresses)
    qed (use s in \<open>auto intro: timer_progresses handshake_progresses\<close>)
    with less.prems show ?thesis by (rule progresses.chain)
  qed
qed

lemma pending_progresses:
  assumes s: "sound {} c" and g: "graded {} c" and p: "p \<in> pending (promises c)"
  shows "progresses c p"
proof -
  consider "p \<in> timer_src (timers c)" | "p \<in> cont_src (conts c)" | "p \<in> open_src (pendingOpenReject c) (sockets c)"
    using s p by (auto simp: sound_def owed_def)
  then show ?thesis
  proof cases
    case 2
    then show ?thesis by (auto simp: cont_src_def intro: fetch_progresses owed_progresses [OF s g])
  qed (use s in \<open>auto intro: timer_progresses handshake_progresses\<close>)
qed

end
