(* ===== verification/Client_Generations.thy ===== *)
theory Client_Generations
  imports Client_Effects
begin

text \<open>
  Two orders of the client's life. After \<open>disconnect\<close> nothing reaches the network until the next
  \<open>connect\<close>. And the generation counters fence off what was superseded: at most one reconnect loop and
  at most one connect attempt are of the current generation.
\<close>

section \<open>Silence after disconnect\<close>

definition gone :: "relay_client \<Rightarrow> bool" where
  "gone c = (explicitDisconnect c \<and> socket c = None \<and> pendingOpenReject c = None)"

text \<open>The dispatch of an event to a local handler is the only effect that stays inside.\<close>

fun local_effect :: "effect \<Rightarrow> bool" where
  "local_effect (ODispatch i e) = True"
| "local_effect _ = False"

definition hush :: "relay_client \<Rightarrow> relay_client \<Rightarrow> bool" where
  "hush c d = (gone d \<and> (\<exists>es. log d = log c @ es \<and> list_all local_effect es))"

lemma hush_refl: "gone c \<Longrightarrow> hush c c"
  by (auto simp: hush_def)

lemma hush_trans: "hush c d \<Longrightarrow> hush d e \<Longrightarrow> hush c e"
  by (auto simp: hush_def)

lemma hush_fields [simp]:
  "hush c (d\<lparr>reconnectPromise := pr\<rparr>) = hush c d"
  "hush c (d\<lparr>healthCheckPromise := pr\<rparr>) = hush c d"
  "hush c (d\<lparr>reconnectAttempt := i\<rparr>) = hush c d"
  "hush c (d\<lparr>reconnectGeneration := i\<rparr>) = hush c d"
  "hush c (d\<lparr>healthGeneration := i\<rparr>) = hush c d"
  "hush c (d\<lparr>connectionGeneration := i\<rparr>) = hush c d"
  "hush c (d\<lparr>handlers := hs\<rparr>) = hush c d"
  "hush c (d\<lparr>now := i\<rparr>) = hush c d"
  "hush c (d\<lparr>promises := ps\<rparr>) = hush c d"
  "hush c (d\<lparr>conts := ks\<rparr>) = hush c d"
  "hush c (d\<lparr>client_state := st\<rparr>) = hush c d"
  "hush c (d\<lparr>timers := ts\<rparr>) = hush c d"
  "hush c (d\<lparr>sockets := ss\<rparr>) = hush c d"
  "hush c (d\<lparr>heartbeatTimer := ht\<rparr>) = hush c d"
  "hush c (d\<lparr>reconnectTimer := rt\<rparr>) = hush c d"
  "hush c (d\<lparr>reconnectTimerResolve := rr\<rparr>) = hush c d"
  "hush c (d\<lparr>responseWaiters := rw\<rparr>) = hush c d"
  "hush c (settle p v d) = hush c d"
  "hush c (resolve_unit p d) = hush c d"
  "hush c (await p k d) = hush c d"
  "hush c (snd (newPromise v d)) = hush c d"
  "hush c (clearTimeout t d) = hush c d"
  "hush c (clearReconnectTimer d) = hush c d"
  "hush c (waiter_timeout q p ty code d) = hush c d"
  by (simp_all add: hush_def gone_def settle_def resolve_unit_def await_def newPromise_def clearTimeout_def upd)

lemma hush_explicit: "hush c d \<Longrightarrow> hush c (d\<lparr>explicitDisconnect := True\<rparr>)"
  by (simp add: hush_def gone_def)

lemma hush_emitError: "hush c d \<Longrightarrow> hush c (emitError code err ds d)"
  by (rule hush_trans, assumption) (auto simp: hush_def gone_def emitError_upd list_all_iff)

lemma hush_gone: "hush c d \<Longrightarrow> gone d"
  by (simp add: hush_def)

lemma gone_noop:
  assumes "gone c"
  shows "openHandler s c = c" "snd (messageHandler h s v c) = c" "fst (messageHandler h s v c) = None"
    "closeHandler s v c = c" "errorHandler s v c = c" "sendEvent h event c = (Inl not_connected, c)"
    "requestResponse h event ty ms code c = (Inl not_connected, c)" "\<not> socket_open c"
  using assms
  by (simp_all add: gone_def openHandler_def messageHandler_def closeHandler_def errorHandler_def sendEvent_def
      requestResponse_def socket_open_def)

lemma hush_release:
  "hush c d \<Longrightarrow> hush c (d\<lparr>socket := None, socketCleanup := x\<rparr>)"
  "hush c d \<Longrightarrow> hush c (cleanup s d)"
  "hush c d \<Longrightarrow> hush c (stopHeartbeat d)"
  "hush c d \<Longrightarrow> hush c (rejectResponseWaiters m d)"
  by (simp_all add: hush_def gone_def cleanup_upd stopHeartbeat_upd rejectResponseWaiters_upd)

lemma hush_closeCurrentSocket: "hush c d \<Longrightarrow> hush c (closeCurrentSocket code reason b d)"
  using hush_gone [of c d]
  by (auto simp: closeCurrentSocket_def gone_def Let_def stopHeartbeat_upd
      intro!: hush_release hush_release(3) [unfolded stopHeartbeat_upd] split: option.split)

lemma hush_connect_fetched:
  assumes "gone c"
  shows "hush c (connect_fetched h r g ch pin res c)"
  by (cases rule: connect_fetched_cases [of h r g ch pin res c]) (use assms in \<open>auto simp: hush_refl gone_def\<close>)

lemma reconnect_gone: "gone c \<Longrightarrow> hush c (snd (reconnect c)) \<and> conts (snd (reconnect c)) = conts c"
  using hush_refl [of c]
  by (auto simp: reconnect_def step_simps gone_def split: option.split)

lemma loop_head_gone: "gone d \<Longrightarrow> loop_head r a g d = resolve_unit r d"
  by (simp add: loop_head_def gone_def)

lemma hush_health_reconnect: "hush c d \<Longrightarrow> hush c (health_reconnect r g d)"
  using reconnect_gone [of d] hush_trans [of c d "snd (reconnect d)"] hush_gone [of c d]
  by (auto simp: health_reconnect_def split: prod.split)

lemma hush_health_failed: "hush c d \<Longrightarrow> hush c (health_failed r g e d)"
  using hush_gone [of c d] by (auto simp: health_failed_def gone_def)

lemma hush_ensureHealthy: "gone c \<Longrightarrow> hush c (snd (ensureHealthy h c))"
proof -
  assume g: "gone c"
  have "gone (snd (newPromise Pending c))"
    using g by (simp add: gone_def newPromise_def)
  moreover have "hush c (snd (newPromise Pending c))"
    using g by (simp add: hush_refl)
  ultimately show ?thesis
    using g by (auto simp: ensureHealthy_def start_health_check_def Let_def gone_noop hush_refl newPromise_def
        intro!: hush_health_reconnect split: option.split)
qed

lemma run_operation_gone: "gone c \<Longrightarrow> run_operation h rq c = (Inl not_connected, c)"
  by (simp add: run_operation_def gone_noop)

lemma hush_afterHealthy: "gone c \<Longrightarrow> hush c (snd (afterHealthy h rq c))"
proof -
  assume g: "gone c"
  obtain x d where e: "ensureHealthy h c = (x, d)" by (cases "ensureHealthy h c")
  then have d: "hush c d" using hush_ensureHealthy [OF g, of h] by simp
  with e run_operation_gone [OF hush_gone [OF d]] show ?thesis
    by (auto simp: afterHealthy_def newPromise_def split: option.split)
qed

lemma hush_run_cont: "gone c \<Longrightarrow> hush c (run_cont h p k res c)"
  by (cases k) (auto simp: hush_refl connect_opened_def reconnect_delayed_def reconnect_connected_def
      loop_head_gone health_status_def run_queued_def run_operation_gone validate_response_def
      gone_def [of c] hush_connect_fetched
      intro!: hush_emitError hush_health_failed split: outcome.split pval.split sum.split)

lemma hush_run_timer: "gone c \<Longrightarrow> hush c (run_timer h k c)"
proof (cases k)
  case THeartbeat
  assume g: "gone c"
  then have "hush c (c\<lparr>heartbeatTimer := None\<rparr>)" by (simp add: hush_refl)
  then show ?thesis
    using hush_trans [OF _ hush_ensureHealthy [OF hush_gone]] by (auto simp: THeartbeat)
qed (simp_all add: hush_refl)

fun is_connect :: "action \<Rightarrow> bool" where
  "is_connect (Call (Connect channel pin options)) = True"
| "is_connect _ = False"

lemma hush_run_call: "gone c \<Longrightarrow> \<not> is_connect (Call a) \<Longrightarrow> hush c (run_call h a c)"
  by (cases a) (auto simp: send_def ask_def reply_def approve_def deny_def list_members_def status_def
      disconnect_def on_def off_def Let_def gone_noop hush_refl hush_afterHealthy
      intro!: hush_closeCurrentSocket hush_explicit split: option.split)

lemma act_gone:
  assumes "gone c" and "\<not> is_connect a" and "act h a c = Some d"
  shows "hush c d"
proof (cases a)
  case (Resume i)
  have "hush (c\<lparr>conts := ks\<rparr>) e \<Longrightarrow> hush c e" for ks e by (simp add: hush_def)
  moreover have "gone (c\<lparr>conts := ks\<rparr>)" for ks using assms(1) by (simp add: gone_def)
  ultimately show ?thesis
    using assms(3) Resume hush_run_cont by (fastforce split: if_splits prod.splits)
next
  case (Fire t)
  have "hush (clearTimeout t c) e \<Longrightarrow> hush c e" for e by (simp add: hush_def clearTimeout_def)
  moreover have "gone (clearTimeout t c)" using assms(1) by (simp add: gone_def clearTimeout_def)
  ultimately show ?thesis
    using assms(3) Fire hush_run_timer by (fastforce split: if_splits option.splits prod.splits)
next
  case (SockReady s n)
  with assms show ?thesis by (auto simp: upd_socket_def hush_refl split: if_splits)
qed (use assms in \<open>auto simp: gone_noop uncaught_def hush_refl intro: hush_run_call split: if_splits\<close>)

text \<open>Silence as an invariant of the runs that do not connect.\<close>

definition act_unconnected :: "client_host \<Rightarrow> action \<Rightarrow> relay_client \<Rightarrow> relay_client option" where
  "act_unconnected h a c = (if is_connect a then None else act h a c)"

definition silent_since :: "effect list \<Rightarrow> relay_client \<Rightarrow> bool" where
  "silent_since l c = (gone c \<and> (\<exists>es. log c = l @ es \<and> list_all local_effect es))"

interpretation silence: invariant_system "act_unconnected h" "silent_since l" for h l
proof
  show "silent_since l d" if "silent_since l c" "act_unconnected h a c = Some d" for c d a
    using that act_gone [of c a h d]
    by (auto simp: silent_since_def act_unconnected_def hush_def split: if_splits)
qed

lemma run_unconnected:
  "list_all (\<lambda>a. \<not> is_connect a) as \<Longrightarrow> run_actions (act_unconnected h) as c = run_actions (act h) as c"
  by (induction as arbitrary: c) (auto simp: act_unconnected_def split: option.split)

lemma run_gone:
  assumes "gone c" and "list_all (\<lambda>a. \<not> is_connect a) as" and "run_actions (act h) as c = Some d"
  shows "gone d \<and> (\<exists>es. log d = log c @ es \<and> list_all local_effect es)"
proof -
  have "run_actions (act_unconnected h) as c = Some d"
    using assms(2,3) by (simp add: run_unconnected)
  from silence.run_inv [OF this, of "log c"] assms(1) show ?thesis
    by (simp add: silent_since_def)
qed

lemma disconnect_gone:
  assumes "sound X c"
  shows "gone (snd (disconnect h code reason c))"
proof -
  let ?c1 = "clearReconnectTimer (c\<lparr>explicitDisconnect := True, connectionGeneration := connectionGeneration c + 1,
     reconnectGeneration := reconnectGeneration c + 1, healthGeneration := healthGeneration c + 1, healthCheckPromise := None\<rparr>)"
  have "sound X ?c1" using assms by (simp add: sound_clearReconnectTimer)
  then have n: "no_connection (closeCurrentSocket code reason True ?c1)" by (rule closeCurrentSocket_gone)
  have "explicitDisconnect (closeCurrentSocket code reason True d) = explicitDisconnect d" for d
    by (auto simp: closeCurrentSocket_def rejectBeforeOpen_def settle_def upd_socket_def upd Let_def split: option.split)
  then have "explicitDisconnect (closeCurrentSocket code reason True ?c1)"
    by (simp add: upd)
  with n show ?thesis
    by (auto simp: gone_def no_connection_def disconnect_def Let_def split: option.split)
qed

section \<open>Generations\<close>

text \<open>
  A continuation may carry the generation it belongs to; a counter fences off the older ones.
  \<open>fenced tag n g ks\<close>: no continuation is ahead of the counter \<open>g\<close>, and at most \<open>n\<close> are current.
\<close>

definition fenced :: "('k \<Rightarrow> nat option) \<Rightarrow> nat \<Rightarrow> nat \<Rightarrow> (nat \<times> 'k) list \<Rightarrow> bool" where
  "fenced tag n g ks = (list_all (\<lambda>(p, k). \<forall>i. tag k = Some i \<longrightarrow> i \<le> g) ks \<and>
     length (filter (\<lambda>(p, k). tag k = Some g) ks) \<le> n)"

lemma fenced_bump: "fenced tag n g ks \<Longrightarrow> g < g' \<Longrightarrow> fenced tag 0 g' ks"
  by (fastforce simp: fenced_def list_all_iff filter_empty_conv)

lemma fenced_other: "fenced tag n g ks \<Longrightarrow> tag k = None \<Longrightarrow> fenced tag n g (ks @ [(p, k)])"
  by (simp add: fenced_def)

lemma fenced_add: "fenced tag n g ks \<Longrightarrow> tag k = Some g \<Longrightarrow> fenced tag (Suc n) g (ks @ [(p, k)])"
  by (simp add: fenced_def)

lemma fenced_mono: "fenced tag m g ks \<Longrightarrow> m \<le> n \<Longrightarrow> fenced tag n g ks"
  by (auto simp: fenced_def)

lemma fenced_remove:
  assumes "fenced tag n g ks" and "i < length ks" and "ks ! i = (p, k)"
  shows "fenced tag (if tag k = Some g then n - 1 else n) g (take i ks @ drop (Suc i) ks)"
proof -
  note eq = id_take_nth_drop [OF assms(2), unfolded assms(3)]
  show ?thesis
    using assms(1) by (subst (asm) eq) (auto simp: fenced_def)
qed

fun loop_gen :: "cont \<Rightarrow> nat option" where
  "loop_gen (ReconnectDelayed r a g n) = Some g"
| "loop_gen (ReconnectConnected r a g) = Some g"
| "loop_gen _ = None"

fun fetch_gen :: "cont \<Rightarrow> nat option" where
  "fetch_gen (ConnectFetched r g channel pin) = Some g"
| "fetch_gen _ = None"

definition single :: "nat \<Rightarrow> nat \<Rightarrow> relay_client \<Rightarrow> bool" where
  "single m n c = (fenced loop_gen m (reconnectGeneration c) (conts c) \<and>
     fenced fetch_gen n (connectionGeneration c) (conts c))"

lemma single_mono: "single m n c \<Longrightarrow> m \<le> m' \<Longrightarrow> n \<le> n' \<Longrightarrow> single m' n' c"
  by (auto simp: single_def intro: fenced_mono)

lemma single_same:
  "conts d = conts c \<Longrightarrow> reconnectGeneration d = reconnectGeneration c \<Longrightarrow>
   connectionGeneration d = connectionGeneration c \<Longrightarrow> single m n d = single m n c"
  by (simp add: single_def)

lemma single_fields [simp]:
  "single m n (d\<lparr>reconnectPromise := pr\<rparr>) = single m n d"
  "single m n (d\<lparr>healthCheckPromise := pr\<rparr>) = single m n d"
  "single m n (d\<lparr>reconnectAttempt := i\<rparr>) = single m n d"
  "single m n (d\<lparr>healthGeneration := i\<rparr>) = single m n d"
  "single m n (d\<lparr>explicitDisconnect := b\<rparr>) = single m n d"
  "single m n (d\<lparr>handlers := hs\<rparr>) = single m n d"
  "single m n (d\<lparr>now := i\<rparr>) = single m n d"
  "single m n (d\<lparr>promises := ps\<rparr>) = single m n d"
  "single m n (d\<lparr>client_state := st\<rparr>) = single m n d"
  "single m n (d\<lparr>timers := ts\<rparr>) = single m n d"
  "single m n (d\<lparr>sockets := ss\<rparr>) = single m n d"
  "single m n (d\<lparr>socket := sk\<rparr>) = single m n d"
  "single m n (d\<lparr>heartbeatTimer := ht\<rparr>) = single m n d"
  "single m n (d\<lparr>reconnectTimer := rt\<rparr>) = single m n d"
  "single m n (d\<lparr>reconnectTimerResolve := rr\<rparr>) = single m n d"
  "single m n (d\<lparr>responseWaiters := rw\<rparr>) = single m n d"
  "single m n (d\<lparr>idCount := i\<rparr>) = single m n d"
  "single m n (d\<lparr>argsHeap := ah\<rparr>) = single m n d"
  "single m n (d\<lparr>lastConnectArgs := la\<rparr>) = single m n d"
  "single m n (d\<lparr>nextTimer := i\<rparr>) = single m n d"
  by (simp_all add: single_def)

lemma single_chain [simp]:
  "single m n (settle p v d) = single m n d"
  "single m n (resolve_unit p d) = single m n d"
  "single m n (snd (newPromise v d)) = single m n d"
  "single m n (clearTimeout t d) = single m n d"
  "single m n (emitLog e d) = single m n d"
  "single m n (emitError code err ds d) = single m n d"
  "single m n (emit h ty event d) = single m n d"
  "single m n (recordRelayActivity d) = single m n d"
  "single m n (clearReconnectTimer d) = single m n d"
  "single m n (stopHeartbeat d) = single m n d"
  "single m n (rejectResponseWaiters mg d) = single m n d"
  "single m n (cleanup s d) = single m n d"
  "single m n (upd_socket s f d) = single m n d"
  "single m n (waiter_timeout q p ty tcode d) = single m n d"
  by (simp_all add: single_def settle_def resolve_unit_def newPromise_def clearTimeout_def emitLog_def upd_socket_def upd)

lemma single_chain2 [simp]:
  "single m n (rejectBeforeOpen s e d) = single m n d"
  "single m n (ws_close s cd rs d) = single m n d"
  "single m n (resolveResponseWaiter event d) = single m n d"
  "single m n (applyStateEvent event d) = single m n d"
  "single m n (record_reply_target event d) = single m n d"
  "single m n (set_transport t d) = single m n d"
  "single m n (openHandler s d) = single m n d"
  "single m n (remember_device a b dv d) = single m n d"
  "single m n (snd (waitForReconnectDelay ms d)) = single m n d"
  "single m n (snd (sendEvent h event d)) = single m n d"
  by (simp_all add: rejectBeforeOpen_def ws_close_def resolveResponseWaiter_def resolve_waiter_def drop_waiter_def
      applyStateEvent_def record_reply_target_def set_transport_def openHandler_def remember_device_def
      waitForReconnectDelay_def sendEvent_def setTimeout_def newPromise_def Let_def split: option.split)
    (simp_all add: single_def upd_socket_def)

lemma single_closeCurrentSocket [simp]: "single m n (closeCurrentSocket cd rs b d) = single m n d"
  by (rule single_same) (auto simp: closeCurrentSocket_def rejectBeforeOpen_def settle_def upd_socket_def upd Let_def
      split: option.split)

lemma single_openSocket: "single m n d \<Longrightarrow> single m n (snd (openSocket h url token d))"
  by (auto simp: openSocket_def Let_def newPromise_def single_def [of _ _ "_\<lparr>pendingOpenReject := _\<rparr>"]
      single_def [symmetric] split: sum.split option.split)

lemma single_await: "single m n d \<Longrightarrow> loop_gen k = None \<Longrightarrow> fetch_gen k = None \<Longrightarrow> single m n (await p k d)"
  by (simp add: single_def await_def fenced_other)

lemma single_messageHandler: "single m n d \<Longrightarrow> single m n (snd (messageHandler h s v d))"
  by (auto simp: messageHandler_def handleSocketMessage_def split: sum.split option.split)

text \<open>A connect attempt is of a new generation; so is a reconnect loop.\<close>

lemma single_connectInternal: "single m n d \<Longrightarrow> single m (Suc 0) (connectInternal h ch pin options r d)"
proof -
  assume s: "single m n d"
  then have "fenced fetch_gen (Suc 0) (connectionGeneration d + 1) (conts d @ [(p, ConnectFetched r (connectionGeneration d + 1) ch pin)])" for p
    using fenced_bump [of fetch_gen n _ "conts d" "connectionGeneration d + 1"]
    by (intro fenced_add) (auto simp: single_def)
  moreover have "fenced loop_gen m (reconnectGeneration d) (conts d @ [(p, ConnectFetched r g ch pin)])" for p g
    using s by (intro fenced_other) (auto simp: single_def)
  ultimately show ?thesis
    by (simp add: connectInternal_def Let_def newPromise_def emitLog_def await_def single_def)
qed

lemma single_loop_head:
  assumes "single 0 n d" and "g = reconnectGeneration d"
  shows "single (Suc 0) n (loop_head r a g d)"
proof -
  have "single (Suc 0) n (await p (ReconnectDelayed r a g i) (snd (waitForReconnectDelay ms (schedule_attempt j k d))))"
    (is "single _ _ (await _ ?k ?e)") for p i ms j k
  proof -
    have "single 0 n ?e" "reconnectGeneration ?e = g"
      using assms by (simp_all add: schedule_attempt_def waitForReconnectDelay_def newPromise_def setTimeout_def
          Let_def emitError_upd single_def)
    then show ?thesis
      using fenced_add [of loop_gen 0 g "conts ?e" ?k p] fenced_other [of fetch_gen n _ "conts ?e" ?k p]
      by (simp add: single_def await_def)
  qed
  with single_mono [OF assms(1), of "Suc 0" n] show ?thesis
    by (auto simp: loop_head_def Let_def case_prod_unfold)
qed

lemma single_reconnect: "single m n d \<Longrightarrow> single (max m (Suc 0)) n (snd (reconnect d))"
proof -
  assume s: "single m n d"
  then have keep: "single (max m (Suc 0)) n d" by (rule single_mono) simp_all
  have "single 0 n (d\<lparr>reconnectGeneration := reconnectGeneration d + 1\<rparr>)"
    using s by (auto simp: single_def intro: fenced_bump)
  then have "single (Suc 0) n (loop_head r a (reconnectGeneration d + 1)
      (snd (newPromise Pending (d\<lparr>reconnectGeneration := reconnectGeneration d + 1\<rparr>))))" for r a
    by (intro single_loop_head) (simp_all add: newPromise_def)
  then have "single (max m (Suc 0)) n (loop_head r a (reconnectGeneration d + 1)
      (snd (newPromise Pending (d\<lparr>reconnectGeneration := reconnectGeneration d + 1\<rparr>))))" for r a
    by (rule single_mono) simp_all
  with keep show ?thesis
    by (auto simp: reconnect_def Let_def newPromise_def intro!: single_await split: option.split)
qed

lemma single_connect_fetched: "single m n c \<Longrightarrow> single m n (connect_fetched h r g ch pin res c)"
proof (cases rule: connect_fetched_cases [of h r g ch pin res c])
  case (opened resp cr c2 x c3)
  assume "single m n c"
  then have "single m n (snd (openSocket h (if cr_wsUrl cr = [] then relayWsUrl (config c) else cr_wsUrl cr) (cr_token cr) c2))"
    by (intro single_openSocket) (simp add: opened(5))
  then have "single m n c3" by (simp only: opened(6) snd_conv)
  then show ?thesis
    by (auto simp: opened(7) intro: single_await split: sum.split)
qed simp_all

lemma single_connect: "single m n c \<Longrightarrow> single m (Suc 0) (snd (connect h ch pin options c))"
proof -
  assume s: "single m n c"
  have "single m n (c\<lparr>reconnectGeneration := reconnectGeneration c + 1, healthGeneration := hg\<rparr>)" for hg
    using s fenced_bump [of loop_gen m "reconnectGeneration c" "conts c"] fenced_mono [of loop_gen 0 _ _ m]
    by (simp add: single_def)
  then show ?thesis
    by (auto simp: connect_def Let_def newPromise_def intro!: single_connectInternal)
qed

lemma single_disconnect: "single m n c \<Longrightarrow> single m n (snd (disconnect h code reason c))"
proof -
  assume s: "single m n c"
  have "single m n (c\<lparr>explicitDisconnect := True, connectionGeneration := connectionGeneration c + 1,
      reconnectGeneration := reconnectGeneration c + 1, healthGeneration := hg, healthCheckPromise := None\<rparr>)" for hg
    using s fenced_bump [of loop_gen m "reconnectGeneration c" "conts c"] fenced_mono [of loop_gen 0 _ _ m]
      fenced_bump [of fetch_gen n "connectionGeneration c" "conts c"] fenced_mono [of fetch_gen 0 _ _ n]
    by (simp add: single_def)
  then show ?thesis
    by (auto simp: disconnect_def Let_def split: option.split)
qed

text \<open>The continuation of a loop that is current has been removed when it runs; another one keeps off.\<close>

lemma single_retry:
  assumes "single 0 n c" and "g = reconnectGeneration c"
  shows "single (Suc 0) (Suc 0) (await p (ReconnectConnected r a g) (connectInternal h ch pin opts q c))"
proof -
  let ?e = "connectInternal h ch pin opts q c" and ?k = "ReconnectConnected r a g"
  have "single 0 (Suc 0) ?e"
    using assms(1) by (rule single_connectInternal)
  moreover have "reconnectGeneration ?e = g"
    by (simp add: connectInternal_def Let_def newPromise_def emitLog_def await_def assms(2))
  ultimately show ?thesis
    using fenced_add [of loop_gen 0 g "conts ?e" ?k p] fenced_other [of fetch_gen "Suc 0" _ "conts ?e" ?k p]
    by (simp add: single_def await_def)
qed

lemma single_reconnect_delayed:
  assumes "single m n c" and "g = reconnectGeneration c \<longrightarrow> m = 0" and "m \<le> 1" and "n \<le> 1"
  shows "single (Suc 0) (Suc 0) (reconnect_delayed h r a g i c)"
proof (cases "explicitDisconnect c \<or> g \<noteq> reconnectGeneration c")
  case True
  with single_mono [OF assms(1)] assms(3,4) show ?thesis by (simp add: reconnect_delayed_def)
next
  case False
  let ?c1 = "emitError ''reconnect_attempt'' (JStr ''reconnecting to relay'') ((''attempt'', js_int (int i)) # identity_details c) c"
  have "single 0 n (snd (newPromise Pending ?c1))" "reconnectGeneration (snd (newPromise Pending ?c1)) = g"
    using assms(1,2) False by (simp_all) (simp add: newPromise_def emitError_upd)
  then show ?thesis
    using False by (simp only: reconnect_delayed_def Let_def case_prod_unfold if_False single_retry)
qed

lemma single_reconnect_connected:
  assumes "single m n c" and "g = reconnectGeneration c \<longrightarrow> m = 0" and "m \<le> 1" and "n \<le> 1"
  shows "single (Suc 0) (Suc 0) (reconnect_connected r a g res c)"
proof -
  have c: "single (Suc 0) (Suc 0) c"
    using assms by (auto intro: single_mono)
  have "single (Suc 0) (Suc 0) (loop_head r a g (emitError ''reconnect_failed'' e [] c))"
    if "g = reconnectGeneration c" for e
    using that assms by (intro single_mono [OF single_loop_head [of n]]) (auto simp: emitError_upd single_def)
  with c show ?thesis
    by (auto simp: reconnect_connected_def split: outcome.split)
qed

lemma single_closeHandler: "single (Suc 0) n c \<Longrightarrow> single (Suc 0) n (closeHandler s v c)"
  using single_reconnect [of "Suc 0" n] by (auto simp: closeHandler_def Let_def scheduleReconnect_def)

lemma single_errorHandler: "single m n c \<Longrightarrow> single m n (errorHandler s v c)"
  by (simp add: errorHandler_def)

lemma single_requestResponse: "single m n c \<Longrightarrow> single m n (snd (requestResponse h event ty ms code c))"
  using single_chain2(10) [of m n h event c]
  by (cases "sendEvent h event c") (simp add: requestResponse_def newPromise_def setTimeout_def Let_def split: sum.split)

lemma single_health_reconnect: "single (Suc 0) n c \<Longrightarrow> single (Suc 0) n (health_reconnect r g c)"
  using single_reconnect [of "Suc 0" n c] by (auto simp: health_reconnect_def intro: single_await split: prod.split)

lemma single_health_failed: "single (Suc 0) n c \<Longrightarrow> single (Suc 0) n (health_failed r g e c)"
  by (auto simp: health_failed_def Let_def intro!: single_health_reconnect)

lemma single_start_health_check: "single (Suc 0) n c \<Longrightarrow> single (Suc 0) n (start_health_check h r c)"
  using single_requestResponse [of "Suc 0" n c h]
  by (auto simp: start_health_check_def requestStatus_def Let_def
      intro!: single_health_reconnect single_health_failed single_await split: prod.split sum.split)
    (metis snd_conv)+

lemma single_ensureHealthy: "single (Suc 0) n c \<Longrightarrow> single (Suc 0) n (snd (ensureHealthy h c))"
  by (auto simp: ensureHealthy_def Let_def newPromise_def intro!: single_await single_start_health_check split: option.split)

lemma single_run_operation: "single m n c \<Longrightarrow> single m n (snd (run_operation h rq c))"
proof -
  assume "single m n c"
  then have "requestResponse h (req_event rq) ty ms code c = (x, d) \<Longrightarrow> single m n d" for ty ms code x d
    using single_requestResponse [of m n c h "req_event rq" ty ms code] by simp
  then show ?thesis
    by (auto simp: run_operation_def newPromise_def intro!: single_await split: prod.split sum.split)
qed

lemma single_afterHealthy: "single (Suc 0) n c \<Longrightarrow> single (Suc 0) n (snd (afterHealthy h rq c))"
proof -
  assume s: "single (Suc 0) n c"
  obtain x d where e: "ensureHealthy h c = (x, d)" by (cases "ensureHealthy h c")
  then have d: "single (Suc 0) n d" using single_ensureHealthy [OF s, of h] by simp
  obtain y f where "run_operation h rq d = (y, f)" by (cases "run_operation h rq d")
  moreover from this have "single (Suc 0) n f" using single_run_operation [OF d, of h rq] by simp
  ultimately show ?thesis
    using e d by (auto simp: afterHealthy_def newPromise_def intro: single_await split: option.split sum.split)
qed

lemma single_run_queued: "single m n c \<Longrightarrow> single m n (run_queued h r rq res c)"
proof -
  assume s: "single m n c"
  then have "run_operation h rq c = (x, d) \<Longrightarrow> single m n d" for x d
    using single_run_operation [of m n c h rq] by simp
  with s show ?thesis
    by (auto simp: run_queued_def intro: single_await split: outcome.split prod.split sum.split)
qed

text \<open>When a continuation runs, it has been removed, and with it the loop or attempt it belongs to.\<close>

lemma single_run_cont:
  assumes "single m n c" and "m \<le> 1" and "n \<le> 1" and "loop_gen k = Some (reconnectGeneration c) \<longrightarrow> m = 0"
  shows "single (Suc 0) (Suc 0) (run_cont h p k res c)"
proof -
  have c: "single (Suc 0) (Suc 0) c"
    using assms by (auto intro: single_mono)
  show ?thesis
  proof (cases k)
    case (ReconnectDelayed r a g i)
    with assms show ?thesis by (auto intro: single_reconnect_delayed)
  next
    case (ReconnectConnected r a g)
    with assms show ?thesis by (auto intro: single_reconnect_connected)
  qed (auto simp: c connect_opened_def health_status_def validate_response_def single_connect_fetched
      single_run_queued intro!: single_health_failed split: outcome.split pval.split sum.split)
qed

lemma single_run_timer: "single (Suc 0) n c \<Longrightarrow> single (Suc 0) n (run_timer h k c)"
  by (cases k) (auto simp: single_ensureHealthy)

lemma single_run_call: "single (Suc 0) (Suc 0) c \<Longrightarrow> single (Suc 0) (Suc 0) (run_call h a c)"
  by (cases a) (auto simp: single_connect single_disconnect send_def ask_def reply_def approve_def deny_def
      list_members_def status_def on_def off_def Let_def single_afterHealthy single_requestResponse
      newPromise_def split: option.split)

lemma act_single: "single (Suc 0) (Suc 0) c \<Longrightarrow> act h a c = Some d \<Longrightarrow> single (Suc 0) (Suc 0) d"
proof (cases a)
  case (Resume i)
  assume s: "single (Suc 0) (Suc 0) c" and "act h a c = Some d"
  with Resume obtain p k where i: "i < length (conts c)" "conts c ! i = (p, k)"
      and d: "d = run_cont h p k (promise_of c p) (c\<lparr>conts := take i (conts c) @ drop (Suc i) (conts c)\<rparr>)"
    by (auto split: if_splits prod.splits)
  let ?e = "c\<lparr>conts := take i (conts c) @ drop (Suc i) (conts c)\<rparr>"
  have "single (if loop_gen k = Some (reconnectGeneration c) then 0 else Suc 0) (Suc 0) ?e"
    using fenced_remove [of loop_gen "Suc 0" "reconnectGeneration c", OF _ i] s
      fenced_mono [OF fenced_remove [of fetch_gen "Suc 0" "connectionGeneration c", OF _ i], of "Suc 0"]
    by (simp add: single_def cong: if_cong)
  then show ?thesis
    unfolding d by (rule single_run_cont) auto
next
  case (Fire t)
  assume "single (Suc 0) (Suc 0) c" "act h a c = Some d"
  with Fire show ?thesis
    by (auto intro!: single_run_timer split: if_splits option.splits)
qed (auto simp: single_run_call uncaught_def single_messageHandler single_closeHandler single_errorHandler
    split: if_splits option.splits)

lemma single_new_client: "single (Suc 0) (Suc 0) (new_client cfg delay t)"
  by (simp add: single_def fenced_def new_client_def)

interpretation client_single: client_invariant h "single (Suc 0) (Suc 0)" for h
  by unfold_locales (rule act_single, assumption+, rule single_new_client)

end
