(* ===== verification/Client_Demo.thy ===== *)
theory Client_Demo
  imports Client_Generations
begin

text \<open>
  A concrete host and the states of a short session with it: connected, a message sent, stale,
  closed. The properties of the client are applied to these states.
\<close>

section \<open>A host and a session\<close>

definition demo_host :: client_host where
  "demo_host = \<lparr>idGenerator = nat_str, socketURLWithToken = (\<lambda>u t. Inr u), ws_constructor = (\<lambda>u. None),
     ws_initial = (\<lambda>u. 0), close_throws = (\<lambda>n r. None), buffer_from = (\<lambda>v. Inl JUndef),
     handler_throws = (\<lambda>i e. None)\<rparr>"

definition demo_config :: normalized_config where
  "demo_config = \<lparr>relayHttpUrl = ''http://r'', relayWsUrl = ''ws://r'', cfgDeviceName = ''d'',
     cfgDeviceId = None, cfgClientVersion = None\<rparr>"

definition no_options :: connect_options where
  "no_options = \<lparr>opt_deviceName = None, opt_deviceId = None, opt_clientVersion = None\<rparr>"

definition demo_response :: fetch_response where
  "demo_response = \<lparr>resp_ok = True, resp_status = 200, resp_statusText = None, resp_json = Inr (JObj
     [(''status'', JStr ''created''), (''channelId'', JStr ''c''), (''deviceId'', JStr ''a''),
      (''token'', JStr ''t''), (''wsUrl'', JStr ''w'')])\<rparr>"

definition connect_script :: "action list" where
  "connect_script = [Call (Connect ''c'' ''1'' no_options), FetchDone 1 (Inr demo_response), Resume 0,
     SockReady 0 1, SockOpen 0, Resume 0]"

definition demo_connect_response :: connect_response where
  "demo_connect_response = \<lparr>cr_status = ''created'', cr_channelId = ''c'', cr_deviceId = ''a'', cr_token = ''t'',
     cr_wsUrl = ''w'', cr_joinRequestId = None\<rparr>"

definition demo_request :: connect_request where
  "demo_request = \<lparr>rq_channelName = ''c'', rq_pin = ''1'', rq_deviceName = ''d'', rq_deviceId = None, rq_clientVersion = None\<rparr>"

definition demo_state :: relay_client_state where
  "demo_state = \<lparr>st_token = Some ''t'', st_channelId = Some ''c'', st_deviceId = Some ''a'', st_status = Some ''created'',
     st_joinRequestId = None, st_wsUrl = Some ''w'', st_transportStatus = Some Connected,
     st_lastRelayActivityAt = Some (iso_string 0), st_lastDisconnectedAt = None, st_lastCloseCode = None,
     st_lastCloseReason = None, st_reconnectAttempt = None\<rparr>"

text \<open>The client after a successful connect, its socket open and the heartbeat armed.\<close>

definition demo_open :: relay_client where
  "demo_open = (new_client demo_config None 0)
     \<lparr>promises := [Fulfilled (VConnect demo_connect_response), Fulfilled (VFetch demo_response), Fulfilled VUnit],
      timers := [(0, 25000, THeartbeat)], nextTimer := 1,
      log := [OFetch ''http://r/channels/connect'' (connect_body demo_request) 1, ONewSocket 0 ''w''],
      socket := Some 0, socketCleanup := Some 0, heartbeatTimer := Some 0, healthGeneration := 1,
      connectionGeneration := 1, reconnectGeneration := 1, lastConnectArgs := Some 0, client_state := demo_state,
      argsHeap := [\<lparr>arg_channel = ''c'', arg_pin = ''1'', arg_options = no_options\<lparr>opt_deviceId := Some ''a''\<rparr>\<rparr>],
      sockets := [\<lparr>ws_url = ''w'', ws_readyState = 1, ws_listening = True, ws_settled = True, ws_promise = 2\<rparr>]\<rparr>"

lemmas client_eval = new_client_def empty_state_def connect_def clearReconnectTimer_def closeCurrentSocket_def
  stopHeartbeat_def rejectResponseWaiters_def newPromise_def connectInternal_def emitLog_def await_def
  promise_of_def settle_def settled_def fetching_def listening_def connect_fetched_def
  connected_state_def connectionDiagnostics_def remember_device_def openSocket_def
  WEBSOCKET_OPEN_def upd_socket_def openHandler_def recordRelayActivity_def startHeartbeat_def setTimeout_def
  HEARTBEAT_INTERVAL_MS_def set_transport_def resolve_unit_def connect_opened_def jm_set_def Let_def

lemmas demo_eval = demo_host_def demo_config_def no_options_def demo_connect_response_def
  demo_request_def demo_state_def demo_open_def

lemma demo_check [simp]: "check_connect demo_response = Inr demo_connect_response"
  by (simp add: check_connect_def parseJSONResponse_def assertConnectResponse_def is_object_def
      demo_response_def demo_connect_response_def)

lemma connect_run: "run_actions (act demo_host) connect_script (new_client demo_config None 0) = Some demo_open"
  by (simp add: connect_script_def client_eval demo_eval)

lemma reachable_run: "run_actions (act h) as (new_client cfg delay t) = Some c \<Longrightarrow> reachable h c"
  by (rule run_reachable [OF _ reachable.start])

lemma demo_open_reachable: "reachable demo_host demo_open"
  by (rule reachable_run [OF connect_run])

text \<open>A message is sent over the fresh connection; its acknowledgement is awaited.\<close>

definition demo_event :: jsval where
  "demo_event = JObj [(''type'', JStr ''message.send''), (''to'', JStr ''b''),
     (''payload'', JObj [(''text'', JStr ''hi''), (''kind'', JStr ''send'')]),
     (''id'', JStr ''0''), (''channelId'', JStr ''c'')]"

definition demo_waiter :: waiter where
  "demo_waiter = \<lparr>w_responseType = ''message.ack'', w_timeoutCode = Some ''delivery_unknown'',
     w_requestEvent = demo_event, w_promise = 3, w_timer = 1\<rparr>"

definition demo_sent :: relay_client where
  "demo_sent = demo_open
     \<lparr>promises := promises demo_open @ [Pending, Pending], conts := [(3, Validate 4 MessageAckCheck)],
      timers := [(0, 25000, THeartbeat), (1, 100, TWaiter (JStr ''0'') 3 ''message.ack'' (Some ''delivery_unknown''))],
      nextTimer := 2, log := log demo_open @ [OSend 0 demo_event (json_stringify demo_event)],
      responseWaiters := [(JStr ''0'', demo_waiter)], idCount := 1\<rparr>"

lemmas json_eval = json_stringify_def json_quote_def quote_body.simps json_escape_def surrogate_tail_def

lemma demo_event_size: "length (json_stringify demo_event) \<le> MAX_FRAME"
  by (simp add: demo_event_def MAX_FRAME_def json_eval)

lemma demo_outbound:
  "js_spread (message_event MessageSend (JStr ''b'') [] ''hi'' ''send'')
     [(''id'', JStr (nat_str 0)), (''channelId'', JStr ''c'')] = demo_event"
  by (simp add: js_spread_def message_event_def demo_event_def nat_str_eval)

lemmas operation_eval = afterHealthy_def ensureHealthy_def socket_open_def stale_def run_operation_def
  requestResponse_def sendEvent_def

lemma demo_send_call: "send demo_host ''b'' ''hi'' 100 demo_open = (4, demo_sent)"
proof -
  have id: "get (message_event MessageSend (JStr ''b'') [] ''hi'' ''send'') ''id'' = JUndef"
    "get (message_event MessageSend (JStr ''b'') [] ''hi'' ''send'') ''channelId'' = JUndef"
    "get demo_event ''id'' = JStr ''0''"
    by (simp_all add: message_event_def demo_event_def)
  have "sendEvent demo_host (message_event MessageSend (JStr ''b'') [] ''hi'' ''send'') demo_open =
      (Inr demo_event, demo_open\<lparr>log := log demo_open @ [OSend 0 demo_event (json_stringify demo_event)], idCount := 1\<rparr>)"
    using demo_outbound demo_event_size
    by (simp add: sendEvent_def id js_nullish_def demo_open_def demo_host_def demo_state_def WEBSOCKET_OPEN_def Let_def
        emitLog_def new_client_def)
  then have "requestResponse demo_host (message_event MessageSend (JStr ''b'') [] ''hi'' ''send'') ''message.ack'' 100
        (Some ''delivery_unknown'') demo_open =
      (Inr 3, demo_sent\<lparr>conts := [], promises := promises demo_open @ [Pending]\<rparr>)"
    by (simp add: requestResponse_def id newPromise_def setTimeout_def Let_def demo_sent_def demo_open_def
        jm_set_def new_client_def demo_waiter_def)
  then have "run_operation demo_host (message_request (message_event MessageSend (JStr ''b'') [] ''hi'' ''send'') 100)
      demo_open = (Inr 4, demo_sent)"
    by (simp add: run_operation_def message_request_def newPromise_def await_def)
      (simp add: demo_sent_def demo_open_def new_client_def)
  moreover have "ensureHealthy demo_host demo_open = (None, demo_open)"
    by (simp add: ensureHealthy_def socket_open_def stale_def demo_open_def new_client_def
        WEBSOCKET_OPEN_def HEARTBEAT_INTERVAL_MS_def)
  ultimately show ?thesis
    by (simp add: send_def afterHealthy_def)
qed

lemma demo_send: "act demo_host (Call (Send ''b'' ''hi'' 100)) demo_open = Some demo_sent"
  by (simp add: demo_send_call)

lemma demo_sent_reachable: "reachable demo_host demo_sent"
  using demo_open_reachable demo_send by (blast intro: reachable.next_step client_step.step)

end
