(* ===== verification/Client_Race.thy ===== *)
theory Client_Race
  imports Client_Demo
begin

text \<open>
  A run in which an operation that is called while \<open>connect\<close> is still in flight starts a reconnect loop,
  and the loop closes the healthy connection that \<open>connect\<close> opened meanwhile. The specification
  (\<open>docs/specs/2026-07-19-issue-3-idle-connection-recovery.md\<close>) rules competing reconnects out.
\<close>

lemmas reconnect_eval = afterHealthy_def ensureHealthy_def socket_open_def stale_def start_health_check_def
  health_reconnect_def reconnect_def loop_head_def schedule_attempt_def emitError_upd handlers_of_def
  waitForReconnectDelay_def reconnect_delay_def MAX_RECONNECT_DELAY_MS_def

definition demo_message :: request where
  "demo_message = message_request (message_event MessageSend (JStr ''b'') [] ''hi'' ''send'') 100"

text \<open>Connect and send are called, the response arrives, the socket opens, connect returns.\<close>

definition race_script :: "action list" where
  "race_script = [Call (Connect ''c'' ''1'' no_options), Call (Send ''b'' ''hi'' 100),
     FetchDone 1 (Inr demo_response), Resume 0, SockReady 0 1, SockOpen 0, Resume 5]"

definition demo_raced :: relay_client where
  "demo_raced = demo_open
     \<lparr>promises := [Fulfilled (VConnect demo_connect_response), Fulfilled (VFetch demo_response), Pending, Pending,
        Pending, Pending, Fulfilled VUnit],
      conts := [(4, ReconnectDelayed 3 0 2 1), (3, ReconnectFinally), (3, HealthReconnected 2), (2, HealthFinally),
        (2, RunOperation 5 demo_message)],
      timers := [(0, 250, TReconnect 4), (1, 25000, THeartbeat)], nextTimer := 2, heartbeatTimer := Some 1,
      reconnectTimer := Some 0, reconnectTimerResolve := Some 4, reconnectPromise := Some 3,
      healthCheckPromise := Some 2, reconnectGeneration := 2,
      client_state := demo_state\<lparr>st_reconnectAttempt := Some 1\<rparr>,
      sockets := [\<lparr>ws_url = ''w'', ws_readyState = 1, ws_listening = True, ws_settled = True, ws_promise = 6\<rparr>]\<rparr>"

lemma race_run: "run_actions (act demo_host) race_script (new_client demo_config None 0) = Some demo_raced"
  by (simp add: race_script_def client_eval demo_eval reconnect_eval send_def demo_raced_def demo_message_def)

text \<open>The delay passes, the loop connects again, and its response is accepted.\<close>

definition teardown_script :: "action list" where
  "teardown_script = [Tick 250, Fire 0, Resume 0, FetchDone 8 (Inr demo_response), Resume 4]"

lemma teardown_run:
  "\<exists>d. run_actions (act demo_host) teardown_script demo_raced = Some d \<and> OClose 0 None None \<in> set (log d) \<and> socket d = Some 1"
  by (simp add: teardown_script_def client_eval demo_eval reconnect_eval demo_raced_def reconnect_delayed_def
      rejectBeforeOpen_def cleanup_def ws_close_def clearTimeout_def jm_delete_def)

fun environment :: "action \<Rightarrow> bool" where
  "environment (Tick d) = True"
| "environment (Fire t) = True"
| "environment (Resume i) = True"
| "environment (FetchDone p res) = True"
| "environment _ = False"

text \<open>C35. A departure from the documented single flight: there is a run after which the connection is open, fresh and
  reported as connected, and in which the outside then only lets time pass and answers a fetch, and yet the
  client closes that healthy socket and opens another. An operation that was called while the first connect
  was in flight had started a reconnect loop beside it.\<close>

theorem competing_reconnect_closes_healthy_socket:
  "\<exists>as bs c d. run_actions (act demo_host) as (new_client demo_config None 0) = Some c \<and>
     socket c = Some 0 \<and> socket_open c \<and> \<not> stale c \<and> st_transportStatus (client_state c) = Some Connected \<and>
     list_all environment bs \<and> run_actions (act demo_host) bs c = Some d \<and>
     OClose 0 None None \<in> set (log d) \<and> socket d = Some 1"
proof -
  obtain d where "run_actions (act demo_host) teardown_script demo_raced = Some d"
      "OClose 0 None None \<in> set (log d)" "socket d = Some 1"
    using teardown_run by blast
  moreover have "socket demo_raced = Some 0" "socket_open demo_raced" "\<not> stale demo_raced"
      "st_transportStatus (client_state demo_raced) = Some Connected"
    by (simp_all add: demo_raced_def demo_open_def demo_state_def socket_open_def stale_def new_client_def
        WEBSOCKET_OPEN_def HEARTBEAT_INTERVAL_MS_def)
  moreover have "list_all environment teardown_script"
    by (simp add: teardown_script_def)
  ultimately show ?thesis using race_run by blast
qed

end
