(* ===== verification/Client_Progress.thy ===== *)
theory Client_Progress
  imports Client_Waits Client_Race
begin

text \<open>
  The client comes to rest, and what it then waits for lies outside of it: the measure of \<open>Client_Rest\<close>
  bounds the continuations that run between two events, and the levels of \<open>Client_Waits\<close> rule out
  that promises wait for each other.
\<close>

fun is_resume :: "action \<Rightarrow> bool" where
  "is_resume (Resume i) = True"
| "is_resume _ = False"

interpretation client_inner: measured_system "act h" is_resume "apart {}" "\<lambda>c. weight c (conts c)" for h
proof
  fix c a d
  assume "apart {} c" "is_resume a" "act h a c = Some d"
  then show "apart {} d \<and> weight d (conts d) < weight c (conts c)"
    by (cases a) (simp_all del: act.simps add: resume_decreases)
qed

definition resting :: "relay_client \<Rightarrow> bool" where
  "resting c = list_all (\<lambda>(p, k). promise_of c p = Pending) (conts c)"

lemma resting_iff: "resting c \<longleftrightarrow> (\<forall>a. is_resume a \<longrightarrow> act h a c = None)"
proof
  assume "resting c"
  then have "act h (Resume i) c = None" for i
    by (cases "conts c ! i") (auto simp: resting_def list_all_length)
  then show "\<forall>a. is_resume a \<longrightarrow> act h a c = None" by (metis is_resume.elims(2))
next
  assume "\<forall>a. is_resume a \<longrightarrow> act h a c = None"
  then have "act h (Resume i) c = None" for i by (simp del: act.simps)
  then show "resting c" by (fastforce simp: resting_def list_all_length split: prod.splits if_splits)
qed

text \<open>C32. Between two events from outside the client comes to rest. From a reachable state its continuations can
  run in any order, but at most four times as many as there are now, although the reconnect loop and the operations
  behind a health check keep adding new ones; and every such run can be continued until none is ready.\<close>

theorem client_comes_to_rest:
  assumes "reachable h c"
  shows "(\<forall>as d. run_actions (act h) as c = Some d \<longrightarrow> list_all is_resume as \<longrightarrow> length as \<le> 4 * length (conts c)) \<and>
    (\<exists>as d. run_actions (act h) as c = Some d \<and> list_all is_resume as \<and> resting d)"
proof -
  have c: "apart {} c" using assms by (rule client_apart.reachable_inv)
  have "length as \<le> 4 * length (conts c)" if "run_actions (act h) as c = Some d" "list_all is_resume as" for as d
    using client_inner.inner_run [OF that c] weight_le [of c "conts c"] by linarith
  with client_inner.comes_to_rest [OF c, of h] show ?thesis by (auto simp: resting_iff [of _ h])
qed

text \<open>C2. No operation is left hanging, and no part of the client waits for itself. Every promise that is not settled
  progresses: it is settled by an armed timer, by the answer to a fetch in flight, by the socket that is opening, or by a
  continuation whose own promise is settled or progresses; the chain of continuations ends, so when the
  client is at rest it ends outside.\<close>

theorem no_deadlock:
  assumes "reachable h c" and "p < length (promises c)" and "promise_of c p = Pending"
  shows "progresses c p \<and> (resting c \<longrightarrow> timers c \<noteq> [] \<or> (\<exists>q. fetching c q) \<or> (\<exists>s. pendingOpenReject c = Some s \<and> listening c s))"
proof
  have "sound {} c" "graded {} c"
    using assms(1) by (rule client_sound.reachable_inv, rule client_graded.reachable_inv)
  then show "progresses c p" using assms(2,3) by (auto intro!: pending_progresses simp: pending_def promise_of_def)
  then show "resting c \<longrightarrow> timers c \<noteq> [] \<or> (\<exists>q. fetching c q) \<or> (\<exists>s. pendingOpenReject c = Some s \<and> listening c s)"
    by induction (auto simp: armed_def resting_def list_all_iff)
qed

theorem no_deadlock_witness: "progresses demo_raced 5"
proof -
  have "reachable demo_host demo_raced" by (rule reachable_run [OF race_run])
  moreover have "5 < length (promises demo_raced)" "promise_of demo_raced 5 = Pending"
    by (simp_all add: demo_raced_def promise_of_def)
  ultimately show ?thesis using no_deadlock by blast
qed

theorem client_comes_to_rest_witness:
  "\<exists>c as d. run_actions (act demo_host) [Tick 250, Fire 0] demo_raced = Some c \<and> \<not> resting c \<and>
     run_actions (act demo_host) as c = Some d \<and> list_all is_resume as \<and> resting d"
proof -
  obtain c where c: "run_actions (act demo_host) [Tick 250, Fire 0] demo_raced = Some c" "\<not> resting c"
    by (simp add: demo_raced_def demo_open_def new_client_def clearTimeout_def resolve_unit_def settle_def settled_def
        jm_delete_def resting_def promise_of_def)
  have "reachable demo_host c" by (rule run_reachable [OF c(1) reachable_run [OF race_run]])
  from client_comes_to_rest [OF this] c show ?thesis by blast
qed

end
