(* ===== verification/Client_Trace.thy ===== *)
theory Client_Trace
  imports Client_Effects Client_Race
begin

text \<open>
  The client refines a link. The link is the abstract view a relay has of one client: it is asked to let
  the client connect, and each such request entitles it to one socket; sockets are opened one after the
  other; frames come over the last one, until it is closed, which happens at most once. The effects in
  the log of the client are a run of the link, and its current socket is the link's.
\<close>

section \<open>The link\<close>

record link =
  link_current :: "nat option"
  link_opened :: nat
  link_entitled :: nat

definition new_link :: link where
  "new_link = \<lparr>link_current = None, link_opened = 0, link_entitled = 0\<rparr>"

fun link_step :: "effect \<Rightarrow> link \<Rightarrow> link option" where
  "link_step (OFetch url body p) l = Some (l\<lparr>link_entitled := link_entitled l + 1\<rparr>)"
| "link_step (ONewSocket s url) l =
     (if s = link_opened l \<and> 0 < link_entitled l
      then Some \<lparr>link_current = Some s, link_opened = s + 1, link_entitled = link_entitled l - 1\<rparr> else None)"
| "link_step (OSend s event text) l = (if link_current l = Some s then Some l else None)"
| "link_step (OClose s code reason) l =
     (if link_current l = Some s then Some (l\<lparr>link_current := None\<rparr>) else None)"
| "link_step (ODispatch hid event) l = Some l"
| "link_step (OUncaught err) l = Some l"

definition mute :: "effect \<Rightarrow> bool" where
  "mute e = (case e of ODispatch _ _ \<Rightarrow> True | OUncaught _ \<Rightarrow> True | _ \<Rightarrow> False)"

lemma mute_simps [simp]: "mute (ODispatch i e)" "mute (OUncaught x)" "\<not> mute (OFetch u b p)" "\<not> mute (ONewSocket s u)"
    "\<not> mute (OSend s e t)" "\<not> mute (OClose s c r)"
  by (simp_all add: mute_def)

lemma mute_step: "mute e \<Longrightarrow> link_step e l = Some l"
  by (cases e) simp_all

lemma mute_run: "list_all mute es \<Longrightarrow> run_actions link_step es l = Some l"
  by (induction es) (simp_all add: mute_step)

section \<open>The simulation\<close>

text \<open>
  The link has opened the sockets of the client, the client's current socket is the link's, and the
  link is entitled to a socket for every fetch in flight and for \<open>n\<close> more.
\<close>

definition fetches :: "(nat \<times> cont) list \<Rightarrow> nat" where
  "fetches ks = length (filter (is_fetch \<circ> snd) ks)"

lemma fetches_simps [simp]: "fetches [] = 0" "fetches (ks @ ls) = fetches ks + fetches ls"
    "fetches [(p, k)] = (if is_fetch k then 1 else 0)"
  by (simp_all add: fetches_def)

definition link_of :: "nat \<Rightarrow> relay_client \<Rightarrow> link \<Rightarrow> bool" where
  "link_of n c l = (link_opened l = length (sockets c) \<and> (socket c = None \<or> socket c = link_current l) \<and>
     fetches (conts c) + n \<le> link_entitled l)"

definition tracks :: "nat \<Rightarrow> relay_client \<Rightarrow> bool" where
  "tracks n c = (\<exists>l. run_actions link_step (log c) new_link = Some l \<and> link_of n c l)"

lemma tracks_new_client: "tracks 0 (new_client cfg delay t)"
  by (simp add: tracks_def link_of_def new_client_def new_link_def)

lemma tracks_less: "tracks n c \<Longrightarrow> m \<le> n \<Longrightarrow> tracks m c"
  by (auto simp: tracks_def link_of_def)

text \<open>An operation the link does not see.\<close>

definition unseen :: "relay_client \<Rightarrow> relay_client \<Rightarrow> bool" where
  "unseen c d = ((\<exists>es. log d = log c @ es \<and> list_all mute es) \<and> length (sockets d) = length (sockets c) \<and>
     (socket d = None \<or> socket d = socket c) \<and> fetches (conts d) = fetches (conts c))"

lemma unseen_tracks: "tracks n c \<Longrightarrow> unseen c d \<Longrightarrow> tracks n d"
  by (auto simp: tracks_def unseen_def link_of_def run_actions_append mute_run)

lemma unseen_refl [simp]: "unseen c c"
  by (simp add: unseen_def)

lemma unseen_same:
  assumes "log d = log c" and "sockets d = sockets c" and "socket d = socket c" and "conts d = conts c"
  shows "unseen b d = unseen b c" and "tracks n d = tracks n c"
  using assms by (simp_all add: unseen_def tracks_def link_of_def)

lemma tracks_fields [simp]:
  "tracks n (d\<lparr>promises := ps\<rparr>) = tracks n d"
  "tracks n (d\<lparr>client_state := st\<rparr>) = tracks n d"
  "tracks n (d\<lparr>reconnectAttempt := a\<rparr>) = tracks n d"
  "tracks n (d\<lparr>reconnectGeneration := i\<rparr>) = tracks n d"
  "tracks n (d\<lparr>healthGeneration := i\<rparr>) = tracks n d"
  "tracks n (d\<lparr>connectionGeneration := i\<rparr>) = tracks n d"
  "tracks n (d\<lparr>reconnectPromise := p\<rparr>) = tracks n d"
  "tracks n (d\<lparr>healthCheckPromise := p\<rparr>) = tracks n d"
  "tracks n (d\<lparr>explicitDisconnect := b\<rparr>) = tracks n d"
  "tracks n (d\<lparr>argsHeap := ah\<rparr>) = tracks n d"
  "tracks n (d\<lparr>lastConnectArgs := la\<rparr>) = tracks n d"
  "tracks n (d\<lparr>handlers := hs\<rparr>) = tracks n d"
  "tracks n (d\<lparr>timers := ts\<rparr>) = tracks n d"
  "tracks n (d\<lparr>nextTimer := i\<rparr>) = tracks n d"
  "tracks n (d\<lparr>now := t\<rparr>) = tracks n d"
  "tracks n (d\<lparr>idCount := i\<rparr>) = tracks n d"
  "tracks n (d\<lparr>heartbeatTimer := x\<rparr>) = tracks n d"
  "tracks n (d\<lparr>reconnectTimer := x\<rparr>) = tracks n d"
  "tracks n (d\<lparr>reconnectTimerResolve := x\<rparr>) = tracks n d"
  "tracks n (d\<lparr>responseWaiters := ws\<rparr>) = tracks n d"
  "tracks n (settle q v d) = tracks n d"
  "tracks n (resolve_unit q d) = tracks n d"
  "tracks n (snd (newPromise w d)) = tracks n d"
  "tracks n (clearTimeout i d) = tracks n d"
  "tracks n (snd (setTimeout tm i d)) = tracks n d"
  by (rule unseen_same; simp add: settle_def resolve_unit_def newPromise_def clearTimeout_def setTimeout_def)+

lemma unseen_dispatch: "unseen c (emitError code err ds c)" "unseen c (emit h ty event c)"
  by (auto simp: unseen_def emitError_upd emit_upd list_all_iff handler_effects_def split: option.splits if_splits)

lemma unseen_state: "unseen c (recordRelayActivity c)" "unseen c (clearReconnectTimer c)" "unseen c (stopHeartbeat c)"
    "unseen c (rejectResponseWaiters m c)" "unseen c (cleanup s c)" "unseen c (waiter_timeout q p ty code c)"
    "unseen c (remember_device ch pin dv c)" "unseen c (rejectBeforeOpen s e c)" "unseen c (upd_socket s f c)"
    "unseen c (c\<lparr>socket := None\<rparr>)"
  by (simp_all add: unseen_def upd remember_device_def rejectBeforeOpen_def upd_socket_def settle_def Let_def split: option.split)

lemma unseen_openHandler: "unseen c (openHandler s c)"
  by (simp add: unseen_def openHandler_def Let_def upd_socket_def set_transport_def recordRelayActivity_upd
      resolve_unit_def settle_def)

lemma unseen_inbound: "unseen c (resolveResponseWaiter event c)" "unseen c (applyStateEvent event c)"
    "unseen c (record_reply_target event c)"
  by (simp_all add: unseen_def resolveResponseWaiter_def drop_waiter_def resolve_waiter_def clearTimeout_def settle_def
      applyStateEvent_def record_reply_target_def Let_def split: option.split)

lemmas tracks_unseen = unseen_dispatch [THEN [2] unseen_tracks] unseen_state [THEN [2] unseen_tracks]
  unseen_openHandler [THEN [2] unseen_tracks] unseen_inbound [THEN [2] unseen_tracks]

lemma tracks_await: "tracks n c \<Longrightarrow> \<not> is_fetch k \<Longrightarrow> tracks n (await p k c)"
  by (simp add: tracks_def link_of_def await_def)

section \<open>The operations\<close>

lemma tracks_uncaught: "tracks n (snd r) \<Longrightarrow> tracks n (uncaught r)"
  by (erule unseen_tracks) (auto simp: unseen_def uncaught_def emitLog_def split: option.split)

lemma tracks_messageHandler: "tracks n c \<Longrightarrow> tracks n (snd (messageHandler h s v c))"
  by (auto simp: messageHandler_def handleSocketMessage_def intro!: tracks_unseen split: sum.split option.split)

lemma tracks_sendEvent: "tracks n c \<Longrightarrow> tracks n (snd (sendEvent h event c))"
  by (auto simp: sendEvent_def tracks_def link_of_def emitLog_def run_actions_append Let_def split: option.split)

lemma tracks_requestResponse: "tracks n c \<Longrightarrow> tracks n (snd (requestResponse h event ty ms code c))"
  using tracks_sendEvent [of n c h event]
  by (cases "sendEvent h event c") (auto simp: requestResponse_def case_prod_unfold Let_def split: sum.split)

lemma tracks_closeCurrentSocket:
  assumes s: "sound X c" and t: "tracks n c"
  shows "tracks n (closeCurrentSocket code reason b c)"
proof -
  have "length (sockets (closeCurrentSocket code reason b c)) = length (sockets c)"
    by (simp add: closeCurrentSocket_def Let_def rejectBeforeOpen_def upd_socket_def settle_def upd split: option.split)
  then show ?thesis
    using t closeCurrentSocket_gone [OF s, of code reason b]
    by (auto simp: tracks_def link_of_def no_connection_def step_simps run_actions_append split: option.split)
qed

lemma tracks_openSocket:
  assumes s: "sound X c" and t: "tracks (Suc n) c"
  shows "tracks n (snd (openSocket h url token c))"
proof -
  define c1 where "c1 = closeCurrentSocket None None True c"
  have c1: "tracks (Suc n) c1" using tracks_closeCurrentSocket [OF s t] by (simp add: c1_def)
  then have "tracks n (emitLog (ONewSocket (length (sockets c1)) u) (c1\<lparr>promises := ps, sockets := sockets c1 @ [k],
      socket := Some (length (sockets c1)), socketCleanup := i, pendingOpenReject := j\<rparr>))" (is "tracks n (?d u ps k i j)") for u ps k i j
    by (auto simp: tracks_def link_of_def emitLog_def run_actions_append)
  moreover have "tracks n c1" using c1 by (rule tracks_less) simp
  ultimately show ?thesis
    by (auto simp: openSocket_def c1_def [symmetric] Let_def newPromise_def split: sum.split option.split intro: tracks_unseen)
qed

lemma tracks_connectInternal: "tracks n c \<Longrightarrow> tracks n (connectInternal h ch pin opts r c)"
  by (auto simp: connectInternal_def tracks_def link_of_def newPromise_def emitLog_def await_def run_actions_append Let_def)

lemma tracks_connect_fetched:
  assumes s: "sound X c" and t: "tracks (Suc n) c"
  shows "tracks n (connect_fetched h r g ch pin res c)"
proof (cases rule: connect_fetched_cases [of h r g ch pin res c])
  case (opened resp cr c2 x c3)
  have "sound X c2" "tracks (Suc n) c2"
    using s t unfolding opened(5) by (simp_all add: sound_remember_device tracks_unseen)
  then have "tracks n c3" using tracks_openSocket opened(6) by (metis snd_conv)
  then show ?thesis unfolding opened(7) by (simp add: tracks_await split: sum.split)
qed (use tracks_less [OF t] in simp_all)

lemma tracks_loop_head: "tracks n c \<Longrightarrow> tracks n (loop_head r a g c)"
  by (auto simp: loop_head_def schedule_attempt_def waitForReconnectDelay_def case_prod_unfold Let_def
      intro!: tracks_await tracks_unseen)

lemma tracks_reconnect_delayed: "tracks n c \<Longrightarrow> tracks n (reconnect_delayed h r a g i c)"
  by (auto simp: reconnect_delayed_def case_prod_unfold Let_def intro!: tracks_await tracks_connectInternal tracks_unseen)

lemma tracks_reconnect_connected: "tracks n c \<Longrightarrow> tracks n (reconnect_connected r a g res c)"
  by (auto simp: reconnect_connected_def intro!: tracks_loop_head tracks_unseen split: outcome.split)

lemma tracks_reconnect: "tracks n c \<Longrightarrow> tracks n (snd (reconnect c))"
  by (auto simp: reconnect_def case_prod_unfold Let_def intro!: tracks_await tracks_loop_head split: option.split)

lemma tracks_health_reconnect: "tracks n c \<Longrightarrow> tracks n (health_reconnect r g c)"
  by (auto simp: health_reconnect_def case_prod_unfold Let_def intro!: tracks_await tracks_reconnect)

lemma tracks_health_failed: "sound X c \<Longrightarrow> tracks n c \<Longrightarrow> tracks n (health_failed r g e c)"
  by (auto simp: health_failed_def Let_def intro!: tracks_health_reconnect tracks_closeCurrentSocket [of X] tracks_unseen)

lemma tracks_start_health_check:
  assumes s: "sound X c" and t: "tracks n c"
  shows "tracks n (start_health_check h r c)"
proof -
  obtain x c1 where x: "requestStatus h HEARTBEAT_TIMEOUT_MS c = (x, c1)" by fastforce
  have "sound X c1" "tracks n c1"
    using x sound_requestResponse [OF s] tracks_requestResponse [OF t] by (metis requestStatus_def snd_conv)+
  with x s t show ?thesis
    by (auto simp: start_health_check_def Let_def intro: tracks_await tracks_health_failed tracks_health_reconnect split: sum.split)
qed

lemma tracks_ensureHealthy:
  assumes s: "sound X c" and t: "tracks n c"
  shows "tracks n (snd (ensureHealthy h c))"
proof -
  have "sound (insert (length (promises c)) X) (snd (newPromise Pending c))" using s by (rule sound_newPromise)
  then have "tracks n (start_health_check h (length (promises c)) (snd (newPromise Pending c)))"
    using t by (auto intro: tracks_start_health_check)
  with t show ?thesis
    by (auto simp: ensureHealthy_def Let_def case_prod_unfold intro: tracks_await split: option.split)
qed

lemma tracks_run_operation: "tracks n c \<Longrightarrow> tracks n (snd (run_operation h rq c))"
  using tracks_requestResponse [of n c h "req_event rq" "req_responseType rq" "req_timeoutMs rq" "req_timeoutCode rq"]
  by (cases "requestResponse h (req_event rq) (req_responseType rq) (req_timeoutMs rq) (req_timeoutCode rq) c")
    (auto simp: run_operation_def case_prod_unfold intro: tracks_await split: sum.split)

lemma tracks_run_queued: "tracks n c \<Longrightarrow> tracks n (run_queued h r rq res c)"
  using tracks_run_operation [of n c h rq]
  by (cases "run_operation h rq c") (auto simp: run_queued_def intro: tracks_await split: outcome.split sum.split)

lemma tracks_afterHealthy:
  assumes s: "sound X c" and t: "tracks n c"
  shows "tracks n (snd (afterHealthy h rq c))"
proof -
  obtain x c1 where x: "ensureHealthy h c = (x, c1)" by fastforce
  then have c1: "tracks n c1" using tracks_ensureHealthy [OF s t] by (metis snd_conv)
  obtain y c2 where y: "run_operation h rq c1 = (y, c2)" by fastforce
  then have "tracks n c2" using tracks_run_operation [OF c1] by (metis snd_conv)
  with c1 x y show ?thesis
    by (auto simp: afterHealthy_def case_prod_unfold intro: tracks_await split: option.split sum.split)
qed

lemma tracks_connect:
  assumes s: "sound X c" and t: "tracks n c"
  shows "tracks n (snd (connect h ch pin opts c))"
proof -
  have "tracks n (closeCurrentSocket code reason b (d\<lparr>reconnectPromise := p, healthCheckPromise := q\<rparr>))"
    if "sound X d" "tracks n d" for code reason b d p q
    by (rule tracks_closeCurrentSocket [of X]) (simp_all add: that)
  moreover have "sound X (clearReconnectTimer (c\<lparr>reconnectGeneration := i, healthGeneration := j\<rparr>))"
      "tracks n (clearReconnectTimer (c\<lparr>reconnectGeneration := i, healthGeneration := j\<rparr>))" for i j
    using s t by (simp_all add: sound_clearReconnectTimer tracks_unseen)
  ultimately show ?thesis
    by (auto simp: connect_def Let_def case_prod_unfold intro!: tracks_connectInternal)
qed

lemma tracks_disconnect:
  assumes s: "sound X c" and t: "tracks n c"
  shows "tracks n (snd (disconnect h code reason c))"
proof -
  have "tracks n (closeCurrentSocket cd reason b (clearReconnectTimer (c\<lparr>explicitDisconnect := True,
      connectionGeneration := g, reconnectGeneration := i, healthGeneration := j, healthCheckPromise := p\<rparr>)))" for cd b g i j p
    by (rule tracks_closeCurrentSocket [of X]) (use s t in \<open>simp_all add: sound_clearReconnectTimer tracks_unseen\<close>)
  then show ?thesis by (simp add: disconnect_def Let_def split: option.split)
qed

lemma tracks_closeHandler: "tracks n c \<Longrightarrow> tracks n (closeHandler s v c)"
  by (auto simp: closeHandler_def scheduleReconnect_def Let_def intro!: tracks_reconnect tracks_unseen)

lemma tracks_errorHandler:
  assumes t: "tracks n c"
  shows "tracks n (errorHandler s v c)"
proof (cases "socket c = Some s \<and> \<not> ws_settled (sockets c ! s)")
  case True
  then have "socket (rejectBeforeOpen s e c) = None" "sockets (rejectBeforeOpen s e c) = (sockets c)[s := x] \<Longrightarrow> True"
      "length (sockets (rejectBeforeOpen s e c)) = length (sockets c)"
      "log (rejectBeforeOpen s e c) = log c" "conts (rejectBeforeOpen s e c) = conts c" for e x
    by (simp_all add: rejectBeforeOpen_def upd_socket_def settle_def cleanup_upd Let_def)
  with True t show ?thesis
    by (auto simp: errorHandler_def tracks_def link_of_def ws_close_upd run_actions_append)
next
  case False
  with t show ?thesis by (auto simp: errorHandler_def intro: tracks_unseen)
qed

section \<open>Every action\<close>

lemma tracks_run_call: "sound X c \<Longrightarrow> tracks n c \<Longrightarrow> tracks n (run_call h a c)"
  by (cases a) (auto simp: tracks_connect tracks_disconnect tracks_sendEvent tracks_requestResponse send_def ask_def reply_def
      approve_def deny_def list_members_def status_def on_def off_def tracks_afterHealthy Let_def split: option.split)

lemma tracks_fire:
  assumes s: "sound X c" and t: "tracks n c" and k: "jm_get (timers c) t = Some (d, k)"
  shows "tracks n (run_timer h k (clearTimeout t c))"
proof (cases k)
  case THeartbeat
  with s k have "heartbeatTimer c = Some t" by (auto simp: sound_def heart_ok_def)
  then have "(clearTimeout t c)\<lparr>heartbeatTimer := None\<rparr> = stopHeartbeat c" by (simp add: stopHeartbeat_def)
  with THeartbeat s t show ?thesis
    by (simp add: tracks_ensureHealthy [of X] sound_stopHeartbeat tracks_unseen)
qed (use t in \<open>simp_all add: tracks_unseen\<close>)

lemma tracks_resume:
  assumes t: "tracks n c" and i: "i < length (conts c)" "conts c ! i = (p, k)"
  shows "tracks (n + (if is_fetch k then 1 else 0)) (c\<lparr>conts := take i (conts c) @ drop (Suc i) (conts c)\<rparr>)"
proof -
  let ?ks = "take i (conts c) @ drop (Suc i) (conts c)"
  have split: "conts c = take i (conts c) @ [(p, k)] @ drop (Suc i) (conts c)"
    using id_take_nth_drop [OF i(1)] i(2) by simp
  have "fetches (conts c) = fetches ?ks + (if is_fetch k then 1 else 0)"
    unfolding arg_cong [OF split, of fetches] fetches_simps by simp
  with t show ?thesis by (auto simp: tracks_def link_of_def)
qed

lemma tracks_connect_opened: "tracks n c \<Longrightarrow> tracks n (connect_opened r cr res c)"
  by (simp add: connect_opened_def split: outcome.split)

lemma tracks_health_status: "sound X c \<Longrightarrow> tracks n c \<Longrightarrow> tracks n (health_status r g res c)"
  by (simp add: health_status_def tracks_health_failed split: outcome.split)

lemma tracks_validate_response: "tracks n c \<Longrightarrow> tracks n (validate_response r chk res c)"
  by (simp add: validate_response_def split: outcome.split pval.split sum.split)

lemma tracks_run_cont:
  assumes s: "sound X c" and t: "tracks (n + (if is_fetch k then 1 else 0)) c"
  shows "tracks n (run_cont h p k res c)"
proof (cases "is_fetch k")
  case True
  with t tracks_connect_fetched [OF s] show ?thesis by (cases k) simp_all
next
  case False
  with t have "tracks n c" by simp
  with False s show ?thesis
    by (cases k) (simp_all add: tracks_connect_opened tracks_reconnect_delayed tracks_reconnect_connected
      tracks_health_status [OF s] tracks_run_queued tracks_validate_response)
qed

lemma tracks_act: "sound {} c \<Longrightarrow> tracks 0 c \<Longrightarrow> act h a c = Some d \<Longrightarrow> tracks 0 d"
proof (cases a)
  case (Resume i)
  assume s: "sound {} c" and t: "tracks 0 c" and "act h a c = Some d"
  then obtain p k where i: "i < length (conts c)" "conts c ! i = (p, k)" "promise_of c p \<noteq> Pending"
    and d: "d = run_cont h p k (promise_of c p) (c\<lparr>conts := take i (conts c) @ drop (Suc i) (conts c)\<rparr>)"
    using Resume by (auto split: if_splits prod.splits)
  show ?thesis unfolding d
    using tracks_run_cont [OF sound_resume [OF s i(1,2,3)], of 0] tracks_resume [OF t i(1,2)] by simp
next
  case (Fire t)
  assume "sound {} c" "tracks 0 c" "act h a c = Some d"
  with Fire show ?thesis by (auto intro: tracks_fire split: if_splits option.splits)
qed (auto simp: tracks_run_call tracks_closeHandler tracks_errorHandler tracks_unseen tracks_messageHandler
    intro!: tracks_uncaught split: if_splits)

interpretation client_tracks: client_invariant h "\<lambda>c. sound {} c \<and> tracks 0 c" for h
  by unfold_locales (blast intro: sound_act tracks_act, simp add: sound_new_client tracks_new_client)

text \<open>C11. The client refines a link. Whatever is called and whatever happens, the requests, sockets, frames and closes
  of a client are a run of the link, and the link it leads to has opened the sockets of the client and
  has its current socket: sockets are opened in order and each on behalf of a connect request of its
  own, no frame is written to a socket that is not the last one or that the client has closed, and no socket is closed
  twice.\<close>

theorem client_refines_link:
  assumes "reachable h c"
  shows "\<exists>l. run_actions link_step (log c) new_link = Some l \<and> link_opened l = length (sockets c) \<and>
    (socket c = None \<or> socket c = link_current l) \<and> fetches (conts c) \<le> link_entitled l"
  using client_tracks.reachable_inv [OF assms] by (simp add: tracks_def link_of_def)

theorem client_refines_link_witness:
  "\<exists>l. run_actions link_step (log demo_sent) new_link = Some l \<and> link_current l = Some 0 \<and> link_opened l = 1"
proof -
  have "socket demo_sent = Some 0" "length (sockets demo_sent) = 1" by (simp_all add: demo_sent_def demo_open_def)
  with client_refines_link [OF demo_sent_reachable] show ?thesis by auto
qed

end
