(* ===== verification/Wire_Types.thy ===== *)
theory Wire_Types
  imports Protocol
begin

text \<open>
  The interfaces of the wire (\<open>extension/src/client/protocol.ts\<close>) as types, and what it means that a
  JavaScript value conforms to one. TypeScript erases them: at run time a relay event is whatever was
  parsed, so that it conforms is a fact about the relay, which the client either checks or relies on.
\<close>

section \<open>Types and conformance\<close>

text \<open>
  Object types are open, as every payload extends \<open>Record<string, unknown>\<close>: a list of members with the
  flag whether they are required. An optional member may be absent or \<open>undefined\<close>, but not null.
\<close>

datatype ts_type =
    TString
  | TBoolean
  | TLiteral "string list"
  | TArray ts_type
  | TObject "(string \<times> bool \<times> ts_type) list"

lemma member_smaller: "(k, r, t) \<in> set ms \<Longrightarrow> size t < Suc (size_list (size_prod (\<lambda>_. 0) (size_prod (\<lambda>_. 0) size)) ms)"
  by (induction ms) auto

function conforms :: "ts_type \<Rightarrow> jsval \<Rightarrow> bool" where
  "conforms TString v = (as_string v \<noteq> None)"
| "conforms TBoolean v = is_boolean v"
| "conforms (TLiteral ls) v = (case as_string v of None \<Rightarrow> False | Some s \<Rightarrow> s \<in> set ls)"
| "conforms (TArray t) v = (case v of JArr vs \<Rightarrow> list_all (conforms t) vs | _ \<Rightarrow> False)"
| "conforms (TObject ms) v =
     (is_object v \<and> list_all (\<lambda>(k, required, t). \<not> required \<and> get v k = JUndef \<or> conforms t (get v k)) ms)"
  by pat_completeness auto
termination
  by (relation "measure (size \<circ> fst)") (auto simp: member_smaller)


abbreviation required :: "string \<Rightarrow> ts_type \<Rightarrow> string \<times> bool \<times> ts_type" where
  "required k t \<equiv> (k, True, t)"

abbreviation optional :: "string \<Rightarrow> ts_type \<Rightarrow> string \<times> bool \<times> ts_type" where
  "optional k t \<equiv> (k, False, t)"

section \<open>The interfaces\<close>

definition RelayEvent :: "ts_type \<Rightarrow> ts_type" where
  "RelayEvent TPayload = TObject
     [optional ''id'' TString, required ''type'' TString, optional ''channelId'' TString, optional ''from'' TString,
      optional ''to'' TString, optional ''replyTo'' TString, optional ''payload'' TPayload]"

definition MessagePayload :: ts_type where
  "MessagePayload = TObject
     [required ''text'' TString, optional ''kind'' (TLiteral [''send'', ''ask'', ''reply''])]"

definition MessageAckPayload :: ts_type where
  "MessageAckPayload = TObject [required ''status'' (TLiteral [''delivered'']), required ''deviceId'' TString]"

definition JoinRequestPayload :: ts_type where
  "JoinRequestPayload = TObject
     [required ''joinRequestId'' TString, required ''deviceId'' TString, required ''deviceName'' TString]"

definition JoinDecisionPayload :: ts_type where
  "JoinDecisionPayload = TObject [required ''joinRequestId'' TString]"

definition JoinDecisionAckPayload :: ts_type where
  "JoinDecisionAckPayload = TObject
     [required ''joinRequestId'' TString, required ''deviceId'' TString,
      required ''decision'' (TLiteral [''approved'', ''denied''])]"

definition ListMember :: ts_type where
  "ListMember = TObject
     [required ''deviceId'' TString, required ''deviceName'' TString, required ''online'' TBoolean,
      required ''owner'' TBoolean]"

definition ListResponsePayload :: ts_type where
  "ListResponsePayload = TObject [required ''ownerId'' TString, required ''members'' (TArray ListMember)]"

definition StatusResponsePayload :: ts_type where
  "StatusResponsePayload = TObject
     [required ''status'' TString, required ''channelId'' TString, required ''deviceId'' TString,
      required ''ownerId'' TString, optional ''joinRequestId'' TString]"

definition ErrorPayload :: ts_type where
  "ErrorPayload = TObject [required ''code'' TString, required ''message'' TString, optional ''replyTo'' TString]"

text \<open>\<open>Record<string, unknown>\<close>, the payload of the events without an interface of their own.\<close>

definition any_payload :: ts_type where
  "any_payload = TObject []"

definition payload_type :: "string \<Rightarrow> ts_type" where
  "payload_type ty =
     (if ty \<in> {wire MessageSend, wire MessageAsk, wire MessageReply, wire MessageBroadcast} then MessagePayload
      else if ty = wire MessageAck then MessageAckPayload
      else if ty = wire JoinRequest then JoinRequestPayload
      else if ty \<in> {wire JoinApprove, wire JoinDeny} then JoinDecisionPayload
      else if ty = wire JoinDecisionAck then JoinDecisionAckPayload
      else if ty = wire ListResponse then ListResponsePayload
      else if ty = wire StatusResponse then StatusResponsePayload
      else if ty = wire Error then ErrorPayload
      else any_payload)"

text \<open>A relay event whose payload, when it has one, is that of its type.\<close>

definition event_ok :: "jsval \<Rightarrow> bool" where
  "event_ok event =
     (case as_string (get event ''type'') of
        None \<Rightarrow> False
      | Some ty \<Rightarrow> conforms (RelayEvent (payload_type ty)) event)"

lemmas interface_defs = MessagePayload_def MessageAckPayload_def JoinRequestPayload_def JoinDecisionPayload_def
  JoinDecisionAckPayload_def ListMember_def ListResponsePayload_def StatusResponsePayload_def ErrorPayload_def any_payload_def

section \<open>Events that conform\<close>

lemma event_okD:
  assumes "event_ok event"
  shows "is_object event" and "\<exists>ty. get event ''type'' = JStr ty"
    and "get event ''id'' \<noteq> JUndef \<Longrightarrow> \<exists>x. get event ''id'' = JStr x"
    and "get event ''from'' \<noteq> JUndef \<Longrightarrow> \<exists>x. get event ''from'' = JStr x"
    and "get event ''channelId'' \<noteq> JUndef \<Longrightarrow> \<exists>x. get event ''channelId'' = JStr x"
    and "get event ''type'' = JStr ty \<Longrightarrow> get event ''payload'' \<noteq> JUndef \<Longrightarrow>
      conforms (payload_type ty) (get event ''payload'')"
  using assms by (auto simp: event_ok_def RelayEvent_def split: option.splits)

text \<open>What \<open>sendEvent\<close> adds to an event, an id and the channel, leaves it conforming.\<close>

lemma get_spread_two:
  "get (js_spread v [(a, x), (b, y)]) k = (if k = b then y else if k = a then x else get v k)"
  by (simp add: js_spread_simps get_props)

lemma event_ok_outbound:
  assumes e: "event_ok event"
  shows "event_ok (js_spread event
    [(''id'', if get event ''id'' = JUndef \<or> get event ''id'' = JNull then JStr i else get event ''id''),
     (''channelId'', js_nullish (get event ''channelId'') (opt_str ch))])"
proof -
  have "is_object (js_spread event kvs)" for kvs by (simp add: js_spread_def is_object_def)
  with event_okD [OF e] e show ?thesis
    by (auto simp: event_ok_def RelayEvent_def get_spread_two js_nullish_def opt_str_def split: option.splits)
qed

text \<open>The payloads the client checks conform to the interfaces of their acknowledgements.\<close>

lemma non_blank_text: "non_blank v \<Longrightarrow> \<exists>s. v = JStr s \<and> \<not> blank s"
  by (auto simp: non_blank_def non_blank_string_Some)

lemma message_ack_conforms:
  "validateMessageAck r = Inr r' \<Longrightarrow> is_object (rr_payload r) \<Longrightarrow> conforms MessageAckPayload (rr_payload r')"
  by (auto simp: validateMessageAck_Inr MessageAckPayload_def dest: non_blank_text)

lemma decision_ack_conforms:
  "validateJoinDecisionAck r j d = Inr r' \<Longrightarrow> is_object (rr_payload r) \<Longrightarrow> d \<in> {''approved'', ''denied''} \<Longrightarrow>
    conforms JoinDecisionAckPayload (rr_payload r')"
  by (auto simp: validateJoinDecisionAck_Inr JoinDecisionAckPayload_def dest: non_blank_text)

end
