(* ===== verification/Client_Typed.thy ===== *)
theory Client_Typed
  imports Client_Effects Client_Invariant
begin

text \<open>
  What the promises of the client can be fulfilled with. A typing gives each promise the set of values
  it may take; every reachable client has one in which the promise of a connect takes connect
  responses and the promise of an operation takes responses to the very event the operation wrote,
  of the expected type and checked. The typing of the promises that exist is kept by every action:
  new promises extend it.
\<close>

section \<open>Kinds of promises\<close>

type_synonym kind = "pval \<Rightarrow> bool"

definition may :: "kind list \<Rightarrow> nat \<Rightarrow> kind" where
  "may ks p v = (p < length ks \<and> (ks ! p) v)"

definition only :: "kind list \<Rightarrow> nat \<Rightarrow> kind \<Rightarrow> bool" where
  "only ks p K = (p < length ks \<and> (\<forall>v. (ks ! p) v \<longrightarrow> K v))"

fun unit_kind :: kind where
  "unit_kind VUnit = True"
| "unit_kind _ = False"

definition answers :: "jsval \<Rightarrow> string \<Rightarrow> request_response \<Rightarrow> bool" where
  "answers event ty r =
     (frame_key (rr_requestEvent r) = frame_key event \<and>
      get (rr_responseEvent r) ''replyTo'' = get (rr_requestEvent r) ''id'' \<and>
      get (rr_responseEvent r) ''type'' = JStr ty \<and>
      rr_payload r = get (rr_responseEvent r) ''payload'' \<and> is_object (rr_payload r))"

definition response_kind :: "jsval \<Rightarrow> string \<Rightarrow> kind" where
  "response_kind event ty v = (\<exists>r. v = VResponse r \<and> answers event ty r)"

definition request_kind :: "request \<Rightarrow> kind" where
  "request_kind rq v = (\<exists>r. v = VResponse r \<and> answers (req_event rq) (req_responseType rq) r \<and>
     check_response (req_check rq) r = Inr r)"

fun cont_typed :: "kind list \<Rightarrow> nat \<times> cont \<Rightarrow> bool" where
  "cont_typed ks (q, ConnectFetched r g ch pin) = ((\<forall>x. may ks q (VFetch x)) \<and> (\<forall>x. may ks r (VConnect x)))"
| "cont_typed ks (q, ConnectOpened r cr) = may ks r (VConnect cr)"
| "cont_typed ks (q, ReconnectDelayed r a g n) = may ks r VUnit"
| "cont_typed ks (q, ReconnectConnected r a g) = may ks r VUnit"
| "cont_typed ks (q, HealthStatus r g) = may ks r VUnit"
| "cont_typed ks (q, HealthReconnected r) = (only ks q unit_kind \<and> may ks r VUnit)"
| "cont_typed ks (q, RunOperation r rq) = (\<forall>v. request_kind rq v \<longrightarrow> may ks r v)"
| "cont_typed ks (q, Validate r chk) =
     (\<exists>K. only ks q K \<and> (\<forall>x. K (VResponse x) \<and> check_response chk x = Inr x \<longrightarrow> may ks r (VResponse x)))"
| "cont_typed ks (q, Adopt r) = (\<exists>K. only ks q K \<and> (\<forall>v. K v \<longrightarrow> may ks r v))"
| "cont_typed ks (q, k) = True"

fun timer_typed :: "kind list \<Rightarrow> timer \<Rightarrow> bool" where
  "timer_typed ks (TReconnect d) = may ks d VUnit"
| "timer_typed ks _ = True"

definition waiter_typed :: "kind list \<Rightarrow> jsval \<times> waiter \<Rightarrow> bool" where
  "waiter_typed ks e = (case e of (k, w) \<Rightarrow>
     \<forall>event. get event ''replyTo'' = k \<and> get event ''type'' = JStr (w_responseType w) \<and>
       is_object (get event ''payload'') \<longrightarrow>
     may ks (w_promise w) (VResponse \<lparr>rr_requestEvent = w_requestEvent w, rr_responseEvent = event,
       rr_payload = get event ''payload''\<rparr>))"

definition was_sent :: "effect list \<Rightarrow> jsval \<Rightarrow> bool" where
  "was_sent lg event = (\<exists>s. OSend s event (json_stringify event) \<in> set lg)"

fun sent_value :: "effect list \<Rightarrow> pval \<Rightarrow> bool" where
  "sent_value lg (VResponse r) = was_sent lg (rr_requestEvent r)"
| "sent_value lg _ = True"

definition values_typed :: "kind list \<Rightarrow> effect list \<Rightarrow> pval outcome list \<Rightarrow> bool" where
  "values_typed ks lg ps = (length ks = length ps \<and>
     (\<forall>p v. p < length ps \<and> ps ! p = Fulfilled v \<longrightarrow> (ks ! p) v \<and> sent_value lg v))"

definition typed :: "kind list \<Rightarrow> relay_client \<Rightarrow> bool" where
  "typed ks c =
     (values_typed ks (log c) (promises c) \<and>
      (\<forall>e \<in> set (timers c). timer_typed ks (snd (snd e))) \<and>
      (\<forall>e \<in> set (responseWaiters c). waiter_typed ks e \<and> was_sent (log c) (w_requestEvent (snd e))) \<and>
      (\<forall>s \<in> set (sockets c). may ks (ws_promise s) VUnit) \<and>
      (\<forall>x \<in> set (conts c). cont_typed ks x) \<and>
      (\<forall>p. reconnectPromise c = Some p \<longrightarrow> only ks p unit_kind) \<and>
      (\<forall>p. reconnectTimerResolve c = Some p \<longrightarrow> may ks p VUnit))"

text \<open>\<open>types ks c\<close>: a typing of \<open>c\<close> that begins with \<open>ks\<close>.\<close>

definition types :: "kind list \<Rightarrow> relay_client \<Rightarrow> bool" where
  "types ks c = (\<exists>ls. typed (ks @ ls) c)"

section \<open>Extending a typing\<close>

lemma may_append [simp]: "may ks p v \<Longrightarrow> may (ks @ ls) p v"
  by (simp add: may_def nth_append)

lemma only_append [simp]: "only ks p K \<Longrightarrow> only (ks @ ls) p K"
  by (simp add: only_def nth_append)

lemma cont_typed_append: "cont_typed ks x \<Longrightarrow> cont_typed (ks @ ls) x"
  by (cases "(ks, x)" rule: cont_typed.cases) (auto, (blast intro: only_append may_append)+)

lemma timer_typed_append: "timer_typed ks k \<Longrightarrow> timer_typed (ks @ ls) k"
  by (cases k) auto

lemma waiter_typed_append: "waiter_typed ks e \<Longrightarrow> waiter_typed (ks @ ls) e"
  by (auto simp: waiter_typed_def split: prod.splits)

lemma was_sent_append [simp]: "was_sent lg event \<Longrightarrow> was_sent (lg @ es) event"
  by (auto simp: was_sent_def)

lemma sent_value_append [simp]: "sent_value lg v \<Longrightarrow> sent_value (lg @ es) v"
  by (cases v) auto

lemma only_may: "only ks p K \<Longrightarrow> may ks p v \<Longrightarrow> K v"
  by (auto simp: only_def may_def)

lemma types_refl: "typed ks c \<Longrightarrow> types ks c"
  unfolding types_def by (rule exI [of _ "[]"]) simp

text \<open>A step is judged from a typing of its start.\<close>

lemma types_step: "types ks c \<Longrightarrow> (\<And>ls. typed (ks @ ls) c \<Longrightarrow> types (ks @ ls) d) \<Longrightarrow> types ks d"
  by (auto simp: types_def)

lemma types_map: "types ks c \<Longrightarrow> (\<And>ls. typed (ks @ ls) c \<Longrightarrow> typed (ks @ ls) d) \<Longrightarrow> types ks d"
  by (auto simp: types_def)

lemma types_prefix: "types (ks @ ls) c \<Longrightarrow> types ks c"
  by (auto simp: types_def)

section \<open>Elementary operations\<close>

lemma values_settled_reject: "values_typed ks lg ps \<Longrightarrow> values_typed ks lg (settled p (Rejected e) ps)"
  by (auto simp: values_typed_def settled_def nth_list_update)

lemma values_settled: "values_typed ks lg ps \<Longrightarrow> may ks p v \<Longrightarrow> sent_value lg v \<Longrightarrow>
    values_typed ks lg (settled p (Fulfilled v) ps)"
  by (auto simp: values_typed_def settled_def nth_list_update may_def)

lemma values_log: "values_typed ks lg ps \<Longrightarrow> values_typed ks (lg @ es) ps"
  by (auto simp: values_typed_def)

lemma values_new: "values_typed ks lg ps \<Longrightarrow> (\<And>x. v = Fulfilled x \<Longrightarrow> K x \<and> sent_value lg x) \<Longrightarrow>
    values_typed (ks @ [K]) lg (ps @ [v])"
  by (auto simp: values_typed_def nth_append less_Suc_eq)

lemma types_reject: "types ks c \<Longrightarrow> types ks (settle p (Rejected e) c)"
  by (erule types_map) (simp add: typed_def settle_def values_settled_reject)

lemma types_fulfil: "types ks c \<Longrightarrow> may ks p v \<Longrightarrow> sent_value (log c) v \<Longrightarrow> types ks (settle p (Fulfilled v) c)"
  by (erule types_map) (simp add: typed_def settle_def values_settled)

lemma types_resolve_unit: "types ks c \<Longrightarrow> may ks p VUnit \<Longrightarrow> types ks (resolve_unit p c)"
  by (simp add: resolve_unit_def types_fulfil)

lemma types_await: "types ks c \<Longrightarrow> cont_typed ks (p, k) \<Longrightarrow> types ks (await p k c)"
  by (erule types_map) (auto simp: typed_def await_def cont_typed_append)

lemma typed_log: "typed ks c \<Longrightarrow> typed ks (c\<lparr>log := log c @ es\<rparr>)"
  by (auto simp: typed_def values_log)

lemma types_log: "types ks c \<Longrightarrow> types ks (c\<lparr>log := log c @ es\<rparr>)"
  by (erule types_map) (rule typed_log)

lemma types_emitLog: "types ks c \<Longrightarrow> types ks (emitLog x c)"
  by (simp add: emitLog_def types_log)

lemma types_emitError: "types ks c \<Longrightarrow> types ks (emitError code err details c)"
  by (simp add: emitError_upd types_log)

lemma types_emit: "types ks c \<Longrightarrow> types ks (emit h ty event c)"
  by (simp add: emit_upd types_log)

lemma typed_new:
  assumes "typed ks c" and "\<And>x. v = Fulfilled x \<Longrightarrow> K x \<and> sent_value (log c) x"
  shows "typed (ks @ [K]) (snd (newPromise v c))"
  using assms values_new [of ks "log c" "promises c" v K]
  by (auto simp: typed_def newPromise_def timer_typed_append waiter_typed_append cont_typed_append)

text \<open>A new promise may be given any kind; it extends the typing by that kind.\<close>

lemma length_typed: "typed ks c \<Longrightarrow> length (promises c) = length ks"
  by (simp add: typed_def values_typed_def)

lemma new_promise_kind:
  assumes "types ks c" and "\<And>x. v = Fulfilled x \<Longrightarrow> K x \<and> sent_value (log c) x"
  obtains ls where "types (ks @ ls) (snd (newPromise v c))" "only (ks @ ls) (length (promises c)) K"
    "\<And>x. may (ks @ ls) (length (promises c)) x = K x"
proof -
  from assms(1) obtain ls where t: "typed (ks @ ls) c" by (auto simp: types_def)
  have "types (ks @ ls @ [K]) (snd (newPromise v c))"
    using typed_new [OF t assms(2)] by (simp add: types_refl)
  moreover have "(ks @ ls @ [K]) ! length (promises c) = K" "length (promises c) < length (ks @ ls @ [K])"
    using length_typed [OF t] by (simp_all add: nth_append)
  ultimately show thesis
    by (intro that [of "ls @ [K]"]) (simp_all add: only_def may_def)
qed

lemma types_new: "types ks c \<Longrightarrow> (\<And>x. v = Fulfilled x \<Longrightarrow> sent_value (log c) x) \<Longrightarrow> types ks (snd (newPromise v c))"
  by (rule new_promise_kind [of ks c v "\<lambda>x. True"]) (auto intro: types_prefix)

lemma types_fields [simp]:
  "types ks (c\<lparr>healthCheckPromise := p\<rparr>) = types ks c"
  "types ks (c\<lparr>reconnectAttempt := n\<rparr>) = types ks c"
  "types ks (c\<lparr>reconnectGeneration := n\<rparr>) = types ks c"
  "types ks (c\<lparr>healthGeneration := n\<rparr>) = types ks c"
  "types ks (c\<lparr>connectionGeneration := n\<rparr>) = types ks c"
  "types ks (c\<lparr>explicitDisconnect := b\<rparr>) = types ks c"
  "types ks (c\<lparr>argsHeap := a\<rparr>) = types ks c"
  "types ks (c\<lparr>lastConnectArgs := la\<rparr>) = types ks c"
  "types ks (c\<lparr>handlers := hs\<rparr>) = types ks c"
  "types ks (c\<lparr>now := n\<rparr>) = types ks c"
  "types ks (c\<lparr>client_state := st\<rparr>) = types ks c"
  "types ks (c\<lparr>replyTargets := rt\<rparr>) = types ks c"
  "types ks (c\<lparr>socket := sk\<rparr>) = types ks c"
  "types ks (c\<lparr>socketCleanup := cl\<rparr>) = types ks c"
  "types ks (c\<lparr>pendingOpenReject := po\<rparr>) = types ks c"
  "types ks (c\<lparr>suppressReconnectForSocket := ss\<rparr>) = types ks c"
  "types ks (c\<lparr>heartbeatTimer := ht\<rparr>) = types ks c"
  "types ks (c\<lparr>lastInboundAt := n\<rparr>) = types ks c"
  "types ks (c\<lparr>reconnectTimer := t\<rparr>) = types ks c"
  "types ks (c\<lparr>nextTimer := n\<rparr>) = types ks c"
  "types ks (c\<lparr>idCount := n\<rparr>) = types ks c"
  by (simp_all add: types_def typed_def)

lemma types_forget [simp]:
  "types ks c \<Longrightarrow> types ks (c\<lparr>reconnectPromise := None\<rparr>)"
  "types ks c \<Longrightarrow> types ks (c\<lparr>reconnectTimerResolve := None\<rparr>)"
  "types ks c \<Longrightarrow> types ks (c\<lparr>responseWaiters := jm_delete k (responseWaiters c)\<rparr>)"
  "types ks c \<Longrightarrow> types ks (c\<lparr>timers := jm_delete t (timers c)\<rparr>)"
  by (erule types_map, auto simp: typed_def set_jm_delete)+

lemma types_clearTimeout: "types ks c \<Longrightarrow> types ks (clearTimeout t c)"
  by (simp add: clearTimeout_def)

lemma typed_setTimeout: "typed ks c \<Longrightarrow> timer_typed ks k \<Longrightarrow> typed ks (snd (setTimeout k ms c))"
  using set_jm_set_subset [of "nextTimer c" "(now c + ms, k)" "timers c"]
  by (auto simp: typed_def setTimeout_def)

lemma types_setTimeout: "types ks c \<Longrightarrow> timer_typed ks k \<Longrightarrow> types ks (snd (setTimeout k ms c))"
  by (erule types_map) (simp add: typed_setTimeout timer_typed_append)

lemma types_upd_socket:
  "types ks c \<Longrightarrow> (\<And>k. ws_promise (f k) = ws_promise k) \<Longrightarrow> types ks (upd_socket s f c)"
proof (erule types_map)
  fix ls assume t: "typed (ks @ ls) c" and f: "\<And>k. ws_promise (f k) = ws_promise k"
  have "x \<in> set (sockets c) \<or> (\<exists>k \<in> set (sockets c). x = f k)" if "x \<in> set ((sockets c)[s := f (sockets c ! s)])" for x
    using that by (cases "s < length (sockets c)") (auto simp: list_update_beyond dest!: set_update_subset_insert [THEN subsetD])
  with t f show "typed (ks @ ls) (upd_socket s f c)"
    by (auto simp: typed_def upd_socket_upd) (metis f)
qed

section \<open>Synchronous operations\<close>

lemma types_stopHeartbeat: "types ks c \<Longrightarrow> types ks (stopHeartbeat c)"
  by (simp add: stopHeartbeat_def types_clearTimeout split: option.split)

lemma types_recordRelayActivity: "types ks c \<Longrightarrow> types ks (recordRelayActivity c)"
  by (simp add: recordRelayActivity_def startHeartbeat_def Let_def case_prod_unfold types_setTimeout types_stopHeartbeat)

lemma types_clearReconnectTimer: "types ks c \<Longrightarrow> types ks (clearReconnectTimer c)"
  by (erule types_map) (auto simp: typed_def clearReconnectTimer_upd values_settled set_jm_delete split: option.split)

lemma types_reject_waiter: "types ks c \<Longrightarrow> types ks (reject_waiter m e c)"
  by (cases e) (simp add: reject_waiter_def Let_def types_reject types_clearTimeout)

lemma types_rejectResponseWaiters: "types ks c \<Longrightarrow> types ks (rejectResponseWaiters m c)"
proof -
  have "types ks c \<Longrightarrow> types ks (fold (reject_waiter m) ws c)" for ws c
    by (induction ws arbitrary: c) (simp_all add: types_reject_waiter)
  then show "types ks c \<Longrightarrow> types ks (rejectResponseWaiters m c)"
    by (simp add: rejectResponseWaiters_def)
qed

lemma types_waiter_timeout: "types ks c \<Longrightarrow> types ks (waiter_timeout k p ty code c)"
  by (simp add: waiter_timeout_def types_reject)

lemma types_drop_waiter: "types ks c \<Longrightarrow> types ks (drop_waiter k w c)"
  by (simp add: drop_waiter_def types_clearTimeout)

lemma types_resolve_waiter:
  assumes "types ks c" and "waiter_typed ks (get event ''replyTo'', w)" and "was_sent (log c) (w_requestEvent w)"
    and "get event ''type'' = JStr (w_responseType w)"
  shows "types ks (resolve_waiter w event c)"
  using assms by (auto simp: resolve_waiter_def waiter_typed_def intro!: types_reject types_fulfil)

lemma types_resolveResponseWaiter: "types ks c \<Longrightarrow> types ks (resolveResponseWaiter event c)"
proof (erule types_step)
  fix ls assume t: "typed (ks @ ls) c"
  have d: "types (ks @ ls) (drop_waiter k w c)" "log (drop_waiter k w c) = log c" for k w
    using types_refl [OF t] by (simp_all add: types_drop_waiter) (simp add: drop_waiter_def clearTimeout_def)
  have w: "waiter_typed (ks @ ls) (k, w)" "was_sent (log c) (w_requestEvent w)"
    if "jm_get (responseWaiters c) k = Some w" for k w
    using t jm_get_Some_in [OF that] by (auto simp: typed_def)
  show "types (ks @ ls) (resolveResponseWaiter event c)"
    using types_refl [OF t] w d
    by (auto simp: resolveResponseWaiter_def Let_def intro!: types_reject types_resolve_waiter split: option.split)
qed

lemma types_cleanup: "types ks c \<Longrightarrow> types ks (cleanup s c)"
  by (simp add: cleanup_def Let_def types_upd_socket)

lemma types_rejectBeforeOpen: "types ks c \<Longrightarrow> types ks (rejectBeforeOpen s e c)"
  by (simp add: rejectBeforeOpen_def Let_def types_reject types_cleanup types_upd_socket)

lemma types_ws_close: "types ks c \<Longrightarrow> types ks (ws_close s code reason c)"
  by (simp add: ws_close_def types_emitLog types_upd_socket)

lemma types_closeCurrentSocket: "types ks c \<Longrightarrow> types ks (closeCurrentSocket code reason b c)"
  by (simp add: closeCurrentSocket_def Let_def types_ws_close types_rejectResponseWaiters types_rejectBeforeOpen
      types_cleanup types_stopHeartbeat split: option.split)

lemma types_sendEvent: "types ks c \<Longrightarrow> types ks (snd (sendEvent h event c))"
  by (simp add: sendEvent_def Let_def types_emitLog split: option.split)

lemma sendEvent_sent: "fst (sendEvent h event c) = Inr out \<Longrightarrow> was_sent (log (snd (sendEvent h event c))) out"
  using sendEvent_written(1) [of h event c out] by (auto simp: was_sent_def)

lemma types_waiter:
  assumes "types ks c" and "waiter_typed ks (k, w)" and "was_sent (log c) (w_requestEvent w)"
  shows "types ks (c\<lparr>responseWaiters := jm_set k w (responseWaiters c)\<rparr>)"
  using assms(1)
proof (rule types_map)
  fix ls assume "typed (ks @ ls) c"
  then show "typed (ks @ ls) (c\<lparr>responseWaiters := jm_set k w (responseWaiters c)\<rparr>)"
    using assms(2,3) set_jm_set_subset [of k w "responseWaiters c"]
    by (auto simp: typed_def waiter_typed_append)
qed

section \<open>Requests\<close>

lemma requestResponse_typed:
  assumes "types ks c" and "requestResponse h event ty ms code c = (x, d)"
  obtains ls where "types (ks @ ls) d" "\<And>p. x = Inr p \<Longrightarrow> only (ks @ ls) p (response_kind event ty)"
proof -
  obtain y c1 where s: "sendEvent h event c = (y, c1)" by (cases "sendEvent h event c")
  have c1: "types ks c1" using types_sendEvent [OF assms(1), of h event] s by simp
  show thesis
  proof (cases "\<exists>out. y = Inr out \<and> get out ''id'' \<noteq> JUndef")
    case False
    with assms(2) s have "x \<noteq> Inr p" "d = c1" for p
      by (auto simp: requestResponse_def Let_def split: sum.splits if_splits)
    with c1 show thesis by (intro that [of "[]"]) auto
  next
    case True
    then obtain out where out: "y = Inr out" "get out ''id'' \<noteq> JUndef" by blast
    have sent: "was_sent (log c1) out" "frame_key out = frame_key event"
      using sendEvent_sent [of h event c out] sendEvent_written(2) [of h event c out] s out by simp_all
    let ?p = "length (promises c1)" and ?k = "get out ''id''" and ?c2 = "snd (newPromise Pending c1)"
    let ?w = "\<lparr>w_responseType = ty, w_timeoutCode = code, w_requestEvent = out, w_promise = ?p, w_timer = nextTimer c1\<rparr>"
    obtain ls where ls: "types (ks @ ls) ?c2" "only (ks @ ls) ?p (response_kind event ty)"
        "\<And>v. may (ks @ ls) ?p v = response_kind event ty v"
      by (rule new_promise_kind [OF c1, of Pending "response_kind event ty"]) simp_all
    let ?c3 = "snd (setTimeout (TWaiter ?k ?p ty code) ms ?c2)"
    have "types (ks @ ls) ?c3" using ls(1) by (rule types_setTimeout) simp
    then have "types (ks @ ls) (?c3\<lparr>responseWaiters := jm_set ?k ?w (responseWaiters ?c3)\<rparr>)"
      using sent ls(3) by (intro types_waiter)
        (auto simp: waiter_typed_def response_kind_def answers_def setTimeout_def newPromise_def)
    moreover have "(x, d) = (Inr ?p, ?c3\<lparr>responseWaiters := jm_set ?k ?w (responseWaiters ?c3)\<rparr>)"
      using assms(2) s out by (simp add: requestResponse_def Let_def newPromise_def setTimeout_def)
    ultimately show thesis
      using ls(2) by (intro that [of ls]) auto
  qed
qed

lemma only_mono: "only ks p K \<Longrightarrow> (\<And>v. K v \<Longrightarrow> L v) \<Longrightarrow> only ks p L"
  by (simp add: only_def)

lemma run_operation_typed:
  assumes "types ks c" and "run_operation h rq c = (x, d)"
  obtains ls where "types (ks @ ls) d" "\<And>p. x = Inr p \<Longrightarrow> only (ks @ ls) p (request_kind rq)"
proof -
  obtain y c1 where q: "requestResponse h (req_event rq) (req_responseType rq) (req_timeoutMs rq) (req_timeoutCode rq) c = (y, c1)"
    by (cases "requestResponse h (req_event rq) (req_responseType rq) (req_timeoutMs rq) (req_timeoutCode rq) c")
  from assms(1) q obtain ls where ls: "types (ks @ ls) c1"
      "\<And>p. y = Inr p \<Longrightarrow> only (ks @ ls) p (response_kind (req_event rq) (req_responseType rq))"
    by (rule requestResponse_typed) blast
  show thesis
  proof (cases y)
    case (Inl e)
    with assms(2) q ls show thesis
      by (intro that [of ls]) (auto simp: run_operation_def)
  next
    case (Inr p)
    show thesis
    proof (cases "req_check rq = NoCheck")
      case True
      with Inr assms(2) q have r: "x = Inr p" "d = c1" by (simp_all add: run_operation_def)
      from ls(2) [OF Inr] True have "only (ks @ ls) p (request_kind rq)"
        by (auto intro: only_mono simp: request_kind_def response_kind_def)
      with r ls(1) show thesis by (intro that [of ls]) auto
    next
      case False
    let ?q = "length (promises c1)"
    obtain ms where ms: "types ((ks @ ls) @ ms) (snd (newPromise Pending c1))" "only ((ks @ ls) @ ms) ?q (request_kind rq)"
        "\<And>v. may ((ks @ ls) @ ms) ?q v = request_kind rq v"
      by (rule new_promise_kind [OF ls(1), of Pending "request_kind rq"]) simp_all
    have "only ((ks @ ls) @ ms) p (response_kind (req_event rq) (req_responseType rq))"
      using ls(2) [OF Inr] by (rule only_append)
    then have "cont_typed ((ks @ ls) @ ms) (p, Validate ?q (req_check rq))"
      unfolding cont_typed.simps ms(3)
      by (intro exI [of _ "response_kind (req_event rq) (req_responseType rq)"]) (auto simp: request_kind_def response_kind_def)
    from types_await [OF ms(1) this] ms(2) False Inr assms(2) q show thesis
      by (intro that [of "ls @ ms"]) (auto simp: run_operation_def newPromise_def)
    qed
  qed
qed

section \<open>Sockets and connecting\<close>

lemma typed_socket: "typed ks c \<Longrightarrow> s < length (sockets c) \<Longrightarrow> may ks (ws_promise (sockets c ! s)) VUnit"
  by (simp add: typed_def)

lemma types_openHandler:
  assumes "types ks c" and "s < length (sockets c)"
  shows "types ks (openHandler s c)"
  using assms(1)
proof (rule types_step)
  fix ls assume t: "typed (ks @ ls) c"
  have "types (ks @ ls) (recordRelayActivity ((upd_socket s (\<lambda>k. k\<lparr>ws_settled := True\<rparr>) c)\<lparr>pendingOpenReject := po\<rparr>))" for po
    using types_refl [OF t] by (simp add: types_recordRelayActivity types_upd_socket)
  with typed_socket [OF t assms(2)] types_refl [OF t] show "types (ks @ ls) (openHandler s c)"
    by (simp add: openHandler_def Let_def set_transport_def types_resolve_unit)
qed

lemma typed_new_socket:
  "typed ks c \<Longrightarrow> may ks (ws_promise k) VUnit \<Longrightarrow> typed ks (c\<lparr>sockets := sockets c @ [k]\<rparr>)"
  by (auto simp: typed_def)

lemma types_openSocket: "types ks c \<Longrightarrow> types ks (snd (openSocket h url token c))"
proof -
  assume t: "types ks c"
  let ?c1 = "closeCurrentSocket None None True c"
  have c1: "types ks ?c1" using t by (rule types_closeCurrentSocket)
  obtain ls where ls: "types (ks @ ls) (snd (newPromise Pending ?c1))"
      "\<And>v. may (ks @ ls) (length (promises ?c1)) v = unit_kind v"
    by (rule new_promise_kind [OF c1, of Pending unit_kind]) simp_all
  have new: "types (ks @ ls) ((snd (newPromise Pending ?c1))\<lparr>sockets := sockets ?c1 @ [k]\<rparr>)"
    if "ws_promise k = length (promises ?c1)" for k
    using ls(1)
  proof (rule types_map)
    fix ms assume "typed ((ks @ ls) @ ms) (snd (newPromise Pending ?c1))"
    moreover have "may ((ks @ ls) @ ms) (ws_promise k) VUnit"
      by (rule may_append) (simp add: ls(2) that)
    ultimately show "typed ((ks @ ls) @ ms) ((snd (newPromise Pending ?c1))\<lparr>sockets := sockets ?c1 @ [k]\<rparr>)"
      using typed_new_socket by (fastforce simp: newPromise_def)
  qed
  have fin: "types ks (if b then openHandler (length (sockets ?c1)) d else d)"
    if "types (ks @ ls) d" "length (sockets d) = Suc (length (sockets ?c1))" for b d
    using that by (auto intro!: types_prefix [of ks ls] types_openHandler)
  show ?thesis
  proof (cases "\<exists>u. socketURLWithToken h url token = Inr u \<and> ws_constructor h u = None")
    case False
    with c1 show ?thesis by (auto simp: openSocket_def Let_def split: sum.split option.split)
  next
    case True
    then obtain u where u: "socketURLWithToken h url token = Inr u" "ws_constructor h u = None" by blast
    let ?n = "length (sockets ?c1)"
    let ?k = "\<lparr>ws_url = u, ws_readyState = ws_initial h u, ws_listening = True, ws_settled = False,
       ws_promise = length (promises ?c1)\<rparr>"
    let ?d = "emitLog (ONewSocket ?n u) ((snd (newPromise Pending ?c1))\<lparr>sockets := sockets ?c1 @ [?k],
       socket := Some ?n, socketCleanup := Some ?n, pendingOpenReject := Some ?n\<rparr>)"
    have "types (ks @ ls) ?d"
      using new [of ?k] by (intro types_emitLog) simp
    moreover have "snd (openSocket h url token c) = (if ws_initial h u = WEBSOCKET_OPEN then openHandler ?n ?d else ?d)"
      using u by (simp add: openSocket_def Let_def newPromise_def)
    ultimately show ?thesis
      using fin by (simp add: newPromise_def emitLog_def)
  qed
qed

lemma types_connectInternal:
  assumes "types ks c" and "\<And>cr. may ks r (VConnect cr)"
  shows "types ks (connectInternal h ch pin options r c)"
proof -
  let ?c1 = "c\<lparr>explicitDisconnect := False, connectionGeneration := connectionGeneration c + 1,
    argsHeap := argsHeap c @ [\<lparr>arg_channel = ch, arg_pin = pin, arg_options = options\<rparr>],
    lastConnectArgs := Some (length (argsHeap c))\<rparr>"
  have c1: "types ks ?c1" using assms(1) by simp
  obtain ls where ls: "types (ks @ ls) (snd (newPromise Pending ?c1))"
      "\<And>v. may (ks @ ls) (length (promises ?c1)) v = True"
    by (rule new_promise_kind [OF c1, of Pending "\<lambda>v. True"]) simp_all
  then have "cont_typed (ks @ ls) (length (promises c), ConnectFetched r g ch pin)" for g
    using assms(2) by simp
  then show ?thesis
    using ls(1) unfolding connectInternal_def Let_def
    by (auto simp: newPromise_def intro!: types_prefix [of ks ls] types_await types_emitLog)
qed

definition connect_kind :: kind where
  "connect_kind v = (\<exists>cr. v = VConnect cr)"

lemma connect_typed:
  assumes "types ks c" and "connect h ch pin options c = (p, d)"
  obtains ls where "types (ks @ ls) d" "only (ks @ ls) p connect_kind"
proof -
  let ?c3 = "closeCurrentSocket None (Some ''connection replaced'') True
     ((clearReconnectTimer (c\<lparr>reconnectGeneration := reconnectGeneration c + 1,
                                      healthGeneration := healthGeneration c + 1\<rparr>))
      \<lparr>reconnectPromise := None, healthCheckPromise := None\<rparr>)"
  have "types ks ?c3"
    using assms(1) by (simp add: types_closeCurrentSocket types_clearReconnectTimer)
  then obtain ls where ls: "types (ks @ ls) (snd (newPromise Pending ?c3))" "only (ks @ ls) (length (promises ?c3)) connect_kind"
      "\<And>v. may (ks @ ls) (length (promises ?c3)) v = connect_kind v"
    by (rule new_promise_kind [of ks _ Pending connect_kind]) simp_all
  have "types (ks @ ls) (connectInternal h ch pin options (length (promises ?c3)) (snd (newPromise Pending ?c3)))"
    using ls by (intro types_connectInternal) (simp_all add: connect_kind_def)
  with ls(2) assms(2) show thesis
    by (intro that [of ls]) (auto simp: connect_def Let_def newPromise_def)
qed

lemma types_remember_device: "types ks c \<Longrightarrow> types ks (remember_device ch pin d c)"
  by (simp add: remember_device_def Let_def split: option.split)

lemma types_connect_fetched:
  assumes "types ks c" and "\<And>cr. may ks r (VConnect cr)"
  shows "types ks (connect_fetched h r g ch pin res c)"
proof (cases rule: connect_fetched_cases [of h r g ch pin res c])
  case (opened resp cr c2 x c3)
  have "types ks c2" using assms(1) by (simp add: opened(5) types_remember_device)
  then have "types ks c3" using types_openSocket opened(6) by (metis snd_conv)
  with assms(2) show ?thesis
    by (auto simp: opened(7) intro!: types_reject types_await split: sum.split)
qed (use assms in \<open>simp_all add: types_reject\<close>)

lemma types_connect_opened:
  "types ks c \<Longrightarrow> may ks r (VConnect cr) \<Longrightarrow> types ks (connect_opened r cr res c)"
  by (auto simp: connect_opened_def intro!: types_reject types_fulfil split: outcome.split)

lemma types_disconnect: "types ks c \<Longrightarrow> types ks (snd (disconnect h code reason c))"
  by (auto simp: disconnect_def Let_def types_closeCurrentSocket types_clearReconnectTimer split: option.split)

section \<open>The reconnect loop\<close>

lemma typed_delay:
  "typed ks c \<Longrightarrow> may ks d VUnit \<Longrightarrow> typed ks (c\<lparr>reconnectTimerResolve := Some d\<rparr>)"
  by (auto simp: typed_def)

lemma waitForReconnectDelay_typed:
  assumes "types ks c" and "waitForReconnectDelay ms c = (p, d)"
  obtains ls where "types (ks @ ls) d"
proof -
  obtain ls where ls: "types (ks @ ls) (snd (newPromise Pending c))"
      "\<And>v. may (ks @ ls) (length (promises c)) v = unit_kind v"
    by (rule new_promise_kind [OF assms(1), of Pending unit_kind]) simp_all
  have "types (ks @ ls) ((snd (newPromise Pending c))\<lparr>reconnectTimerResolve := Some (length (promises c))\<rparr>)"
    using ls(1) by (rule types_map) (rule typed_delay, assumption, rule may_append, simp add: ls(2))
  then have "types (ks @ ls) (snd (setTimeout (TReconnect (length (promises c))) ms
      ((snd (newPromise Pending c))\<lparr>reconnectTimerResolve := Some (length (promises c))\<rparr>)))"
    by (rule types_setTimeout) (simp add: ls(2))
  with assms(2) show thesis
    by (intro that [of ls]) (auto simp: waitForReconnectDelay_def newPromise_def setTimeout_def)
qed

lemma types_schedule_attempt: "types ks c \<Longrightarrow> types ks (schedule_attempt i ms c)"
  by (simp add: schedule_attempt_def Let_def types_emitError)

lemma types_loop_head:
  assumes "types ks c" and "may ks r VUnit"
  shows "types ks (loop_head r a g c)"
proof -
  obtain p d where w: "waitForReconnectDelay (reconnect_delay (reconnectDelayMs c) (reconnectAttempt c))
      (schedule_attempt (reconnectAttempt c + 1) (reconnect_delay (reconnectDelayMs c) (reconnectAttempt c)) c) = (p, d)"
    by fastforce
  obtain ls where "types (ks @ ls) d"
    using waitForReconnectDelay_typed [OF types_schedule_attempt [OF assms(1)] w] by blast
  with assms(2) have "types (ks @ ls) (await p (ReconnectDelayed r a g i) d)" for i
    by (intro types_await) simp_all
  from types_prefix [OF this] assms w show ?thesis
    by (auto simp: loop_head_def Let_def types_resolve_unit)
qed

lemma types_reconnect_delayed:
  assumes "types ks c" and "may ks r VUnit"
  shows "types ks (reconnect_delayed h r a g n c)"
proof -
  let ?c1 = "emitError ''reconnect_attempt'' (JStr ''reconnecting to relay'')
               ((''attempt'', js_int (int n)) # identity_details c) c"
  have "types ks ?c1" using assms(1) by (rule types_emitError)
  then obtain ls where ls: "types (ks @ ls) (snd (newPromise Pending ?c1))"
      "\<And>v. may (ks @ ls) (length (promises ?c1)) v = connect_kind v"
    by (rule new_promise_kind [of ks _ Pending connect_kind]) simp_all
  have "types (ks @ ls) (await p (ReconnectConnected r a g)
      (connectInternal h ch pin opts (length (promises ?c1)) (snd (newPromise Pending ?c1))))" for p ch pin opts
    using ls assms(2) by (intro types_await types_connectInternal) (simp_all add: connect_kind_def)
  from types_prefix [OF this] show ?thesis
    using assms by (auto simp: reconnect_delayed_def Let_def newPromise_def types_resolve_unit)
qed

lemma types_reconnect_connected:
  "types ks c \<Longrightarrow> may ks r VUnit \<Longrightarrow> types ks (reconnect_connected r a g res c)"
  by (auto simp: reconnect_connected_def types_resolve_unit types_loop_head types_emitError split: outcome.split)

lemma typed_reconnectPromise: "typed ks c \<Longrightarrow> only ks p unit_kind \<Longrightarrow> typed ks (c\<lparr>reconnectPromise := Some p\<rparr>)"
  by (simp add: typed_def)

lemma reconnect_typed:
  assumes "types ks c" and "reconnect c = (p, d)"
  obtains ls where "types (ks @ ls) d" "only (ks @ ls) p unit_kind"
proof -
  show thesis
  proof (cases "reconnectPromise c")
    case (Some q)
    with assms have "p = q" "d = c" by (simp_all add: reconnect_def)
    moreover from assms(1) obtain ls where "typed (ks @ ls) c" by (auto simp: types_def)
    moreover from this Some have "only (ks @ ls) q unit_kind" by (simp add: typed_def)
    ultimately show thesis by (intro that [of ls]) (simp_all add: types_refl)
  next
    case None
    obtain ls where unit: "types (ks @ ls) (snd (newPromise (Fulfilled VUnit) c))" "only (ks @ ls) (length (promises c)) unit_kind"
      by (rule new_promise_kind [OF assms(1), of "Fulfilled VUnit" unit_kind]) auto
    show thesis
    proof (cases "lastConnectArgs c = None \<or> explicitDisconnect c")
      case True
      with None assms(2) have "p = length (promises c)" "d = snd (newPromise (Fulfilled VUnit) c)"
        by (auto simp: reconnect_def newPromise_def split: option.splits)
      with unit show thesis by (intro that [of ls]) simp_all
    next
      case False
      then obtain a where a: "lastConnectArgs c = Some a" "\<not> explicitDisconnect c" by auto
      let ?g = "reconnectGeneration c + 1"
      let ?c = "c\<lparr>reconnectGeneration := ?g\<rparr>"
      have "types ks ?c" using assms(1) by simp
      then obtain ls where ls: "types (ks @ ls) (snd (newPromise Pending ?c))" "only (ks @ ls) (length (promises ?c)) unit_kind"
          "\<And>v. may (ks @ ls) (length (promises ?c)) v = unit_kind v"
        by (rule new_promise_kind [of ks ?c Pending unit_kind]) simp_all
      let ?p = "length (promises c)"
      let ?e = "loop_head ?p a ?g (snd (newPromise Pending ?c))"
      have "types (ks @ ls) ?e" using ls by (intro types_loop_head) simp_all
      then have "types (ks @ ls) (?e\<lparr>reconnectPromise := Some ?p\<rparr>)"
        by (rule types_map) (rule typed_reconnectPromise, assumption, rule only_append, use ls(2) in simp)
      then have "types (ks @ ls) (await ?p ReconnectFinally (?e\<lparr>reconnectPromise := Some ?p\<rparr>))"
        by (simp add: types_await)
      moreover have "(p, d) = (?p, await ?p ReconnectFinally (?e\<lparr>reconnectPromise := Some ?p\<rparr>))"
        using assms(2) None a by (auto simp: reconnect_def Let_def newPromise_def)
      ultimately show thesis using ls(2) by (intro that [of ls]) simp_all
    qed
  qed
qed

lemma types_reconnect: "types ks c \<Longrightarrow> types ks (snd (reconnect c))"
  by (cases "reconnect c") (metis reconnect_typed types_prefix snd_conv)

section \<open>Listeners and the health check\<close>

lemma types_record_reply_target: "types ks c \<Longrightarrow> types ks (record_reply_target event c)"
  by (simp add: record_reply_target_def)

lemma types_applyStateEvent: "types ks c \<Longrightarrow> types ks (applyStateEvent event c)"
  by (simp add: applyStateEvent_def Let_def)

lemma types_messageHandler: "types ks c \<Longrightarrow> types ks (snd (messageHandler h s v c))"
  by (auto simp: messageHandler_def handleSocketMessage_def types_emit types_record_reply_target
      types_applyStateEvent types_resolveResponseWaiter types_recordRelayActivity split: sum.split option.split)

lemma types_errorHandler: "types ks c \<Longrightarrow> types ks (errorHandler s v c)"
  by (simp add: errorHandler_def types_ws_close types_rejectBeforeOpen types_emitError)

lemma types_closeHandler: "types ks c \<Longrightarrow> types ks (closeHandler s v c)"
  by (simp add: closeHandler_def Let_def scheduleReconnect_def types_reconnect types_rejectResponseWaiters
      types_cleanup types_stopHeartbeat types_emitError types_rejectBeforeOpen)

lemma types_health_reconnect:
  assumes "types ks c" and "may ks r VUnit"
  shows "types ks (health_reconnect r g c)"
proof -
  obtain p d where q: "reconnect c = (p, d)" by fastforce
  from assms(1) q obtain ls where "types (ks @ ls) d" "only (ks @ ls) p unit_kind" by (rule reconnect_typed)
  with assms(2) have "types (ks @ ls) (await p (HealthReconnected r) d)"
    by (intro types_await) simp_all
  from types_prefix [OF this] assms q show ?thesis
    by (simp add: health_reconnect_def types_resolve_unit)
qed

lemma types_health_failed:
  "types ks c \<Longrightarrow> may ks r VUnit \<Longrightarrow> types ks (health_failed r g e c)"
  by (simp add: health_failed_def Let_def types_resolve_unit types_reject types_health_reconnect
      types_closeCurrentSocket types_emitError)

lemma types_start_health_check:
  assumes "types ks c" and "may ks r VUnit"
  shows "types ks (start_health_check h r c)"
proof -
  obtain x d where q: "requestStatus h HEARTBEAT_TIMEOUT_MS c = (x, d)" by fastforce
  obtain ls where "types (ks @ ls) d"
    using requestResponse_typed [OF assms(1) q [unfolded requestStatus_def]] by blast
  then have "types ks d" by (rule types_prefix)
  with assms q show ?thesis
    by (auto simp: start_health_check_def Let_def types_health_reconnect types_health_failed types_await split: sum.split)
qed

lemma types_ensureHealthy:
  assumes "types ks c"
  shows "types ks (snd (ensureHealthy h c))"
proof -
  obtain ls where ls: "types (ks @ ls) (snd (newPromise Pending c))" "\<And>v. may (ks @ ls) (length (promises c)) v = unit_kind v"
    by (rule new_promise_kind [OF assms, of Pending unit_kind]) simp_all
  then have "types (ks @ ls) (start_health_check h (length (promises c)) (snd (newPromise Pending c)))"
    by (intro types_start_health_check) simp_all
  from types_prefix [OF this] assms show ?thesis
    by (simp add: ensureHealthy_def Let_def newPromise_def types_await split: option.split)
qed

lemma types_health_status:
  "types ks c \<Longrightarrow> may ks r VUnit \<Longrightarrow> types ks (health_status r g res c)"
  by (simp add: health_status_def types_resolve_unit types_health_failed split: outcome.split)

section \<open>Operations\<close>

lemma afterHealthy_typed:
  assumes "types ks c" and "afterHealthy h rq c = (p, d)"
  obtains ls where "types (ks @ ls) d" "only (ks @ ls) p (request_kind rq)"
proof -
  obtain x c1 where e: "ensureHealthy h c = (x, c1)" by fastforce
  have c1: "types ks c1" using types_ensureHealthy [OF assms(1), of h] e by simp
  show thesis
  proof (cases x)
    case (Some q)
    obtain ls where ls: "types (ks @ ls) (snd (newPromise Pending c1))" "only (ks @ ls) (length (promises c1)) (request_kind rq)"
        "\<And>v. may (ks @ ls) (length (promises c1)) v = request_kind rq v"
      by (rule new_promise_kind [OF c1, of Pending "request_kind rq"]) simp_all
    then have "types (ks @ ls) (await q (RunOperation (length (promises c1)) rq) (snd (newPromise Pending c1)))"
      by (intro types_await) simp_all
    with ls(2) Some e assms(2) show thesis
      by (intro that [of ls]) (auto simp: afterHealthy_def newPromise_def)
  next
    case None
    obtain y c2 where o: "run_operation h rq c1 = (y, c2)" by fastforce
    from c1 o obtain ls where ls: "types (ks @ ls) c2" "\<And>p. y = Inr p \<Longrightarrow> only (ks @ ls) p (request_kind rq)"
      by (rule run_operation_typed) blast
    show thesis
    proof (cases y)
      case (Inr q)
      with ls o e None assms(2) show thesis by (intro that [of ls]) (auto simp: afterHealthy_def)
    next
      case (Inl err)
      obtain ms where ms: "types ((ks @ ls) @ ms) (snd (newPromise (Rejected err) c2))"
          "only ((ks @ ls) @ ms) (length (promises c2)) (request_kind rq)"
        by (rule new_promise_kind [OF ls(1), of "Rejected err" "request_kind rq"]) simp_all
      with Inl o e None assms(2) show thesis
        by (intro that [of "ls @ ms"]) (auto simp: afterHealthy_def newPromise_def)
    qed
  qed
qed

lemma types_afterHealthy: "types ks c \<Longrightarrow> types ks (snd (afterHealthy h rq c))"
  by (cases "afterHealthy h rq c") (metis afterHealthy_typed types_prefix snd_conv)

lemma types_connect: "types ks c \<Longrightarrow> types ks (snd (connect h ch pin options c))"
  by (cases "connect h ch pin options c") (metis connect_typed types_prefix snd_conv)

lemma types_requestResponse: "types ks c \<Longrightarrow> types ks (snd (requestResponse h event ty ms code c))"
  by (cases "requestResponse h event ty ms code c") (metis requestResponse_typed types_prefix snd_conv)

lemma reply_typed:
  assumes "types ks c" and "reply h q m t c = (p, d)"
  obtains ls where "types (ks @ ls) d"
    "only (ks @ ls) p (\<lambda>v. \<exists>to. request_kind (message_request (message_event MessageReply to [(''replyTo'', JStr q)] m ''reply'') t) v)"
proof (cases "jm_get (replyTargets c) (JStr q)")
  case None
  let ?K = "\<lambda>v. \<exists>to. request_kind (message_request (message_event MessageReply to [(''replyTo'', JStr q)] m ''reply'') t) v"
  let ?e = "Rejected (relay_client_error (''no reply target recorded for '' @ q) JUndef JUndef None)"
  obtain ls where "types (ks @ ls) (snd (newPromise ?e c))" "only (ks @ ls) (length (promises c)) ?K"
    by (rule new_promise_kind [OF assms(1), of ?e ?K]) simp_all
  with None assms(2) show thesis by (intro that [of ls]) (auto simp: reply_def newPromise_def)
next
  case (Some to)
  with assms(2) have "afterHealthy h (message_request (message_event MessageReply to [(''replyTo'', JStr q)] m ''reply'') t) c = (p, d)"
    by (simp add: reply_def)
  from assms(1) this obtain ls where "types (ks @ ls) d"
      "only (ks @ ls) p (request_kind (message_request (message_event MessageReply to [(''replyTo'', JStr q)] m ''reply'') t))"
    by (rule afterHealthy_typed)
  then show thesis by (intro that [of ls]) (auto elim: only_mono)
qed

lemma types_reply: "types ks c \<Longrightarrow> types ks (snd (reply h q m t c))"
  by (cases "reply h q m t c") (metis reply_typed types_prefix snd_conv)

section \<open>Continuations and actions\<close>

lemma types_run_queued:
  assumes "types ks c" and "\<And>v. request_kind rq v \<Longrightarrow> may ks r v"
  shows "types ks (run_queued h r rq res c)"
proof -
  obtain x d where o: "run_operation h rq c = (x, d)" by fastforce
  from assms(1) o obtain ls where ls: "types (ks @ ls) d" "\<And>p. x = Inr p \<Longrightarrow> only (ks @ ls) p (request_kind rq)"
    by (rule run_operation_typed) blast
  have "types (ks @ ls) (await p (Adopt r) d)" if "x = Inr p" for p
    using ls that assms(2) by (intro types_await) auto
  with types_prefix [OF ls(1)] assms(1) o show ?thesis
    by (auto simp: run_queued_def types_reject intro: types_prefix split: outcome.split sum.split)
qed

lemma check_response_Inr: "check_response chk x = Inr y \<Longrightarrow> y = x"
  by (cases chk) (auto simp: validateMessageAck_Inr validateJoinDecisionAck_Inr)

text \<open>A continuation runs with the outcome of the promise it waits for.\<close>

lemma types_run_cont:
  assumes t: "types ks c" and k: "cont_typed ks (q, k)"
    and v: "\<And>v. res = Fulfilled v \<Longrightarrow> may ks q v \<and> sent_value (log c) v" and p: "res \<noteq> Pending"
  shows "types ks (run_cont h q k res c)"
proof (cases k)
  case (HealthReconnected r)
  with k v have "\<And>v. res = Fulfilled v \<Longrightarrow> v = VUnit"
    by (metis cont_typed.simps(6) only_may unit_kind.elims(2))
  with HealthReconnected t k p show ?thesis
    by (cases res) (auto intro: types_reject types_fulfil)
next
  case (Adopt r)
  then obtain K where "only ks q K" "\<And>v. K v \<Longrightarrow> may ks r v" using k by auto
  with v have "\<And>v. res = Fulfilled v \<Longrightarrow> may ks r v" by (metis only_may)
  with Adopt t v p show ?thesis
    by (cases res) (auto intro: types_reject types_fulfil)
next
  case (Validate r chk)
  then obtain K where "only ks q K" "\<And>x. K (VResponse x) \<Longrightarrow> check_response chk x = Inr x \<Longrightarrow> may ks r (VResponse x)"
    using k by auto
  with v have "\<And>x. res = Fulfilled (VResponse x) \<Longrightarrow> check_response chk x = Inr x \<Longrightarrow> may ks r (VResponse x)"
    by (metis only_may)
  with Validate t v show ?thesis
    by (auto simp: validate_response_def dest: check_response_Inr intro!: types_reject types_fulfil
        split: outcome.split pval.split sum.split)
next
  case (RunOperation r rq)
  with t k show ?thesis by (auto intro: types_run_queued)
qed (use assms in \<open>auto simp: types_connect_fetched types_connect_opened types_reconnect_delayed
    types_reconnect_connected types_health_status\<close>)

lemma types_run_timer:
  assumes "types ks c" and "timer_typed ks k"
  shows "types ks (run_timer h k c)"
  using assms by (cases k) (auto simp: types_ensureHealthy types_resolve_unit types_waiter_timeout)

lemma types_run_call: "types ks c \<Longrightarrow> types ks (run_call h a c)"
  by (cases a) (simp_all add: types_connect types_disconnect types_afterHealthy types_reply types_sendEvent
      types_requestResponse send_def ask_def approve_def deny_def list_members_def status_def on_def off_def
      Let_def split: option.split)

lemma types_uncaught: "types ks (snd x) \<Longrightarrow> types ks (uncaught x)"
  by (simp add: uncaught_def types_emitLog split: option.split)

lemma typed_resumed:
  assumes "typed ks c" and "i < length (conts c)" and "conts c ! i = (q, k)" and "promise_of c q \<noteq> Pending"
  shows "typed ks (c\<lparr>conts := take i (conts c) @ drop (Suc i) (conts c)\<rparr>)" "cont_typed ks (q, k)"
    "\<And>v. promise_of c q = Fulfilled v \<Longrightarrow> may ks q v \<and> sent_value (log c) v"
proof -
  have "set (take i (conts c) @ drop (Suc i) (conts c)) \<subseteq> set (conts c)"
    by (auto dest: in_set_takeD in_set_dropD)
  with assms(1) show "typed ks (c\<lparr>conts := take i (conts c) @ drop (Suc i) (conts c)\<rparr>)"
    by (auto simp: typed_def)
  show "cont_typed ks (q, k)"
    using assms by (auto simp: typed_def dest!: nth_mem)
  show "may ks q v \<and> sent_value (log c) v" if "promise_of c q = Fulfilled v" for v
    using assms that by (auto simp: typed_def values_typed_def may_def promise_of_def split: if_splits)
qed

lemma is_fetch_case: "(case k of ConnectFetched _ _ _ _ \<Rightarrow> True | _ \<Rightarrow> False) = is_fetch k"
  by (cases k) auto

lemma types_act: "types ks c \<Longrightarrow> act h a c = Some d \<Longrightarrow> types ks d"
proof (erule types_step)
  fix ls assume t: "typed (ks @ ls) c" and a: "act h a c = Some d"
  note ty = types_refl [OF t]
  show "types (ks @ ls) d"
  proof (cases a)
    case (FetchDone p res)
    then have "fetching c p" using a by (auto split: if_splits)
    then obtain k where k: "(p, k) \<in> set (conts c)" "is_fetch k"
      by (force simp: fetching_def list_ex_iff is_fetch_case)
    then obtain r g ch pin where "(p, ConnectFetched r g ch pin) \<in> set (conts c)"
      by (cases k) auto
    with t have "cont_typed (ks @ ls) (p, ConnectFetched r g ch pin)" by (simp only: typed_def)
    then have "may (ks @ ls) p (VFetch x)" for x by simp
    with FetchDone a ty show ?thesis
      by (auto intro!: types_reject types_fulfil split: if_splits sum.splits)
  next
    case (Resume i)
    then obtain q k where i: "i < length (conts c)" "conts c ! i = (q, k)" "promise_of c q \<noteq> Pending"
        "d = run_cont h q k (promise_of c q) (c\<lparr>conts := take i (conts c) @ drop (Suc i) (conts c)\<rparr>)"
      using a by (auto split: if_splits prod.splits)
    note r = typed_resumed [OF t i(1-3)]
    show ?thesis
      unfolding i(4) by (rule types_run_cont [OF types_refl [OF r(1)] r(2)]) (use r(3) i(3) in auto)
  next
    case (Fire x)
    with a obtain dl k where f: "jm_get (timers c) x = Some (dl, k)" "d = run_timer h k (clearTimeout x c)"
      by (auto split: if_splits option.splits)
    then have "timer_typed (ks @ ls) k"
      using t jm_get_Some_in by (fastforce simp: typed_def)
    with f(2) ty show ?thesis by (simp add: types_run_timer types_clearTimeout)
  qed (use a ty in \<open>auto simp: types_run_call types_openHandler types_closeHandler types_errorHandler types_upd_socket
      listening_def intro!: types_uncaught types_messageHandler split: if_splits\<close>)
qed

lemma types_new_client: "types [] (new_client cfg delay t)"
  by (rule types_refl) (simp add: typed_def values_typed_def new_client_def)

interpretation client_types: client_invariant h "types []" for h
  by unfold_locales (rule types_act, assumption+, rule types_new_client)

interpretation typing_kept: invariant_system "act h" "types ks" for h ks
  by unfold_locales (rule types_act)

lemma types_value:
  assumes "types ks c" and "only ks p K" and "promise_of c p = Fulfilled v"
  shows "K v \<and> sent_value (log c) v"
proof -
  from assms(1) obtain ls where "typed (ks @ ls) c" by (auto simp: types_def)
  moreover from assms(3) have "p < length (promises c)" "promises c ! p = Fulfilled v"
    by (auto simp: promise_of_def split: if_splits)
  ultimately have "((ks @ ls) ! p) v \<and> sent_value (log c) v" by (auto simp: typed_def values_typed_def)
  with only_append [OF assms(2), of ls] show ?thesis by (auto simp: only_def)
qed

end
