(* ===== verification/Client_Wire.thy ===== *)
theory Client_Wire
  imports Wire_Types Client_Effects Client_Typed
begin

text \<open>
  The client and the relay speak the typed protocol: as long as the frames of the relay conform to the
  interfaces of \<open>protocol.ts\<close>, so do the frames of the client, and the responses it hands out.
\<close>

section \<open>The invariant\<close>

fun effect_ok :: "effect \<Rightarrow> bool" where
  "effect_ok (OSend s event text) = event_ok event"
| "effect_ok _ = True"

fun cont_ok :: "nat \<times> cont \<Rightarrow> bool" where
  "cont_ok (p, RunOperation r rq) = event_ok (req_event rq)"
| "cont_ok _ = True"

fun outcome_ok :: "pval outcome \<Rightarrow> bool" where
  "outcome_ok (Fulfilled (VResponse r)) = event_ok (rr_responseEvent r)"
| "outcome_ok _ = True"

definition target_ok :: "jsval \<times> jsval \<Rightarrow> bool" where
  "target_ok e = (as_string (snd e) \<noteq> None)"

text \<open>
  What is written conforms, and so do the requests that are queued, the responses that are held by promises and,
  as far as they are copied into replies, the events that were received.
\<close>

definition wired :: "relay_client \<Rightarrow> bool" where
  "wired c = (list_all effect_ok (log c) \<and> list_all cont_ok (conts c) \<and> list_all outcome_ok (promises c) \<and>
     list_all target_ok (replyTargets c))"

lemma wired_new_client: "wired (new_client cfg delay t)"
  by (simp add: wired_def new_client_def)

lemma wired_same:
  assumes "log d = log c" and "conts d = conts c" and "promises d = promises c" and "replyTargets d = replyTargets c"
  shows "wired d = wired c"
  using assms by (simp add: wired_def)

lemma wired_fields [simp]:
  "wired (d\<lparr>client_state := st\<rparr>) = wired d"
  "wired (d\<lparr>reconnectAttempt := a\<rparr>) = wired d"
  "wired (d\<lparr>reconnectGeneration := i\<rparr>) = wired d"
  "wired (d\<lparr>healthGeneration := i\<rparr>) = wired d"
  "wired (d\<lparr>connectionGeneration := i\<rparr>) = wired d"
  "wired (d\<lparr>reconnectPromise := p\<rparr>) = wired d"
  "wired (d\<lparr>healthCheckPromise := p\<rparr>) = wired d"
  "wired (d\<lparr>explicitDisconnect := b\<rparr>) = wired d"
  "wired (d\<lparr>argsHeap := ah\<rparr>) = wired d"
  "wired (d\<lparr>lastConnectArgs := la\<rparr>) = wired d"
  "wired (d\<lparr>handlers := hs\<rparr>) = wired d"
  "wired (d\<lparr>timers := ts\<rparr>) = wired d"
  "wired (d\<lparr>now := t\<rparr>) = wired d"
  "wired (d\<lparr>idCount := i\<rparr>) = wired d"
  "wired (d\<lparr>heartbeatTimer := x\<rparr>) = wired d"
  "wired (d\<lparr>reconnectTimer := x\<rparr>) = wired d"
  "wired (d\<lparr>reconnectTimerResolve := x\<rparr>) = wired d"
  "wired (d\<lparr>responseWaiters := ws\<rparr>) = wired d"
  "wired (d\<lparr>socket := k\<rparr>) = wired d"
  "wired (d\<lparr>sockets := ks, socket := k, socketCleanup := l, pendingOpenReject := m\<rparr>) = wired d"
  "wired (recordRelayActivity d) = wired d"
  "wired (cleanup s d) = wired d"
  "wired (stopHeartbeat d) = wired d"
  "wired (remember_device ch pin dv d) = wired d"
  "wired (upd_socket s f d) = wired d"
  "wired (clearTimeout i d) = wired d"
  "wired (snd (setTimeout tm i d)) = wired d"
  "wired (applyStateEvent event d) = wired d"
  by (rule wired_same; simp add: upd remember_device_def upd_socket_def clearTimeout_def setTimeout_def applyStateEvent_def
      Let_def split: option.split)+

section \<open>The operations\<close>

lemma outcome_ok_settled: "list_all outcome_ok ps \<Longrightarrow> outcome_ok v \<Longrightarrow> list_all outcome_ok (settled p v ps)"
  by (auto simp: settled_def list_all_iff dest!: set_update_subset_insert [THEN subsetD])

lemma wired_settle: "wired c \<Longrightarrow> outcome_ok v \<Longrightarrow> wired (settle p v c)"
  by (simp add: wired_def settle_def outcome_ok_settled)

lemma wired_settled [intro!]: "wired c \<Longrightarrow> wired (settle p (Rejected e) c)" "wired c \<Longrightarrow> wired (resolve_unit p c)"
  by (simp_all add: resolve_unit_def wired_settle)

lemma wired_new [intro!]: "wired c \<Longrightarrow> outcome_ok v \<Longrightarrow> wired (snd (newPromise v c))"
  by (simp add: wired_def newPromise_def)

lemma wired_await [intro!]: "wired c \<Longrightarrow> cont_ok (p, k) \<Longrightarrow> wired (await p k c)"
  by (simp add: wired_def await_def)

lemma wired_log [intro!]: "wired c \<Longrightarrow> effect_ok e \<Longrightarrow> wired (emitLog e c)"
  by (simp add: wired_def emitLog_def)

lemma wired_dispatch [intro!]: "wired c \<Longrightarrow> wired (emitError code err ds c)" "wired c \<Longrightarrow> wired (emit h ty event c)"
  by (auto simp: wired_def emitError_upd emit_upd list_all_iff handler_effects_def split: option.splits if_splits)

lemma wired_clearReconnectTimer [intro!]: "wired c \<Longrightarrow> wired (clearReconnectTimer c)"
  by (auto simp: wired_def clearReconnectTimer_upd outcome_ok_settled split: option.split)

lemma wired_rejectResponseWaiters [intro!]: "wired c \<Longrightarrow> wired (rejectResponseWaiters m c)"
proof -
  have "list_all outcome_ok ps \<Longrightarrow> list_all outcome_ok (fold (\<lambda>(k, w). settled (w_promise w) (Rejected (f k w))) ws ps)"
    for ws :: "(jsval \<times> waiter) list" and ps f
    by (induction ws arbitrary: ps) (auto simp: outcome_ok_settled)
  then show "wired c \<Longrightarrow> wired (rejectResponseWaiters m c)" by (simp add: wired_def rejectResponseWaiters_upd)
qed

lemma wired_rejectBeforeOpen [intro!]: "wired c \<Longrightarrow> wired (rejectBeforeOpen s e c)"
  by (auto simp: rejectBeforeOpen_def Let_def)

lemma wired_ws_close [intro!]: "wired c \<Longrightarrow> wired (ws_close s code reason c)"
  by (auto simp: ws_close_def)

lemma wired_closeCurrentSocket [intro!]: "wired c \<Longrightarrow> wired (closeCurrentSocket code reason b c)"
proof -
  assume c: "wired c"
  have "wired (c\<lparr>suppressReconnectForSocket := l, socket := k, socketCleanup := i\<rparr>) = wired c"
      "wired (c\<lparr>suppressReconnectForSocket := l\<rparr>) = wired c" "wired (c\<lparr>socket := k, socketCleanup := i\<rparr>) = wired c" for c k l i
    by (rule wired_same; simp)+
  with c show ?thesis by (auto simp: closeCurrentSocket_def Let_def split: option.split)
qed

lemma wired_openHandler [intro!]: "wired c \<Longrightarrow> wired (openHandler s c)"
proof -
  have "wired (c\<lparr>pendingOpenReject := l\<rparr>) = wired c" for c l by (rule wired_same; simp)
  then show "wired c \<Longrightarrow> wired (openHandler s c)" by (auto simp: openHandler_def Let_def set_transport_def)
qed

lemma wired_openSocket [intro!]:
  assumes "wired c"
  shows "wired (snd (openSocket h url token c))"
proof -
  have "wired (closeCurrentSocket None None True c)" (is "wired ?c1") using assms by (rule wired_closeCurrentSocket)
  moreover from this have "wired (emitLog (ONewSocket s u) ((snd (newPromise Pending ?c1))
      \<lparr>sockets := ks, socket := k, socketCleanup := l, pendingOpenReject := m\<rparr>))" for s u ks k l m
    by (intro wired_log) (auto intro: wired_new)
  ultimately show ?thesis by (auto simp: openSocket_def Let_def case_prod_unfold split: sum.split option.split)
qed

lemma wired_connectInternal [intro!]: "wired c \<Longrightarrow> wired (connectInternal h ch pin opts r c)"
  by (simp add: connectInternal_def wired_def newPromise_def emitLog_def await_def Let_def)

lemma wired_connect_fetched [intro!]:
  assumes "wired c"
  shows "wired (connect_fetched h r g ch pin res c)"
proof (cases rule: connect_fetched_cases [of h r g ch pin res c])
  case (opened resp cr c2 x c3)
  then have "wired c3" using assms wired_openSocket by (metis snd_conv wired_fields(1,24))
  then show ?thesis unfolding opened(7) by (auto split: sum.split)
qed (use assms in auto)

lemma wired_connect_opened [intro!]: "wired c \<Longrightarrow> wired (connect_opened r cr res c)"
  by (auto simp: connect_opened_def wired_settle split: outcome.split)

lemma wired_loop_head [intro!]: "wired c \<Longrightarrow> wired (loop_head r a g c)"
  by (auto simp: loop_head_def schedule_attempt_def waitForReconnectDelay_def case_prod_unfold Let_def)

lemma wired_reconnect_delayed [intro!]: "wired c \<Longrightarrow> wired (reconnect_delayed h r a g i c)"
  by (auto simp: reconnect_delayed_def case_prod_unfold Let_def)

lemma wired_reconnect_connected [intro!]: "wired c \<Longrightarrow> wired (reconnect_connected r a g res c)"
  by (auto simp: reconnect_connected_def split: outcome.split)

lemma wired_reconnect [intro!]: "wired c \<Longrightarrow> wired (snd (reconnect c))"
  by (auto simp: reconnect_def case_prod_unfold Let_def split: option.split)

lemma wired_health_reconnect [intro!]: "wired c \<Longrightarrow> wired (health_reconnect r g c)"
  by (auto simp: health_reconnect_def case_prod_unfold Let_def)

lemma wired_health_failed [intro!]: "wired c \<Longrightarrow> wired (health_failed r g e c)"
  by (auto simp: health_failed_def Let_def)


section \<open>Writing and receiving\<close>

lemma wired_sendEvent: "wired c \<Longrightarrow> event_ok event \<Longrightarrow> wired (snd (sendEvent h event c))"
  using event_ok_outbound [of event "idGenerator h (idCount c)" "st_channelId (client_state c)"]
  by (auto simp: sendEvent_def Let_def emitLog_def wired_def split: option.split)

lemma wired_requestResponse:
  assumes "wired c" and "event_ok event"
  shows "wired (snd (requestResponse h event ty ms code c))"
  using wired_sendEvent [OF assms, of h]
  by (cases "sendEvent h event c") (auto simp: requestResponse_def case_prod_unfold Let_def split: sum.split)

lemma wired_record_reply_target: "wired c \<Longrightarrow> event_ok event \<Longrightarrow> wired (record_reply_target event c)"
  using event_okD(4) [of event] set_jm_set_subset [of "get event ''id''" "get event ''from''" "replyTargets c"]
  by (auto simp: record_reply_target_def wired_def list_all_iff target_ok_def)

lemma wired_resolveResponseWaiter: "wired c \<Longrightarrow> event_ok event \<Longrightarrow> wired (resolveResponseWaiter event c)"
  by (auto simp: resolveResponseWaiter_def resolve_waiter_def drop_waiter_def Let_def wired_settle split: option.split)

text \<open>What the relay may send: texts that are no JSON, JSON that is no event, and events that conform.\<close>

definition text_ok :: "string \<Rightarrow> bool" where
  "text_ok text = (case json_parse text of
       None \<Rightarrow> True
     | Some event \<Rightarrow> event = JNull \<or> as_string (get event ''type'') = None \<or> event_ok event)"

definition frame_typed :: "client_host \<Rightarrow> jsval \<Rightarrow> bool" where
  "frame_typed h v = (case dataToString (buffer_from h) (messageData v) of Inr (Some text) \<Rightarrow> text_ok text | _ \<Rightarrow> True)"

lemma wired_messageHandler:
  "wired c \<Longrightarrow> frame_typed h v \<Longrightarrow> wired (snd (messageHandler h s v c))"
  by (auto simp: messageHandler_def handleSocketMessage_def frame_typed_def text_ok_def
      intro!: wired_record_reply_target wired_resolveResponseWaiter split: sum.splits option.splits)

section \<open>The requests of the operations\<close>

lemma operation_event_ok:
  "event_ok (message_event MessageSend (JStr to) [] text ''send'')"
  "event_ok (message_event MessageAsk (JStr to) [] text ''ask'')"
  "event_ok (message_event MessageReply (JStr to) [(''replyTo'', JStr i)] text ''reply'')"
  "event_ok (req_event (decision_request JoinApprove j d ms))"
  "event_ok (req_event (decision_request JoinDeny j d ms))"
  "event_ok (req_event (plain_request ListRequest ListResponse ms))"
  "event_ok (req_event (plain_request StatusRequest StatusResponse ms))"
  by (simp_all add: event_ok_def RelayEvent_def message_event_def decision_request_def plain_request_def
      payload_type_def interface_defs is_object_def)

lemma wired_start_health_check [intro!]:
  assumes "wired c"
  shows "wired (start_health_check h r c)"
proof -
  have "wired (snd (requestStatus h HEARTBEAT_TIMEOUT_MS c))"
    using wired_requestResponse [OF assms operation_event_ok(7) [of HEARTBEAT_TIMEOUT_MS]]
    by (simp add: requestStatus_def plain_request_def)
  with assms show ?thesis
    by (cases "requestStatus h HEARTBEAT_TIMEOUT_MS c") (auto simp: start_health_check_def Let_def split: sum.split)
qed

lemma wired_ensureHealthy [intro!]: "wired c \<Longrightarrow> wired (snd (ensureHealthy h c))"
  by (auto simp: ensureHealthy_def case_prod_unfold Let_def split: option.split)

lemma wired_health_status [intro!]: "wired c \<Longrightarrow> wired (health_status r g res c)"
  by (auto simp: health_status_def split: outcome.split)

lemma wired_run_operation:
  assumes "wired c" and "event_ok (req_event rq)"
  shows "wired (snd (run_operation h rq c))"
  using wired_requestResponse [OF assms, of h "req_responseType rq" "req_timeoutMs rq" "req_timeoutCode rq"]
  by (cases "requestResponse h (req_event rq) (req_responseType rq) (req_timeoutMs rq) (req_timeoutCode rq) c")
    (auto simp: run_operation_def case_prod_unfold split: sum.split)

lemma wired_run_queued:
  assumes "wired c" and "event_ok (req_event rq)"
  shows "wired (run_queued h r rq res c)"
  using wired_run_operation [OF assms, of h] assms
  by (cases "run_operation h rq c") (auto simp: run_queued_def split: outcome.split sum.split)

lemma wired_afterHealthy:
  assumes c: "wired c" and e: "event_ok (req_event rq)"
  shows "wired (snd (afterHealthy h rq c))"
proof -
  obtain x c1 where x: "ensureHealthy h c = (x, c1)" by fastforce
  then have c1: "wired c1" using wired_ensureHealthy [OF c] by (metis snd_conv)
  obtain y c2 where y: "run_operation h rq c1 = (y, c2)" by fastforce
  then have "wired c2" using wired_run_operation [OF c1 e] by (metis snd_conv)
  with c1 x y e show ?thesis
    by (auto simp: afterHealthy_def case_prod_unfold split: option.split sum.split)
qed

lemma wired_validate_response:
  "wired c \<Longrightarrow> outcome_ok res \<Longrightarrow> wired (validate_response r chk res c)"
  by (cases chk) (auto simp: validate_response_def wired_settle validateMessageAck_Inr validateJoinDecisionAck_Inr
      split: outcome.split pval.split sum.split)

section \<open>Every action\<close>

lemma reply_target_ok: "wired c \<Longrightarrow> jm_get (replyTargets c) k = Some v \<Longrightarrow> \<exists>s. v = JStr s"
  by (auto simp: wired_def list_all_iff target_ok_def dest!: jm_get_Some_in)

lemma wired_reply: "wired c \<Longrightarrow> wired (snd (reply h i m t c))"
  using reply_target_ok [of c "JStr i"]
  by (fastforce simp: reply_def message_request_def operation_event_ok intro!: wired_afterHealthy split: option.split)

lemma wired_connect: "wired c \<Longrightarrow> wired (snd (connect h ch pin opts c))"
  by (auto simp: connect_def case_prod_unfold Let_def)

lemma wired_disconnect: "wired c \<Longrightarrow> wired (snd (disconnect h code reason c))"
  by (auto simp: disconnect_def Let_def split: option.split)

lemma wired_closeHandler: "wired c \<Longrightarrow> wired (closeHandler s v c)"
  by (auto simp: closeHandler_def scheduleReconnect_def Let_def)

lemma wired_errorHandler: "wired c \<Longrightarrow> wired (errorHandler s v c)"
  by (auto simp: errorHandler_def)

text \<open>What is asked of the outside: raw events a caller sends, and frames of the relay, conform.\<close>

fun call_typed :: "call \<Rightarrow> bool" where
  "call_typed (SendEvent event) = event_ok event"
| "call_typed (RequestResponse event ty t code) = event_ok event"
| "call_typed _ = True"

fun action_typed :: "client_host \<Rightarrow> action \<Rightarrow> bool" where
  "action_typed h (Call a) = call_typed a"
| "action_typed h (SockMessage s v) = frame_typed h v"
| "action_typed h _ = True"

lemma wired_run_call: "wired c \<Longrightarrow> call_typed a \<Longrightarrow> wired (run_call h a c)"
  by (cases a) (auto simp: wired_connect wired_disconnect wired_reply send_def ask_def approve_def deny_def
      list_members_def status_def message_request_def operation_event_ok on_def off_def Let_def
      intro!: wired_afterHealthy wired_sendEvent wired_requestResponse split: option.split)

lemma wired_run_timer: "wired c \<Longrightarrow> wired (run_timer h k c)"
  by (cases k) (auto simp: waiter_timeout_def)

lemma wired_run_cont:
  assumes "wired c" and "cont_ok (p, k)" and "outcome_ok res"
  shows "wired (run_cont h p k res c)"
  using assms by (cases k) (auto simp: wired_run_queued wired_validate_response wired_settle)

lemma wired_act: "wired c \<Longrightarrow> action_typed h a \<Longrightarrow> act h a c = Some d \<Longrightarrow> wired d"
proof (cases a)
  case (Resume i)
  assume c: "wired c" and "act h a c = Some d"
  then obtain p k where i: "i < length (conts c)" "conts c ! i = (p, k)"
    and d: "d = run_cont h p k (promise_of c p) (c\<lparr>conts := take i (conts c) @ drop (Suc i) (conts c)\<rparr>)"
    using Resume by (auto split: if_splits prod.splits)
  have "outcome_ok (promise_of c p)" using c by (auto simp: wired_def promise_of_def list_all_length)
  moreover have "cont_ok (p, k)" using c i by (auto simp: wired_def list_all_length dest: spec [of _ i])
  moreover have "wired (c\<lparr>conts := take i (conts c) @ drop (Suc i) (conts c)\<rparr>)"
    using c by (auto simp: wired_def list_all_iff dest: in_set_takeD in_set_dropD)
  ultimately show ?thesis unfolding d by (intro wired_run_cont)
next
  case (SockMessage s v)
  assume "wired c" "action_typed h a" "act h a c = Some d"
  with SockMessage wired_messageHandler [of c h v s] show ?thesis
    by (auto simp: uncaught_def split: if_splits option.splits)
next
  case (Fire t)
  assume "wired c" "act h a c = Some d"
  with Fire show ?thesis by (auto intro!: wired_run_timer split: if_splits option.splits)
qed (auto simp: wired_run_call wired_closeHandler wired_errorHandler wired_settle split: if_splits sum.splits)

interpretation client_wired: invariant_system "\<lambda>a c. if action_typed h a then act h a c else None" wired for h
  by unfold_locales (auto intro: wired_act split: if_splits)

lemma typed_run: "list_all (action_typed h) as \<Longrightarrow>
    run_actions (\<lambda>a c. if action_typed h a then act h a c else None) as c = run_actions (act h) as c"
  by (induction as arbitrary: c) (auto split: option.split)

lemma wired_run: "run_actions (act h) as c = Some d \<Longrightarrow> list_all (action_typed h) as \<Longrightarrow> wired c \<Longrightarrow> wired d"
  using client_wired.run_inv [of h as c d] by (simp add: typed_run)

end
