(* ===== verification/Client_Operations.thy ===== *)
theory Client_Operations
  imports Client_Typed
begin

text \<open>
  What the tool calls of the client, as one interface: the methods of \<open>RemoteIntercomClient\<close>
  (tools/intercom-tool.ts) that return a promise. The locale \<open>promised_operation\<close> says what such a method
  promises its caller, and an interpretation for each method of the client shows that it keeps it.
\<close>

section \<open>The interface\<close>

text \<open>
  An operation is one of the client's calls (\<open>call_is\<close>), and whatever the client has promised so far
  (\<open>ks\<close>), it promises besides that what the operation returns is only ever fulfilled with a value of
  the operation's kind (\<open>promises_kind\<close>).
\<close>

locale promised_operation =
  fixes operation :: "client_host \<Rightarrow> relay_client \<Rightarrow> nat \<times> relay_client"
    and as_call :: call
    and yields :: kind
  assumes call_is: "run_call h as_call c = snd (operation h c)"
    and promises_kind: "types ks c \<Longrightarrow> operation h c = (p, d) \<Longrightarrow> \<exists>ls. types (ks @ ls) d \<and> only (ks @ ls) p yields"
begin

lemma called: "operation h c = (p, d) \<Longrightarrow> act h (Call as_call) c = Some d"
  by (simp add: call_is)

lemma reachable_after: "reachable h c \<Longrightarrow> operation h c = (p, d) \<Longrightarrow> reachable h d"
  using called by (blast intro: reachable.next_step client_step.step)

text \<open>However the client goes on, the promise is fulfilled with nothing else, and for a frame that was written.\<close>

lemma outcome:
  assumes "reachable h c" and "operation h c = (p, d)"
    and "run_actions (act h) as d = Some e" and "promise_of e p = Fulfilled v"
  shows "yields v \<and> sent_value (log e) v"
proof -
  from promises_kind [OF client_types.reachable_inv [OF assms(1)] assms(2)]
  obtain ls where "types ls d" "only ls p yields" by auto
  with typing_kept.run_inv [OF assms(3)] types_value [OF _ _ assms(4)] show ?thesis by blast
qed

end

section \<open>The client provides it\<close>

lemma afterHealthy_promises:
  "types ks c \<Longrightarrow> afterHealthy h rq c = (p, d) \<Longrightarrow> \<exists>ls. types (ks @ ls) d \<and> only (ks @ ls) p (request_kind rq)"
  by (metis afterHealthy_typed)

lemma afterHealthy_operation:
  assumes "\<And>h. operation h = afterHealthy h rq" and "\<And>h c. run_call h a c = snd (operation h c)"
  shows "promised_operation operation a (request_kind rq)"
  by unfold_locales (simp_all add: assms afterHealthy_promises)

interpretation connect_operation:
  promised_operation "\<lambda>h. connect h ch pin options" "Connect ch pin options" connect_kind for ch pin options
  by unfold_locales (simp, metis connect_typed)

interpretation reply_operation: promised_operation "\<lambda>h. reply h q m t" "Reply q m t"
  "\<lambda>v. \<exists>to. request_kind (message_request (message_event MessageReply to [(''replyTo'', JStr q)] m ''reply'') t) v" for q m t
  by unfold_locales (simp, metis reply_typed)

interpretation send_operation: promised_operation "\<lambda>h. send h to m t" "Send to m t"
  "request_kind (message_request (message_event MessageSend (JStr to) [] m ''send'') t)" for to m t
  by (rule afterHealthy_operation) (simp_all add: send_def)

interpretation ask_operation: promised_operation "\<lambda>h. ask h to m t" "Ask to m t"
  "request_kind (message_request (message_event MessageAsk (JStr to) [] m ''ask'') t)" for to m t
  by (rule afterHealthy_operation) (simp_all add: ask_def)

interpretation list_operation: promised_operation "\<lambda>h. list_members h t" "ListMembers t"
  "request_kind (plain_request ListRequest ListResponse t)" for t
  by (rule afterHealthy_operation) (simp_all add: list_members_def)

interpretation status_operation: promised_operation "\<lambda>h. status h t" "Status t"
  "request_kind (plain_request StatusRequest StatusResponse t)" for t
  by (rule afterHealthy_operation) (simp_all add: status_def)

interpretation approve_operation: promised_operation "\<lambda>h. approve h j t" "Approve j t"
  "request_kind (decision_request JoinApprove j ''approved'' t)" for j t
  by (rule afterHealthy_operation) (simp_all add: approve_def)

interpretation deny_operation: promised_operation "\<lambda>h. deny h j t" "Deny j t"
  "request_kind (decision_request JoinDeny j ''denied'' t)" for j t
  by (rule afterHealthy_operation) (simp_all add: deny_def)

end
