(* ===== verification/Client_Properties.thy ===== *)
theory Client_Properties
  imports Client_Race
begin

text \<open>
  The properties of the relay client, each with a witness on the states of \<open>Client_Demo\<close>.
\<close>

section \<open>Connections\<close>

text \<open>C5. In every reachable state at most one socket has listeners, and it is the current one: events of a
  replaced socket reach no handler. An attempt to open is pending exactly while the current socket
  has not opened yet.\<close>

theorem one_current_socket:
  assumes "reachable h c"
  shows "(\<forall>s < length (sockets c). ws_listening (sockets c ! s) \<longleftrightarrow> socket c = Some s) \<and>
    socketCleanup c = socket c \<and>
    (\<forall>s. pendingOpenReject c = Some s \<longleftrightarrow> socket c = Some s \<and> \<not> ws_settled (sockets c ! s))"
  using client_sound.reachable_inv [OF assms] by (simp add: sound_def socket_ok_def)

theorem one_current_socket_witness:
  "ws_listening (sockets demo_open ! 0) \<and> pendingOpenReject demo_open = None"
proof -
  have "length (sockets demo_open) = 1" "socket demo_open = Some 0" "ws_settled (sockets demo_open ! 0)"
    by (simp_all add: demo_open_def)
  with one_current_socket [OF demo_open_reachable] show ?thesis
    by (metis less_numeral_extra(1) not_None_eq option.inject)
qed

text \<open>Every promise that is not settled has a source that will settle it: an armed timer, a continuation
  of the client, a fetch in flight or the socket that is opening. No operation is left hanging.\<close>

theorem no_orphaned_promise:
  assumes "reachable h c" and "p < length (promises c)" and "promises c ! p = Pending"
  shows "(\<exists>t d k. jm_get (timers c) t = Some (d, k) \<and> timer_pid k = Some p) \<or>
    (\<exists>q k. (q, k) \<in> set (conts c) \<and> (cont_ret k = Some p \<or> q = p \<and> is_fetch k)) \<or>
    (\<exists>s. pendingOpenReject c = Some s \<and> ws_promise (sockets c ! s) = p)"
proof -
  have "p \<in> timer_src (timers c) \<union> cont_src (conts c) \<union> open_src (pendingOpenReject c) (sockets c)"
    using client_sound.reachable_inv [OF assms(1)] assms(2,3) by (auto simp: sound_def owed_def pending_def)
  then show ?thesis
    by (auto simp: timer_src_def cont_src_def open_src_def split: option.splits)
qed

theorem no_orphaned_promise_witness:
  "\<exists>t d k. jm_get (timers demo_sent) t = Some (d, k) \<and> timer_pid k = Some 3"
proof -
  have "3 < length (promises demo_sent)" "promises demo_sent ! 3 = Pending" "pendingOpenReject demo_sent = None"
    and k: "conts demo_sent = [(3, Validate 4 MessageAckCheck)]"
    by (simp_all add: demo_sent_def demo_open_def new_client_def)
  from no_orphaned_promise [OF demo_sent_reachable this(1,2)] this(3) show ?thesis
    by (auto simp: k)
qed

text \<open>C30. The heartbeat is the one timer of its kind: it is due 25 seconds after the last inbound frame and is
  armed only while the current socket has opened.\<close>

theorem heartbeat_deadline:
  assumes "reachable h c"
  shows "(jm_get (timers c) t = Some (d, THeartbeat) \<longleftrightarrow> heartbeatTimer c = Some t \<and> d = lastInboundAt c + 25000) \<and>
    (heartbeatTimer c = None \<or> (\<exists>s. socket c = Some s \<and> ws_settled (sockets c ! s)))"
  using client_sound.reachable_inv [OF assms]
  by (simp add: sound_def heart_ok_def beat_ok_def HEARTBEAT_INTERVAL_MS_def) auto

theorem heartbeat_deadline_witness:
  "jm_get (timers demo_open) 0 = Some (25000, THeartbeat) \<longleftrightarrow> heartbeatTimer demo_open = Some 0 \<and> lastInboundAt demo_open = 0"
  using heartbeat_deadline [OF demo_open_reachable, of 0 25000] by simp

text \<open>C31. A response that is awaited has a deadline: its waiter is keyed by the id of the written event, and an
  armed timer will reject it with the code of the operation.\<close>

theorem waiter_has_deadline:
  assumes "reachable h c" and "jm_get (responseWaiters c) k = Some w"
  shows "get (w_requestEvent w) ''id'' = k \<and>
    (\<exists>d. jm_get (timers c) (w_timer w) = Some (d, TWaiter k (w_promise w) (w_responseType w) (w_timeoutCode w)))"
  using client_sound.reachable_inv [OF assms(1)] jm_get_Some_in [OF assms(2)]
  by (auto simp: sound_def waiters_ok_def)

theorem waiter_has_deadline_witness:
  "\<exists>d. jm_get (timers demo_sent) 1 = Some (d, TWaiter (JStr ''0'') 3 ''message.ack'' (Some ''delivery_unknown''))"
  using waiter_has_deadline [OF demo_sent_reachable, of "JStr ''0''" demo_waiter]
  by (simp add: demo_sent_def demo_waiter_def)

text \<open>A close of the connection leaves nothing of it: no current socket, no listener, no heartbeat and no
  response waiter, and every other promise is still accounted for.\<close>

theorem close_leaves_nothing:
  assumes "reachable h c"
  shows "let d = closeCurrentSocket code reason suppress c in
     socket d = None \<and> pendingOpenReject d = None \<and> heartbeatTimer d = None \<and> responseWaiters d = [] \<and>
     (\<forall>s < length (sockets d). \<not> ws_listening (sockets d ! s)) \<and> (\<forall>t e. jm_get (timers d) t \<noteq> Some (e, THeartbeat))"
  using closeCurrentSocket_sound_gone [OF client_sound.reachable_inv [OF assms], of code reason suppress]
  by (simp add: Let_def sound_def no_connection_def socket_ok_def heart_ok_def)

theorem close_leaves_nothing_witness:
  "responseWaiters (closeCurrentSocket None None True demo_sent) = []"
  using close_leaves_nothing [OF demo_sent_reachable, of None None True] by (simp add: Let_def)

section \<open>Frames\<close>

text \<open>C22. Every frame the client has written is the serialisation of an event with an id and is at most 64 KiB.\<close>

theorem written_frames:
  assumes "reachable h c" and "OSend s event txt \<in> set (log c)"
  shows "txt = json_stringify event \<and> length txt \<le> 65536 \<and> get event ''id'' \<noteq> JUndef"
  using client_logs.reachable_inv [OF assms(1)] assms(2)
  by (fastforce simp: list_all_iff MAX_FRAME_def)

theorem written_frames_witness: "length (json_stringify demo_event) \<le> 65536"
proof -
  have "OSend 0 demo_event (json_stringify demo_event) \<in> set (log demo_sent)"
    by (simp add: demo_sent_def)
  with written_frames [OF demo_sent_reachable] show ?thesis by blast
qed

text \<open>C8. No frame is written twice for one call. After any run, for every type, recipient, reply target and
  payload, the frames written are at most the calls that ask for such a frame, however often the
  connection was lost, probed and reopened in between. Only the probes of the health check, which are
  status requests without payload, are not bound to a call.\<close>

theorem no_frame_replayed:
  assumes "run_actions (act h) as (new_client cfg delay t) = Some c" and "k \<noteq> probe_key"
  shows "length (filter (sends_key k) (log c)) \<le> sum_list (map (worth k) as)"
  using frames_bound [OF assms] .

theorem no_frame_replayed_witness:
  "length (filter (sends_key (frame_key demo_event)) (log demo_sent)) \<le> 1"
proof -
  have "run_actions (act demo_host) (connect_script @ [Call (Send ''b'' ''hi'' 100)]) (new_client demo_config None 0) = Some demo_sent"
    by (simp add: run_actions_append connect_run demo_send del: act.simps)
  moreover have "frame_key demo_event \<noteq> probe_key"
    by (simp add: frame_key_def demo_event_def probe_key_def)
  ultimately have "length (filter (sends_key (frame_key demo_event)) (log demo_sent)) \<le>
      sum_list (map (worth (frame_key demo_event)) (connect_script @ [Call (Send ''b'' ''hi'' 100)]))"
    by (rule no_frame_replayed)
  then show ?thesis
    by (auto simp: connect_script_def one_if_def split: if_splits)
qed

text \<open>C21. The outcome of a send: the event is returned exactly when it was written, on the open current socket
  and within the limit, and then the log grew by that one frame; otherwise nothing was written, and
  the error says that there is no open socket or that the frame is too large.\<close>

theorem sendEvent_outcome:
  "case sendEvent h event c of
     (Inr out, d) \<Rightarrow> socket_open c \<and> length (json_stringify out) \<le> 65536 \<and>
        log d = log c @ [OSend (the (socket c)) out (json_stringify out)] \<and> frame_key out = frame_key event
   | (Inl e, d) \<Rightarrow> log d = log c \<and>
        (if socket_open c then (\<exists>n > 65536. e = too_large n) else e = not_connected \<and> d = c)"
  by (auto simp: sendEvent_def Let_def emitLog_def frame_key_outbound socket_open_def MAX_FRAME_def
      split: option.split)

section \<open>Disconnecting and superseding\<close>

text \<open>C9. After a disconnect, until the next connect, the client does nothing to the outside: whatever timers
  fire, fetches answer, continuations run or operations are called, no request, socket, frame or close
  follows, and there is no current socket.\<close>

theorem silence_after_disconnect:
  assumes "reachable h c" and "act h (Call (Disconnect code reason)) c = Some d"
    and "list_all (\<lambda>a. \<not> is_connect a) as" and "run_actions (act h) as d = Some e"
  shows "socket e = None \<and> explicitDisconnect e \<and> (\<exists>es. log e = log d @ es \<and> list_all local_effect es)"
proof -
  have "gone d"
    using assms(2) disconnect_gone [OF client_sound.reachable_inv [OF assms(1)]] by auto
  from run_gone [OF this assms(3,4)] show ?thesis by (simp add: gone_def)
qed

theorem silence_after_disconnect_witness:
  "socket (run_call demo_host (Send ''b'' ''hi'' 1) ((snd (disconnect demo_host None None demo_sent))\<lparr>now := 30000\<rparr>)) = None"
proof -
  have run: "run_actions (act demo_host) [Tick n, Call a] d = Some (run_call demo_host a (d\<lparr>now := now d + n\<rparr>))" for n a d
    by simp
  have "now (snd (disconnect demo_host None None demo_sent)) = 0"
    by (simp add: disconnect_def Let_def closeCurrentSocket_def rejectBeforeOpen_def settle_def upd_socket_def upd
        demo_sent_def demo_open_def new_client_def split: option.split)
  then show ?thesis
    using silence_after_disconnect [OF demo_sent_reachable _ _ run, of None None _ 30000 "Send ''b'' ''hi'' 1"]
    by (simp del: run_call.simps(3))
qed

text \<open>C10. The generation counters admit one at a time: of the reconnect loops at most one is of the current
  generation, likewise of the connect attempts whose response is awaited, and no loop and no attempt is ahead of
  its counter, so an older one can never become current again.\<close>

theorem single_flight:
  assumes "reachable h c"
  shows "length (filter (\<lambda>(p, k). loop_gen k = Some (reconnectGeneration c)) (conts c)) \<le> 1 \<and>
    length (filter (\<lambda>(p, k). fetch_gen k = Some (connectionGeneration c)) (conts c)) \<le> 1 \<and>
    list_all (\<lambda>(p, k). \<forall>g \<in> set_option (loop_gen k). g \<le> reconnectGeneration c) (conts c) \<and>
    list_all (\<lambda>(p, k). \<forall>g \<in> set_option (fetch_gen k). g \<le> connectionGeneration c) (conts c)"
  using client_single.reachable_inv [OF assms]
  by (auto simp: single_def fenced_def list_all_iff)

text \<open>While the first connect waits for its response, a send has started a loop beside it: one of each, both current.\<close>

lemma racing_run:
  "\<exists>c r a g n r' g' ch pin. run_actions (act demo_host) (take 2 race_script) (new_client demo_config None 0) = Some c \<and>
     (4, ReconnectDelayed r a g n) \<in> set (conts c) \<and> g = reconnectGeneration c \<and>
     (1, ConnectFetched r' g' ch pin) \<in> set (conts c) \<and> g' = connectionGeneration c"
  by (simp add: race_script_def client_eval demo_eval reconnect_eval send_def)

lemma filter_one: "x \<in> set xs \<Longrightarrow> P x \<Longrightarrow> length (filter P xs) \<le> 1 \<Longrightarrow> length (filter P xs) = 1"
  by (metis One_nat_def filter_empty_conv le_Suc_eq le_zero_eq length_0_conv)

theorem single_flight_witness:
  "\<exists>c. run_actions (act demo_host) (take 2 race_script) (new_client demo_config None 0) = Some c \<and>
     length (filter (\<lambda>(p, k). loop_gen k = Some (reconnectGeneration c)) (conts c)) = 1 \<and>
     length (filter (\<lambda>(p, k). fetch_gen k = Some (connectionGeneration c)) (conts c)) = 1"
proof -
  obtain c r a n r' ch pin where c: "run_actions (act demo_host) (take 2 race_script) (new_client demo_config None 0) = Some c"
      and k: "(4, ReconnectDelayed r a (reconnectGeneration c) n) \<in> set (conts c)"
        "(1, ConnectFetched r' (connectionGeneration c) ch pin) \<in> set (conts c)"
    using racing_run by blast
  from single_flight [OF reachable_run [OF c]] show ?thesis
    using c filter_one [OF k(1), of "\<lambda>(p, k). loop_gen k = Some (reconnectGeneration c)"]
      filter_one [OF k(2), of "\<lambda>(p, k). fetch_gen k = Some (connectionGeneration c)"] by auto
qed

text \<open>A connect attempt that was superseded by a later connect or by a disconnect changes nothing when its
  response arrives, but rejects its own caller; with an acceptable response the code of the rejection is
  \<open>connection_cancelled\<close>.\<close>

theorem superseded_attempt_inert:
  assumes "generation \<noteq> connectionGeneration c \<or> explicitDisconnect c" and "res \<noteq> Pending"
  shows "\<exists>e. connect_fetched h r generation channel pin res c = settle r (Rejected e) c \<and>
     (\<forall>resp cr. res = Fulfilled (VFetch resp) \<and> check_connect resp = Inr cr \<longrightarrow> e = cancelled_error)"
  using assms
  by (cases res) (auto simp: connect_fetched_def Let_def split: pval.split sum.split)

theorem superseded_attempt_inert_witness:
  "\<exists>e. connect_fetched demo_host 0 0 ''c'' ''1'' (Fulfilled (VFetch demo_response)) demo_open =
     settle 0 (Rejected e) demo_open"
  using superseded_attempt_inert [of 0 demo_open "Fulfilled (VFetch demo_response)" demo_host 0 "''c''" "''1''"]
  by (auto simp: demo_open_def)

text \<open>A reconnect loop that finds itself superseded, or the client disconnected, ends without another step:
  only its own promise is resolved.\<close>

theorem superseded_loop_ends:
  assumes "explicitDisconnect c \<or> generation \<noteq> reconnectGeneration c"
  shows "loop_head r a generation c = resolve_unit r c \<and> reconnect_delayed h r a generation n c = resolve_unit r c \<and>
     reconnect_connected r a generation (Rejected e) c = resolve_unit r c"
  using assms by (auto simp: loop_head_def reconnect_delayed_def reconnect_connected_def)

theorem superseded_loop_ends_witness: "loop_head 9 0 0 demo_open = resolve_unit 9 demo_open"
  using superseded_loop_ends [of demo_open 0 9 0] by (simp add: demo_open_def)

section \<open>Backoff\<close>

text \<open>The delay before an attempt doubles from the base and is capped at five seconds.\<close>

theorem backoff:
  "reconnect_delay base n \<le> 5000 \<and> reconnect_delay base n \<le> reconnect_delay base (Suc n) \<and>
   reconnect_delay base (Suc n) = min (2 * reconnect_delay base n) 5000"
  by (simp add: reconnect_delay_def MAX_RECONNECT_DELAY_MS_def min_def)

text \<open>A live reconnect loop counts the attempt, arms one timer that is due exactly after the backoff delay,
  waits for that timer alone, and writes no frame and opens no connection meanwhile.\<close>

theorem retry_scheduled:
  assumes "\<not> explicitDisconnect c"
  shows "let d = loop_head r a (reconnectGeneration c) c; p = length (promises c) in
     reconnectAttempt d = reconnectAttempt c + 1 \<and> reconnectTimer d = Some (nextTimer c) \<and>
     jm_get (timers d) (nextTimer c) =
       Some (now c + reconnect_delay (reconnectDelayMs c) (reconnectAttempt c), TReconnect p) \<and>
     conts d = conts c @ [(p, ReconnectDelayed r a (reconnectGeneration c) (reconnectAttempt c + 1))] \<and>
     promises d = promises c @ [Pending] \<and> (\<exists>es. log d = log c @ es \<and> list_all local_effect es)"
  using assms
  by (simp add: loop_head_def schedule_attempt_def waitForReconnectDelay_def newPromise_def setTimeout_def
      await_def emitError_upd Let_def list_all_iff)

theorem retry_scheduled_witness:
  "reconnectTimer (loop_head 5 0 (reconnectGeneration demo_open) demo_open) = Some (nextTimer demo_open)"
  using retry_scheduled [of demo_open 5 0] by (simp add: Let_def demo_open_def new_client_def)

section \<open>Responses\<close>

text \<open>C20. An inbound event settles at most one awaited response, the one whose request it replies to. It is
  fulfilled only by an event of the awaited type with an object as payload, and then with exactly the
  request that was written and this event; an error event rejects it with the code it carries.\<close>

theorem response_correlated:
  assumes "promise_of (resolveResponseWaiter event c) p \<noteq> promise_of c p"
  shows "\<exists>w. jm_get (responseWaiters c) (get event ''replyTo'') = Some w \<and> w_promise w = p \<and> promise_of c p = Pending \<and>
    (case promise_of (resolveResponseWaiter event c) p of
       Fulfilled v \<Rightarrow> get event ''type'' = JStr (w_responseType w) \<and> get event ''type'' \<noteq> JStr (wire Error) \<and>
         is_object (get event ''payload'') \<and>
         v = VResponse \<lparr>rr_requestEvent = w_requestEvent w, rr_responseEvent = event, rr_payload = get event ''payload''\<rparr>
     | Rejected e \<Rightarrow> get e ''details'' = event \<and> (get event ''type'' = JStr (wire Error) \<longrightarrow>
         get e ''code'' = JStr (nullish_or (as_string (get (get event ''payload'') ''code'')) ''relay_error''))
     | Pending \<Rightarrow> False)"
proof -
  have drop: "promise_of (drop_waiter k w c) q = promise_of c q" for k w q
    by (simp add: drop_waiter_def clearTimeout_def promise_of_def)
  show ?thesis
    using assms
    by (auto simp: resolveResponseWaiter_def resolve_waiter_def promise_of_settle drop Let_def
        split: option.splits if_splits)
qed

definition demo_ack :: jsval where
  "demo_ack = JObj [(''type'', JStr ''message.ack''), (''replyTo'', JStr ''0''),
     (''payload'', JObj [(''status'', JStr ''delivered''), (''deviceId'', JStr ''b'')])]"

theorem response_correlated_witness:
  "\<exists>w. jm_get (responseWaiters demo_sent) (JStr ''0'') = Some w \<and> w_promise w = 3"
proof -
  have look: "jm_get (responseWaiters demo_sent) (JStr ''0'') = Some demo_waiter"
    by (simp add: demo_sent_def)
  have "resolveResponseWaiter demo_ack demo_sent = resolve_waiter demo_waiter demo_ack (drop_waiter (JStr ''0'') demo_waiter demo_sent)"
    using look by (simp add: resolveResponseWaiter_def Let_def demo_ack_def demo_waiter_def)
  also have "promise_of \<dots> 3 \<noteq> Pending"
    by (simp add: resolve_waiter_def is_object_def demo_ack_def demo_waiter_def drop_waiter_def clearTimeout_def
        promise_of_def settle_def settled_def) (simp add: demo_sent_def demo_open_def)
  finally have "promise_of (resolveResponseWaiter demo_ack demo_sent) 3 \<noteq> promise_of demo_sent 3"
    by (simp add: promise_of_def demo_sent_def demo_open_def)
  from response_correlated [OF this] show ?thesis
    by (auto simp: demo_ack_def)
qed

text \<open>The acknowledgement of a message counts only when its payload says delivered and names a device; the
  promise of the operation is fulfilled with the unchanged response, and rejected otherwise.\<close>

theorem only_delivered_fulfils:
  "validate_response r MessageAckCheck (Fulfilled (VResponse x)) c =
    (if get (rr_payload x) ''status'' = JStr ''delivered'' \<and> non_blank (get (rr_payload x) ''deviceId'')
     then settle r (Fulfilled (VResponse x)) c
     else settle r (Rejected (relay_client_error ''message acknowledgement payload did not match the request''
            JUndef (rr_responseEvent x) (Some ''invalid_response''))) c)"
  by (auto simp: validate_response_def validateMessageAck_def)

text \<open>A deadline that passes rejects the awaited response with the code of the operation, forgets the waiter,
  and neither writes nor repeats anything.\<close>

theorem deadline_rejects:
  assumes "jm_get (timers c) t = Some (d, TWaiter k p ty code)" and "d \<le> now c"
    and "p < length (promises c)" and "promises c ! p = Pending"
  shows "\<exists>e x. act h (Fire t) c = Some e \<and> promise_of e p = Rejected x \<and> get x ''code'' = opt_str code \<and>
     jm_get (responseWaiters e) k = None \<and> jm_get (timers e) t = None \<and> log e = log c \<and> conts e = conts c \<and>
     (\<forall>q. q \<noteq> p \<longrightarrow> promise_of e q = promise_of c q)"
  using assms
  by (simp add: waiter_timeout_def clearTimeout_def promise_of_settle step_simps)
    (simp add: promise_of_def settle_def)

theorem deadline_rejects_witness:
  "\<exists>e x. act demo_host (Fire 1) (demo_sent\<lparr>now := 100\<rparr>) = Some e \<and> promise_of e 3 = Rejected x \<and>
     get x ''code'' = JStr ''delivery_unknown''"
  using deadline_rejects [of "demo_sent\<lparr>now := 100\<rparr>" 1 100 "JStr ''0''" 3 "''message.ack''" "Some ''delivery_unknown''" demo_host]
  by (auto simp: demo_sent_def demo_open_def)

end
