(* ===== verification/Json_Roundtrip.thy ===== *)
theory Json_Roundtrip
  imports Json
begin

text \<open>
  What \<open>JSON.stringify\<close> writes, \<open>JSON.parse\<close> reads back, for the values the extension puts on
  the wire: texts without lone surrogates, integers, booleans, null, arrays and objects. Members that
  are undefined are not written.
\<close>

section \<open>Values that survive\<close>

fun no_surrogate :: "string \<Rightarrow> bool" where
  "no_surrogate [] = True"
| "no_surrogate (c # s) = (\<not> (c = CHR 0xED \<and> surrogate_tail s) \<and> no_surrogate s)"

fun json_ok :: "jsval \<Rightarrow> bool" and elems_ok :: "jsval list \<Rightarrow> bool" and members_ok :: "(string \<times> jsval) list \<Rightarrow> bool" where
  "json_ok JUndef = True"
| "json_ok JNull = True"
| "json_ok (JBool b) = True"
| "json_ok (JNum n) = (\<exists>m. n = Fin m 0 \<and> \<bar>m\<bar> < 10 ^ 21)"
| "json_ok (JStr s) = no_surrogate s"
| "json_ok (JArr xs) = elems_ok xs"
| "json_ok (JObj kvs) = (members_ok kvs \<and> distinct (map fst kvs))"
| "json_ok v = False"
| "elems_ok [] = True"
| "elems_ok (x # xs) = (json_ok x \<and> elems_ok xs)"
| "members_ok [] = True"
| "members_ok ((k, x) # kvs) = (no_surrogate k \<and> json_ok x \<and> members_ok kvs)"

text \<open>The value as it is read: undefined members are gone, undefined elements are null.\<close>

fun json_norm :: "jsval \<Rightarrow> jsval" and norm_elems :: "jsval list \<Rightarrow> jsval list"
  and norm_members :: "(string \<times> jsval) list \<Rightarrow> (string \<times> jsval) list" where
  "json_norm (JArr xs) = JArr (norm_elems xs)"
| "json_norm (JObj kvs) = JObj (norm_members kvs)"
| "json_norm v = v"
| "norm_elems [] = []"
| "norm_elems (x # xs) = (if x = JUndef then JNull else json_norm x) # norm_elems xs"
| "norm_members [] = []"
| "norm_members ((k, x) # kvs) = (if x = JUndef then norm_members kvs else (k, json_norm x) # norm_members kvs)"

section \<open>Strings\<close>

lemma hex_value_digit: "d < 16 \<Longrightarrow> hex_value (hex_digit d) = Some d"
  by (auto simp: hex_value_def hex_digit_def Let_def)

lemma parse_hex4_hex4: "n < 65536 \<Longrightarrow> parse_hex4 (hex4 n @ r) = Some n"
proof -
  assume n: "n < 65536"
  have "n div 16 div 16 = n div 256" "n div 256 div 16 = n div 4096"
    by (simp_all add: div_mult2_eq [symmetric])
  moreover from n have "n div 4096 mod 16 = n div 4096" by simp
  ultimately have "n div 4096 mod 16 * 4096 + n div 256 mod 16 * 256 + n div 16 mod 16 * 16 + n mod 16 = n"
    using div_mult_mod_eq [of n 16] div_mult_mod_eq [of "n div 16" 16] div_mult_mod_eq [of "n div 256" 16] by linarith
  with n show ?thesis by (simp add: hex4_def hex_value_digit)
qed

lemma escape_cases:
  obtains (simple) e where "json_escape c = [CHR 0x5C, e]" "e \<noteq> CHR ''u''" "simple_escape e = Some c"
  | (code) "json_escape c = [CHR 0x5C, CHR ''u''] @ hex4 (of_char c)" "(of_char c :: nat) < 32"
  | (plain) "json_escape c = [c]" "c \<noteq> CHR 0x22" "c \<noteq> CHR 0x5C" "\<not> (of_char c :: nat) < 32"
proof (cases "c \<in> {CHR 0x22, CHR 0x5C, CHR 0x08, CHR 0x09, CHR 0x0A, CHR 0x0C, CHR 0x0D}")
  case True
  then obtain e where "json_escape c = [CHR 0x5C, e]" "e \<noteq> CHR ''u''" "simple_escape e = Some c"
    by (auto simp: json_escape_def simple_escape_def)
  then show thesis by (rule simple)
next
  case False
  then have "json_escape c = (if (of_char c :: nat) < 32 then [CHR 0x5C, CHR ''u''] @ hex4 (of_char c) else [c])"
    by (simp add: json_escape_def)
  with False code plain show thesis by (cases "(of_char c :: nat) < 32") simp_all
qed

lemma unescape_small:
  assumes "n < 32"
  shows "unescape_u (hex4 n @ r) = Some ([char_of n], 4)"
  using assms by (simp add: unescape_u_def parse_hex4_hex4 utf8_encode_def split: option.split)

lemma parse_quoted:
  "no_surrogate s \<Longrightarrow> parse_string_body (quote_body s @ CHR 0x22 # rest) = Some (s, rest)"
proof (induction s rule: quote_body.induct)
  case (2 c s)
  then have c: "\<not> (c = CHR 0xED \<and> surrogate_tail s)" "no_surrogate s" by simp_all
  with 2 have IH: "parse_string_body (quote_body s @ CHR 0x22 # rest) = Some (s, rest)" by blast
  have q: "quote_body (c # s) = json_escape c @ quote_body s" using c(1) by (simp only: quote_body.simps if_False)
  show ?case
  proof (cases c rule: escape_cases)
    case (simple e)
    then show ?thesis by (simp add: q IH del: quote_body.simps)
  next
    case code
    have "parse_string_body ((CHR 0x5C # CHR ''u'' # hex4 (of_char c)) @ quote_body s @ CHR 0x22 # rest) = Some (c # s, rest)"
      using unescape_small [OF code(2), of "quote_body s @ CHR 0x22 # rest"] IH by (simp add: hex4_def)
    then show ?thesis by (simp add: q code(1) del: quote_body.simps)
  next
    case plain
    then show ?thesis by (simp add: q IH del: quote_body.simps)
  qed
qed simp

section \<open>Integers\<close>

text \<open>What may follow a value in a JSON text.\<close>

definition stop :: "string \<Rightarrow> bool" where
  "stop r = (r = [] \<or> hd r \<in> {CHR '','', CHR '']'', CHR ''}'', CHR 0x0A})"

lemma of_char_digit: "d < 10 \<Longrightarrow> (of_char (digit_char d) :: nat) = 48 + d" "d < 10 \<Longrightarrow> (of_char (digit_char d) :: int) = 48 + int d"
proof -
  assume "d < 10"
  then show n: "(of_char (digit_char d) :: nat) = 48 + d"
    by (simp add: digit_char_def)
  then have "int (of_char (digit_char d)) = int (48 + d)" by (rule arg_cong)
  then show "(of_char (digit_char d) :: int) = 48 + int d" by (simp only: of_nat_of_char)
qed

lemma digits10_lt: "d \<in> set (digits10 n) \<Longrightarrow> d < 10"
proof (induction n rule: digits10.induct)
  case (1 n)
  then show ?case by (cases "n < 10") (auto simp: digits10_eval)
qed

lemma digits10_length: "n < 10 ^ k \<Longrightarrow> 0 < k \<Longrightarrow> length (digits10 n) \<le> k"
proof (induction k arbitrary: n)
  case (Suc k)
  show ?case
  proof (cases "n < 10")
    case False
    with Suc.prems have "n div 10 < 10 ^ k" "k \<noteq> 0" by (auto simp: div_less_iff_less_mult mult.commute intro: ccontr)
    with Suc.IH [of "n div 10"] False show ?thesis by (simp add: digits10_eval)
  qed (simp add: digits10_eval)
qed simp

lemma digits10_hd: "0 < n \<Longrightarrow> digits10 n = d # ds \<Longrightarrow> d \<noteq> 0"
proof (induction n arbitrary: d ds rule: digits10.induct)
  case (1 n)
  show ?case
  proof (cases "n < 10")
    case False
    then obtain e es where "digits10 (n div 10) = e # es"
      by (metis digits10.simps append_is_Nil_conv list.exhaust list.distinct(1))
    with 1 False show ?thesis by (auto simp: digits10_eval)
  qed (use 1 in \<open>simp add: digits10_eval\<close>)
qed

lemma digits10_value: "digits_value (map digit_char (digits10 n)) = int n"
proof (induction n rule: digits10.induct)
  case (1 n)
  show ?case
  proof (cases "n < 10")
    case True
    then show ?thesis by (simp add: digits10_eval digits_value_def of_char_digit(2))
  next
    case False
    have "digits_value (map digit_char (digits10 n)) =
        digits_value (map digit_char (digits10 (n div 10))) * 10 + int (n mod 10)"
      using False by (simp add: digits10_eval digits_value_def of_char_digit(2))
    also have "\<dots> = int n" using 1 False by (simp add: zmod_int zdiv_int)
    finally show ?thesis .
  qed
qed

lemma strip_zeros_replicate: "replicate (length ds - length (strip_zeros ds)) 0 @ strip_zeros ds = ds"
proof (induction ds rule: strip_zeros.induct)
  case (1 ds)
  have "length (strip_zeros ds) \<le> length ds" by (induction ds rule: strip_zeros.induct) auto
  with 1 show ?case by (simp add: Suc_diff_le)
qed simp_all

lemma num_str_int:
  assumes "m \<noteq> 0" and "\<bar>m\<bar> < 10 ^ 21"
  shows "num_str m 0 = (if m < 0 then ''-'' else []) @ map digit_char (digits10 (nat \<bar>m\<bar>))"
proof -
  define all where "all = digits10 (nat \<bar>m\<bar>)"
  define ds where "ds = rev (strip_zeros (rev all))"
  have "nat \<bar>m\<bar> < 10 ^ 21" using assms(2) by (simp add: nat_less_iff)
  then have le: "int (length all) \<le> 21" using digits10_length [of "nat \<bar>m\<bar>" 21] by (simp add: all_def)
  have "rev (replicate (length all - length (strip_zeros (rev all))) 0 @ strip_zeros (rev all)) = all"
    using strip_zeros_replicate [of "rev all"] by simp
  then have ds: "ds @ replicate (length all - length ds) 0 = all" by (simp add: ds_def)
  then have l: "int (length ds) \<le> int (length all)" by (metis length_append le_add1 of_nat_mono)
  have "map digit_char ds @ replicate (length all - length ds) CHR ''0'' = map digit_char all"
    using arg_cong [OF ds, of "map digit_char"] by (simp add: digit_char_eval)
  moreover have "nat (int (length all) - int (length ds)) = length all - length ds" by simp
  ultimately show ?thesis
    using assms(1) le l
    by (simp add: num_str_def Let_def all_def [symmetric] ds_def [symmetric] del: map_append)
qed

lemma digit_digit_char: "d < 10 \<Longrightarrow> digit (digit_char d)"
  by (simp add: digit_def of_char_digit)

lemma stop_not_digit: "stop r \<Longrightarrow> r = c # t \<Longrightarrow> \<not> digit c \<and> c \<noteq> CHR ''.'' \<and> c \<noteq> CHR ''e'' \<and> c \<noteq> CHR ''E''"
  by (auto simp: stop_def digit_def)

lemma takeWhile_digits:
  assumes "stop r"
  shows "takeWhile digit (map digit_char (digits10 n) @ r) = map digit_char (digits10 n)"
    and "dropWhile digit (map digit_char (digits10 n) @ r) = r"
proof -
  have ds: "\<forall>c \<in> set (map digit_char (digits10 n)). digit c"
    by (auto dest: digits10_lt simp: digit_digit_char)
  moreover have "takeWhile digit r = []" "dropWhile digit r = r"
    using stop_not_digit [OF assms] by (cases r; simp)+
  ultimately show "takeWhile digit (map digit_char (digits10 n) @ r) = map digit_char (digits10 n)"
    and "dropWhile digit (map digit_char (digits10 n) @ r) = r"
    by (metis takeWhile_append2 append_Nil2, metis dropWhile_append2)
qed

lemma parse_frac_exp: "stop r \<Longrightarrow> parse_frac r = Some ([], r)" "stop r \<Longrightarrow> parse_exp r = Some (0, r)"
  using stop_not_digit by (auto simp: parse_frac_def parse_exp_def split: list.split)

lemma parse_int:
  assumes "stop r" and "\<bar>m\<bar> < 10 ^ 21"
  shows "parse_number (num_str m 0 @ r) = Some (Fin m 0, r)"
proof (cases "m = 0")
  case True
  then show ?thesis
    using assms(1) by (simp add: num_str_def parse_number_def Let_def parse_int_part_def parse_frac_exp digits_value_def)
next
  case False
  let ?n = "nat \<bar>m\<bar>"
  obtain d ds where d: "digits10 ?n = d # ds"
    by (metis digits10.simps append_is_Nil_conv list.exhaust list.distinct(1))
  have "d < 10" "d \<noteq> 0" using digits10_lt [of d ?n] digits10_hd [OF _ d] d False by auto
  then have c: "digit_char d \<noteq> CHR ''0''" "digit_char d \<noteq> CHR ''-''" "digit (digit_char d)"
    using of_char_digit(1) [of d] by (auto simp: digit_digit_char)
  have "parse_int_part (map digit_char (digits10 ?n) @ r) = Some (map digit_char (digits10 ?n), r)"
    using takeWhile_digits [OF assms(1), of ?n] c by (simp add: parse_int_part_def d)
  with c show ?thesis
    using False assms digits10_value [of ?n]
    by (simp add: num_str_int parse_number_def Let_def parse_frac_exp d)
qed

section \<open>Values\<close>

lemma skip_ws_id: "\<not> json_ws c \<Longrightarrow> skip_ws (c # r) = c # r"
  by (simp add: skip_ws_def)

lemma json_ws_marks [simp]:
  "\<not> json_ws CHR 0x22" "\<not> json_ws CHR ''['' " "\<not> json_ws CHR '']''" "\<not> json_ws CHR ''{''" "\<not> json_ws CHR ''}''"
  "\<not> json_ws CHR '',''" "\<not> json_ws CHR '':''" "\<not> json_ws CHR ''n''" "\<not> json_ws CHR ''t''" "\<not> json_ws CHR ''f''"
  by (simp_all add: json_ws_def)

lemma stop_marks [simp]: "stop (CHR '','' # r)" "stop (CHR '']'' # r)" "stop (CHR ''}'' # r)" "stop []"
  by (simp_all add: stop_def)

definition value_start :: "char \<Rightarrow> bool" where
  "value_start c = (\<not> json_ws c \<and> c \<noteq> CHR '']'' \<and> c \<noteq> CHR ''}'')"

lemma num_str_head:
  assumes "\<bar>m\<bar> < 10 ^ 21"
  obtains c r where "num_str m 0 = c # r" "c = CHR ''-'' \<or> digit c"
proof (cases "m = 0")
  case True
  then show thesis by (intro that [of "CHR ''0''" "[]"]) (simp_all add: num_str_def digit_def)
next
  case False
  obtain d ds where d: "digits10 (nat \<bar>m\<bar>) = d # ds"
    by (metis digits10.simps append_is_Nil_conv list.exhaust list.distinct(1))
  then have "digit (digit_char d)" using digits10_lt [of d "nat \<bar>m\<bar>"] by (simp add: digit_digit_char)
  with d False assms that show thesis by (cases "m < 0") (auto simp: num_str_int)
qed

lemma number_start: "c = CHR ''-'' \<or> digit c \<Longrightarrow> value_start c \<and> c \<noteq> CHR 0x22 \<and> c \<noteq> CHR ''['' \<and> c \<noteq> CHR ''{'' \<and>
    c \<noteq> CHR ''n'' \<and> c \<noteq> CHR ''t'' \<and> c \<noteq> CHR ''f''"
  by (auto simp: value_start_def json_ws_def digit_def)

lemma value_start_marks [simp]: "value_start CHR 0x22" "value_start CHR ''['' " "value_start CHR ''{''"
    "value_start CHR ''n''" "value_start CHR ''t''" "value_start CHR ''f''"
  by (simp_all add: value_start_def)

lemma json_val_head:
  assumes "json_ok v" and "json_val v = Some t"
  shows "\<exists>c r. t = c # r \<and> value_start c"
proof (cases v)
  case (JNum n)
  with assms obtain m where m: "t = num_str m 0" "\<bar>m\<bar> < 10 ^ 21" by auto
  from m(2) obtain c r where "num_str m 0 = c # r" "c = CHR ''-'' \<or> digit c" by (rule num_str_head)
  with m number_start show ?thesis by blast
next
  case (JBool b)
  with assms have "t = (if b then ''true'' else ''false'')" by simp
  then show ?thesis by (cases b) simp_all
next
  case JNull
  with assms have "t = ''null''" by simp
  then show ?thesis by simp
next
  case (JStr s)
  with assms(2) have "t = CHR 0x22 # quote_body s @ [CHR 0x22]" by (simp add: json_quote_def)
  then show ?thesis by simp
next
  case (JArr xs)
  with assms(2) have "t = CHR ''['' # comma_sep (json_elems xs) @ '']''" by simp
  then show ?thesis by simp
next
  case (JObj kvs)
  with assms(2) have "t = CHR ''{'' # comma_sep (json_members kvs) @ ''}''" by simp
  then show ?thesis by simp
qed (use assms in simp_all)

lemma parse_value_string:
  "no_surrogate s \<Longrightarrow> parse_value (json_quote s @ r) = Some (JStr s, r)"
  by (subst parse_value.simps) (simp add: json_quote_def skip_ws_id parse_quoted)

lemma parse_value_int:
  assumes "stop r" and "\<bar>m\<bar> < 10 ^ 21"
  shows "parse_value (num_str m 0 @ r) = Some (JNum (Fin m 0), r)"
proof -
  from assms(2) obtain c t where t: "num_str m 0 = c # t" "c = CHR ''-'' \<or> digit c" by (rule num_str_head)
  then have "parse_literal (num_str m 0 @ r) = Some (JNum (Fin m 0), r)"
    using number_start [OF t(2)] parse_int [OF assms] by (simp add: parse_literal_def)
  then show ?thesis
    using number_start [OF t(2)] by (subst parse_value.simps) (simp add: t(1) skip_ws_id value_start_def)
qed

lemma comma_sep_Cons: "comma_sep (s # ss) = s @ (if ss = [] then [] else CHR '','' # comma_sep ss)"
  by (cases ss) simp_all

lemma fold_update: "distinct (map fst xs) \<Longrightarrow> fst ` set acc \<inter> fst ` set xs = {} \<Longrightarrow>
    fold (\<lambda>(k, x). AList.update k x) xs acc = acc @ xs"
proof (induction xs arbitrary: acc)
  case (Cons e xs)
  obtain k x where e: "e = (k, x)" by fastforce
  have "AList.update k x acc = acc @ [(k, x)]"
    using jm_set_new [of k acc x] Cons.prems(2) e by (auto simp: jm_set_def)
  with Cons e show ?case by auto
qed simp

lemma norm_members_keys: "set (map fst (norm_members kvs)) \<subseteq> set (map fst kvs)"
proof (induction kvs)
  case (Cons e kvs)
  then show ?case by (cases e) auto
qed simp

lemma norm_members_distinct: "distinct (map fst kvs) \<Longrightarrow> distinct (map fst (norm_members kvs))"
proof (induction kvs)
  case (Cons e kvs)
  then show ?case using norm_members_keys [of kvs] by (cases e) auto
qed simp

lemma json_members_empty: "members_ok kvs \<Longrightarrow> json_members kvs = [] \<longleftrightarrow> norm_members kvs = []"
proof (induction kvs)
  case (Cons e kvs)
  then show ?case by (cases e; cases "snd e") (auto split: option.split)
qed simp

lemma json_elems_empty: "json_elems xs = [] \<longleftrightarrow> xs = []"
  by (cases xs) simp_all

text \<open>The text of an element, and what it is read as.\<close>

lemma parse_elems_step:
  assumes "parse_value (s @ r) = Some (v, r)" and "s \<noteq> []" and "r = CHR '']'' # rest \<or> r = CHR '','' # t"
  shows "parse_elems (s @ r) =
    (if r = CHR '']'' # rest then Some ([v], rest) else map_option (\<lambda>(xs, u). (v # xs, u)) (parse_elems t))"
  using assms by (subst parse_elems.simps) (auto simp: skip_ws_id)

lemma parse_members_step:
  assumes "parse_value (s @ r) = Some (v, r)" and "s \<noteq> []" and "r = CHR ''}'' # rest \<or> r = CHR '','' # t"
    and "no_surrogate k"
  shows "parse_members ((json_quote k @ CHR '':'' # s) @ r) =
    (if r = CHR ''}'' # rest then Some ([(k, v)], rest) else map_option (\<lambda>(kvs, u). ((k, v) # kvs, u)) (parse_members t))"
  using assms by (subst parse_members.simps) (auto simp: json_quote_def parse_quoted skip_ws_id)

definition elem_text :: "jsval \<Rightarrow> string" where
  "elem_text x = (case json_val x of None \<Rightarrow> ''null'' | Some s \<Rightarrow> s)"

lemma json_val_None: "json_ok x \<Longrightarrow> json_val x = None \<longleftrightarrow> x = JUndef"
  by (cases x) auto

lemma elem_text_head: "json_ok x \<Longrightarrow> \<exists>c r. elem_text x = c # r \<and> value_start c"
  using json_val_head [of x] by (cases "json_val x") (simp_all add: elem_text_def)

lemma elems_head: "elems_ok xs \<Longrightarrow> xs \<noteq> [] \<Longrightarrow> \<exists>c r. comma_sep (json_elems xs) = c # r \<and> value_start c"
  by (cases xs) (auto simp: comma_sep_Cons elem_text_def [symmetric] dest!: elem_text_head)

lemma members_head:
  "members_ok kvs \<Longrightarrow> norm_members kvs \<noteq> [] \<Longrightarrow> \<exists>r. comma_sep (json_members kvs) = CHR 0x22 # r"
proof (induction kvs)
  case (Cons e kvs)
  obtain k x where e: "e = (k, x)" by fastforce
  with Cons show ?case
    by (cases "json_val x") (auto simp: comma_sep_Cons json_quote_def json_val_None)
qed simp

lemma roundtrip:
  "json_ok v \<Longrightarrow> json_val v = Some t \<Longrightarrow> stop r \<Longrightarrow> parse_value (t @ r) = Some (json_norm v, r)"
  "elems_ok xs \<Longrightarrow> xs \<noteq> [] \<Longrightarrow> parse_elems (comma_sep (json_elems xs) @ CHR '']'' # r) = Some (norm_elems xs, r)"
  "members_ok kvs \<Longrightarrow> norm_members kvs \<noteq> [] \<Longrightarrow>
     parse_members (comma_sep (json_members kvs) @ CHR ''}'' # r) = Some (norm_members kvs, r)"
proof (induction v and xs and kvs arbitrary: t r and r and r rule: json_val_json_elems_json_members.induct)
  case 2
  then show ?case by (subst parse_value.simps) (auto simp: skip_ws_id parse_literal_def)
next
  case (3 b)
  then show ?case by (subst parse_value.simps) (auto simp: skip_ws_id parse_literal_def)
next
  case (4 n)
  then show ?case by (auto simp: parse_value_int)
next
  case (5 s)
  then show ?case by (auto simp: parse_value_string)
next
  case (6 xs)
  show ?case
  proof (cases "xs = []")
    case True
    with 6(3) have "t @ r = CHR ''['' # CHR '']'' # r" by auto
    with True show ?thesis by (subst parse_value.simps) (simp add: skip_ws_id)
  next
    case False
    from 6(2) have ok: "elems_ok xs" by simp
    then obtain c u where c: "comma_sep (json_elems xs) = c # u" "value_start c"
      using elems_head False by blast
    from 6(1) [OF ok False, of r] have "parse_elems (c # u @ CHR '']'' # r) = Some (norm_elems xs, r)" by (simp add: c(1))
    moreover from 6(3) have "t @ r = CHR ''['' # comma_sep (json_elems xs) @ CHR '']'' # r" by auto
    then have "t @ r = CHR ''['' # c # u @ CHR '']'' # r" by (simp add: c(1))
    ultimately show ?thesis
      using c(2) by (subst parse_value.simps) (simp add: skip_ws_id value_start_def)
  qed
next
  case (7 kvs)
  show ?case
  proof (cases "norm_members kvs = []")
    case True
    with 7(2,3) json_members_empty [of kvs] have "t @ r = CHR ''{'' # CHR ''}'' # r" by auto
    with True show ?thesis by (subst parse_value.simps) (simp add: skip_ws_id)
  next
    case False
    from 7(2) have ok: "members_ok kvs" "distinct (map fst kvs)" by simp_all
    then obtain u where u: "comma_sep (json_members kvs) = CHR 0x22 # u"
      using members_head False by blast
    from 7(1) [OF ok(1) False, of r] have "parse_members (CHR 0x22 # u @ CHR ''}'' # r) = Some (norm_members kvs, r)" by (simp add: u)
    moreover from 7(3) have "t @ r = CHR ''{'' # comma_sep (json_members kvs) @ CHR ''}'' # r" by auto
    then have "t @ r = CHR ''{'' # CHR 0x22 # u @ CHR ''}'' # r" by (simp add: u)
    moreover from ok(2) have "fold (\<lambda>(k, x). AList.update k x) (norm_members kvs) [] = norm_members kvs"
      using fold_update [OF norm_members_distinct, of kvs "[]"] by simp
    ultimately show ?thesis
      by (subst parse_value.simps) (simp add: skip_ws_id)
  qed
next
  case (12 x xs)
  let ?r = "if xs = [] then CHR '']'' # r else CHR '','' # comma_sep (json_elems xs) @ CHR '']'' # r"
  let ?v = "if x = JUndef then JNull else json_norm x"
  have x: "json_ok x" "elems_ok xs" using 12(3) by simp_all
  have "parse_value (elem_text x @ ?r) = Some (?v, ?r)"
  proof (cases "json_val x")
    case None
    with x have "x = JUndef" by (simp add: json_val_None)
    then show ?thesis by (subst parse_value.simps) (simp add: elem_text_def skip_ws_id parse_literal_def)
  next
    case (Some t)
    with x 12(1) [of t ?r] show ?thesis by (auto simp: elem_text_def)
  qed
  moreover have "elem_text x \<noteq> []" using elem_text_head [OF x(1)] by auto
  ultimately have "parse_elems (elem_text x @ ?r) = (if ?r = CHR '']'' # r then Some ([?v], r)
      else map_option (\<lambda>(ys, u). (?v # ys, u)) (parse_elems (comma_sep (json_elems xs) @ CHR '']'' # r)))"
    by (rule parse_elems_step) auto
  then show ?case
    using 12(2) x by (auto simp: comma_sep_Cons elem_text_def [symmetric] json_elems_empty split: if_splits)
next
  case (14 k x kvs)
  have x: "no_surrogate k" "json_ok x" "members_ok kvs" using 14(4) by simp_all
  show ?case
  proof (cases "json_val x")
    case None
    with x have "x = JUndef" by (simp add: json_val_None)
    with 14 show ?thesis by simp
  next
    case (Some t)
    let ?r = "if norm_members kvs = [] then CHR ''}'' # r else CHR '','' # comma_sep (json_members kvs) @ CHR ''}'' # r"
    from Some x have "x \<noteq> JUndef" by auto
    have "parse_value (t @ ?r) = Some (json_norm x, ?r)" using 14 Some x by auto
    moreover have "t \<noteq> []" using json_val_head [OF x(2) Some] by auto
    ultimately have "parse_members ((json_quote k @ CHR '':'' # t) @ ?r) = (if ?r = CHR ''}'' # r then Some ([(k, json_norm x)], r)
        else map_option (\<lambda>(ys, u). ((k, json_norm x) # ys, u)) (parse_members (comma_sep (json_members kvs) @ CHR ''}'' # r)))"
      using x(1) by (intro parse_members_step) auto
    then show ?thesis
      using 14 Some x \<open>x \<noteq> JUndef\<close> json_members_empty [OF x(3)]
      by (auto simp: comma_sep_Cons split: if_splits)
  qed
qed simp_all

text \<open>Reading what was written gives the value back.\<close>

lemma json_roundtrip:
  assumes "json_ok v" and "v \<noteq> JUndef"
  shows "json_parse (json_stringify v) = Some (json_norm v)"
proof -
  obtain t where t: "json_val v = Some t" using json_val_None [OF assms(1)] assms(2) by auto
  with roundtrip(1) [OF assms(1) t, of "[]"] show ?thesis
    by (simp add: json_parse_def json_stringify_def skip_ws_def)
qed

end
