(* ===== verification/Client_Outcomes.thy ===== *)
theory Client_Outcomes
  imports Client_Operations Client_Properties Json_Roundtrip
begin

text \<open>
  What the promises of operations tell their callers, over whole runs: a send, an ask or a reply that
  is fulfilled was acknowledged by the relay as delivered, an approval or denial was decided as asked,
  and what was written can be read back.
\<close>

section \<open>A delivered message\<close>

text \<open>The message of \<open>demo_sent\<close> is acknowledged, and the operation's promise is fulfilled.\<close>

lemma demo_ack_parse: "json_parse (json_stringify demo_ack) = Some demo_ack"
  using json_roundtrip [of demo_ack] by (simp add: demo_ack_def)

definition demo_delivery :: request_response where
  "demo_delivery = \<lparr>rr_requestEvent = demo_event, rr_responseEvent = demo_ack, rr_payload = get demo_ack ''payload''\<rparr>"

definition demo_acked :: relay_client where
  "demo_acked = demo_sent
     \<lparr>promises := promises demo_open @ [Fulfilled (VResponse demo_delivery), Pending], timers := [(2, 25000, THeartbeat)],
      nextTimer := 3, heartbeatTimer := Some 2, responseWaiters := []\<rparr>"

lemma demo_active:
  "recordRelayActivity demo_sent = demo_sent\<lparr>nextTimer := 3, heartbeatTimer := Some 2,
     timers := [(1, 100, TWaiter (JStr ''0'') 3 ''message.ack'' (Some ''delivery_unknown'')), (2, 25000, THeartbeat)]\<rparr>"
  by (simp add: recordRelayActivity_upd HEARTBEAT_INTERVAL_MS_def jm_delete_def jm_set_def)
    (simp add: demo_sent_def demo_open_def demo_state_def new_client_def jm_delete_def)

lemma demo_ack_fields:
  "get demo_ack ''type'' = JStr ''message.ack''" "get demo_ack ''replyTo'' = JStr ''0''"
  "get demo_ack ''id'' = JUndef" "is_object (get demo_ack ''payload'')" "demo_ack \<noteq> JNull"
  by (simp_all add: demo_ack_def is_object_def)

lemma demo_resolved: "resolveResponseWaiter demo_ack (recordRelayActivity demo_sent) = demo_acked"
proof -
  let ?c = "recordRelayActivity demo_sent"
  have look: "jm_get (responseWaiters ?c) (JStr ''0'') = Some demo_waiter"
    by (simp add: demo_active) (simp add: demo_sent_def)
  have "resolveResponseWaiter demo_ack ?c = resolve_waiter demo_waiter demo_ack (drop_waiter (JStr ''0'') demo_waiter ?c)"
    using look by (simp add: resolveResponseWaiter_def Let_def demo_ack_fields demo_waiter_def)
  also have "drop_waiter (JStr ''0'') demo_waiter ?c = ?c\<lparr>timers := [(2, 25000, THeartbeat)], responseWaiters := []\<rparr>"
    by (simp add: drop_waiter_def clearTimeout_def demo_active jm_delete_def demo_waiter_def)
      (simp add: demo_sent_def)
  also have "resolve_waiter demo_waiter demo_ack \<dots> = demo_acked"
    by (simp add: resolve_waiter_def demo_ack_fields settle_def settled_def demo_active)
      (simp add: demo_acked_def demo_sent_def demo_open_def demo_delivery_def demo_waiter_def)
  finally show ?thesis .
qed

lemma demo_ack_received:
  "act demo_host (SockMessage 0 (JStr (json_stringify demo_ack))) demo_sent = Some demo_acked"
proof -
  have m: "messageData (JStr s) = JStr s" for s
    by (simp add: messageData_def is_object_def)
  have h: "handlers demo_acked = []" by (simp add: demo_acked_def demo_sent_def demo_open_def new_client_def)
  have "handleSocketMessage demo_host (JStr (json_stringify demo_ack)) demo_sent = (None, demo_acked)"
    using h by (simp add: handleSocketMessage_def dataToString_def demo_ack_parse demo_ack_fields
        applyStateEvent_def demo_resolved record_reply_target_def emit_def)
  moreover have "socket demo_sent = Some 0" "listening demo_sent 0" "ws_settled (sockets demo_sent ! 0)"
    by (simp_all add: demo_sent_def demo_open_def listening_def)
  ultimately show ?thesis
    by (simp add: messageHandler_def m uncaught_def)
qed

lemma demo_delivered:
  "\<exists>e. act demo_host (Resume 0) demo_acked = Some e \<and> promise_of e 4 = Fulfilled (VResponse demo_delivery) \<and>
     log e = log demo_sent"
  by (simp add: demo_acked_def demo_sent_def demo_open_def promise_of_def new_client_def validate_response_def
      validateMessageAck_def demo_delivery_def demo_ack_def non_blank_def non_blank_string_def settle_def settled_def
      blank_plain plain_char_def)

text \<open>The fields of an event that the client does not touch when it writes it.\<close>

lemma frame_key_fields:
  assumes "frame_key a = frame_key b"
  shows "get a ''type'' = get b ''type''" "get a ''to'' = get b ''to''" "get a ''payload'' = get b ''payload''"
  using assms by (simp_all add: frame_key_def)

text \<open>C1. A sent message that succeeds was delivered. If the promise of a send is ever fulfilled, whatever else
  happens to the client until then, the client wrote an event with exactly this recipient and text, and
  the relay answered that event, by its id, with an acknowledgement whose payload says delivered.\<close>

theorem delivered_means_acknowledged:
  assumes "reachable h c" and "send h to message timeout c = (p, d)"
    and "run_actions (act h) as d = Some e" and "promise_of e p = Fulfilled v"
  shows "\<exists>r s. v = VResponse r \<and> OSend s (rr_requestEvent r) (json_stringify (rr_requestEvent r)) \<in> set (log e) \<and>
    get (rr_requestEvent r) ''to'' = JStr to \<and> get (get (rr_requestEvent r) ''payload'') ''text'' = JStr message \<and>
    get (rr_responseEvent r) ''replyTo'' = get (rr_requestEvent r) ''id'' \<and>
    get (rr_responseEvent r) ''type'' = JStr ''message.ack'' \<and>
    get (get (rr_responseEvent r) ''payload'') ''status'' = JStr ''delivered''"
proof -
  from send_operation.outcome [OF assms]
  obtain r where r: "v = VResponse r" "was_sent (log e) (rr_requestEvent r)"
      "answers (message_event MessageSend (JStr to) [] message ''send'') ''message.ack'' r" "validateMessageAck r = Inr r"
    by (auto simp: request_kind_def message_request_def)
  then show ?thesis
    using frame_key_fields [of "rr_requestEvent r" "message_event MessageSend (JStr to) [] message ''send''"]
    by (auto simp: answers_def was_sent_def validateMessageAck_Inr message_event_def)
qed

theorem delivered_means_acknowledged_witness:
  "(\<exists>s. OSend s demo_event (json_stringify demo_event) \<in> set (log demo_sent)) \<and> get demo_event ''to'' = JStr ''b'' \<and>
   get (get demo_ack ''payload'') ''status'' = JStr ''delivered''"
proof -
  obtain e where e: "act demo_host (Resume 0) demo_acked = Some e" "promise_of e 4 = Fulfilled (VResponse demo_delivery)"
      "log e = log demo_sent"
    using demo_delivered by blast
  have "run_actions (act demo_host) [SockMessage 0 (JStr (json_stringify demo_ack)), Resume 0] demo_sent = Some e"
    using demo_ack_received e(1) by simp
  from delivered_means_acknowledged [OF demo_open_reachable demo_send_call this e(2)] e(3) show ?thesis
    by (auto simp: demo_delivery_def)
qed

text \<open>A join decision that succeeds was taken as asked: if the promise of an approval is ever fulfilled, the relay
  answered the approval the client wrote with an acknowledgement for this join request that says approved.\<close>

lemma approval_means_approved:
  assumes "reachable h c" and "approve h j timeout c = (p, d)"
    and "run_actions (act h) as d = Some e" and "promise_of e p = Fulfilled v"
  shows "\<exists>r s. v = VResponse r \<and> OSend s (rr_requestEvent r) (json_stringify (rr_requestEvent r)) \<in> set (log e) \<and>
    get (rr_requestEvent r) ''type'' = JStr ''join.approve'' \<and>
    get (rr_responseEvent r) ''replyTo'' = get (rr_requestEvent r) ''id'' \<and>
    get (get (rr_responseEvent r) ''payload'') ''joinRequestId'' = JStr j \<and>
    get (get (rr_responseEvent r) ''payload'') ''decision'' = JStr ''approved''"
proof -
  from approve_operation.outcome [OF assms]
  obtain r where r: "v = VResponse r" "was_sent (log e) (rr_requestEvent r)"
      "answers (JObj [(''type'', JStr ''join.approve''), (''payload'', JObj [(''joinRequestId'', JStr j)])]) ''join.decision.ack'' r"
      "validateJoinDecisionAck r j ''approved'' = Inr r"
    by (auto simp: request_kind_def decision_request_def)
  then show ?thesis
    using frame_key_fields(1) [of "rr_requestEvent r"
        "JObj [(''type'', JStr ''join.approve''), (''payload'', JObj [(''joinRequestId'', JStr j)])]"]
    by (auto simp: answers_def was_sent_def validateJoinDecisionAck_Inr)
qed

section \<open>Frames can be read back\<close>

text \<open>Following a list of keys into nested objects.\<close>

fun follow :: "jsval \<Rightarrow> string list \<Rightarrow> jsval" where
  "follow v [] = v"
| "follow v (k # ks) = follow (get v k) ks"

lemma follow_undefined [simp]: "follow JUndef ks = JUndef"
  by (induction ks) (simp_all add: get_def)

lemma get_norm_members: "get (JObj kvs) k \<noteq> JUndef \<Longrightarrow> get (JObj (norm_members kvs)) k = json_norm (get (JObj kvs) k)"
  by (induction kvs) auto

lemma members_ok_get: "members_ok kvs \<Longrightarrow> json_ok (get (JObj kvs) k)"
  by (induction kvs) auto

lemma get_norm:
  assumes "json_ok v" and "get v k \<noteq> JUndef"
  shows "get (json_norm v) k = json_norm (get v k) \<and> json_ok (get v k)"
proof (cases v)
  case (JObj kvs)
  with assms show ?thesis by (simp add: get_norm_members members_ok_get)
qed (use assms in \<open>simp_all add: get_def\<close>)

lemma follow_norm: "json_ok v \<Longrightarrow> follow v ks \<noteq> JUndef \<Longrightarrow> follow (json_norm v) ks = json_norm (follow v ks)"
proof (induction ks arbitrary: v)
  case (Cons k ks)
  then have "get v k \<noteq> JUndef" by (cases "get v k = JUndef") simp_all
  with Cons show ?case by (simp add: get_norm)
qed simp

text \<open>C24. What the client writes, the relay can read: a frame whose event has texts without lone surrogates and
  integers only is a JSON text that parses to the event itself, up to members that are undefined
  (\<open>json_norm\<close> drops them): whatever text, number, truth value or null the event holds, however deep in nested
  objects, the parsed value holds in the same place.\<close>

theorem frame_roundtrip:
  assumes "reachable h c" and "OSend s event txt \<in> set (log c)" and "json_ok event"
  shows "\<exists>v. json_parse txt = Some v \<and> v = json_norm event \<and>
    (\<forall>ks x. follow event ks = x \<and> x \<noteq> JUndef \<and> \<not> is_object x \<longrightarrow> follow v ks = x)"
proof -
  have "txt = json_stringify event" and id: "get event ''id'' \<noteq> JUndef"
    using client_logs.reachable_inv [OF assms(1)] assms(2) by (fastforce simp: list_all_iff)+
  moreover from id have "event \<noteq> JUndef" by (auto simp: get_def)
  ultimately have "json_parse txt = Some (json_norm event)"
    using json_roundtrip [OF assms(3)] by simp
  moreover have "follow (json_norm event) ks = x" if "follow event ks = x" "x \<noteq> JUndef" "\<not> is_object x" for ks x
    using that follow_norm [OF assms(3), of ks] by (cases x) (simp_all add: is_object_def)
  ultimately show ?thesis by blast
qed

theorem frame_roundtrip_witness:
  "\<exists>v. json_parse (json_stringify demo_event) = Some v \<and> get v ''to'' = JStr ''b'' \<and>
     get (get v ''payload'') ''text'' = JStr ''hi''"
proof -
  have "OSend 0 demo_event (json_stringify demo_event) \<in> set (log demo_sent)" by (simp add: demo_sent_def)
  moreover have "json_ok demo_event" by (simp add: demo_event_def)
  ultimately obtain v where v: "json_parse (json_stringify demo_event) = Some v"
      and f: "\<And>ks x. follow demo_event ks = x \<and> x \<noteq> JUndef \<and> \<not> is_object x \<Longrightarrow> follow v ks = x"
    using frame_roundtrip [OF demo_sent_reachable] by blast
  have "follow v [''to''] = JStr ''b''" "follow v [''payload'', ''text''] = JStr ''hi''"
    by (rule f; simp add: demo_event_def is_object_def)+
  with v show ?thesis by simp
qed

end
