(* ===== verification/Wire_Properties.thy ===== *)
theory Wire_Properties
  imports Client_Wire Client_Outcomes
begin

text \<open>
  The typed protocol: what the client checks, what it relies on, and where its declared types are not backed
  by a check.
\<close>

section \<open>A list of members\<close>

definition demo_list_event :: jsval where
  "demo_list_event = JObj [(''type'', JStr ''list.request''), (''id'', JStr ''0''), (''channelId'', JStr ''c'')]"

definition demo_list_waiter :: waiter where
  "demo_list_waiter = \<lparr>w_responseType = ''list.response'', w_timeoutCode = None,
     w_requestEvent = demo_list_event, w_promise = 3, w_timer = 1\<rparr>"

definition demo_listing :: relay_client where
  "demo_listing = demo_open
     \<lparr>promises := promises demo_open @ [Pending], conts := [],
      timers := [(0, 25000, THeartbeat), (1, 100, TWaiter (JStr ''0'') 3 ''list.response'' None)],
      nextTimer := 2, log := log demo_open @ [OSend 0 demo_list_event (json_stringify demo_list_event)],
      responseWaiters := [(JStr ''0'', demo_list_waiter)], idCount := 1\<rparr>"

lemma demo_list_size: "length (json_stringify demo_list_event) \<le> MAX_FRAME"
  by (simp add: demo_list_event_def MAX_FRAME_def json_eval)

lemma demo_list_call: "list_members demo_host 100 demo_open = (3, demo_listing)"
proof -
  let ?e = "JObj [(''type'', JStr ''list.request'')]"
  have out: "js_spread ?e [(''id'', JStr (nat_str 0)), (''channelId'', JStr ''c'')] = demo_list_event"
    by (simp add: js_spread_def demo_list_event_def nat_str_eval)
  have "sendEvent demo_host ?e demo_open =
      (Inr demo_list_event, demo_open\<lparr>log := log demo_open @ [OSend 0 demo_list_event (json_stringify demo_list_event)], idCount := 1\<rparr>)"
    using out demo_list_size
    by (simp add: sendEvent_def js_nullish_def demo_open_def demo_host_def demo_state_def WEBSOCKET_OPEN_def Let_def
        emitLog_def new_client_def)
  moreover have "get demo_list_event ''id'' = JStr ''0''" by (simp add: demo_list_event_def)
  ultimately have "requestResponse demo_host ?e ''list.response'' 100 None demo_open = (Inr 3, demo_listing)"
    by (simp add: requestResponse_def newPromise_def setTimeout_def Let_def)
      (simp add: demo_listing_def demo_open_def jm_set_def new_client_def demo_list_waiter_def)
  then have "run_operation demo_host (plain_request ListRequest ListResponse 100) demo_open = (Inr 3, demo_listing)"
    by (simp add: run_operation_def plain_request_def)
  moreover have "ensureHealthy demo_host demo_open = (None, demo_open)"
    by (simp add: ensureHealthy_def socket_open_def stale_def demo_open_def new_client_def
        WEBSOCKET_OPEN_def HEARTBEAT_INTERVAL_MS_def)
  ultimately show ?thesis by (simp add: list_members_def afterHealthy_def)
qed

text \<open>The relay answers the request with some payload; every object is taken.\<close>

definition list_answer :: "jsval \<Rightarrow> jsval" where
  "list_answer payload = JObj [(''type'', JStr ''list.response''), (''replyTo'', JStr ''0''), (''payload'', payload)]"

lemma demo_list_answered:
  assumes parse: "json_parse txt = Some (list_answer payload)" and obj: "is_object payload"
  shows "\<exists>d. act demo_host (SockMessage 0 (JStr txt)) demo_listing = Some d \<and>
    promise_of d 3 = Fulfilled (VResponse \<lparr>rr_requestEvent = demo_list_event, rr_responseEvent = list_answer payload, rr_payload = payload\<rparr>)"
proof -
  let ?c = "recordRelayActivity demo_listing"
  have get: "get (list_answer payload) ''type'' = JStr ''list.response''" "get (list_answer payload) ''replyTo'' = JStr ''0''"
      "get (list_answer payload) ''id'' = JUndef" "get (list_answer payload) ''payload'' = payload" "list_answer payload \<noteq> JNull"
    by (simp_all add: list_answer_def)
  have look: "responseWaiters ?c = [(JStr ''0'', demo_list_waiter)]" and ps: "promises ?c = promises demo_open @ [Pending]"
    and hs: "handlers ?c = []"
    by (simp_all add: recordRelayActivity_upd demo_listing_def) (simp add: demo_open_def new_client_def)
  have quiet: "emit h ty event c = c" if "handlers c = []" for h ty event c using that by (simp add: emit_def)
  have r: "resolveResponseWaiter (list_answer payload) ?c =
      settle 3 (Fulfilled (VResponse \<lparr>rr_requestEvent = demo_list_event, rr_responseEvent = list_answer payload, rr_payload = payload\<rparr>))
        (drop_waiter (JStr ''0'') demo_list_waiter ?c)" (is "_ = ?d")
    using obj by (simp add: resolveResponseWaiter_def look get resolve_waiter_def demo_list_waiter_def)
  have "handlers ?d = []" using hs by (simp add: settle_def drop_waiter_def clearTimeout_def)
  then have "handleSocketMessage demo_host (JStr txt) demo_listing = (None, ?d)"
    by (simp add: handleSocketMessage_def dataToString_def parse get applyStateEvent_def r record_reply_target_def quiet)
  moreover have "socket demo_listing = Some 0" "listening demo_listing 0" "ws_settled (sockets demo_listing ! 0)"
    by (simp_all add: demo_listing_def demo_open_def listening_def)
  moreover have "messageData (JStr txt) = JStr txt" by (simp add: messageData_def is_object_def)
  moreover have "promise_of ?d 3 = Fulfilled (VResponse \<lparr>rr_requestEvent = demo_list_event, rr_responseEvent = list_answer payload, rr_payload = payload\<rparr>)"
    using ps by (simp add: promise_of_settle) (simp add: drop_waiter_def clearTimeout_def promise_of_def demo_open_def)
  ultimately show ?thesis by (simp add: messageHandler_def uncaught_def)
qed

section \<open>The typed protocol\<close>

lemma typed_start:
  assumes "run_actions (act h) as (new_client cfg delay t) = Some c" and "list_all (action_typed h) as"
  shows "wired c" and "reachable h c"
  using wired_run [OF assms wired_new_client] run_reachable [OF assms(1) reachable.start] by blast+

text \<open>C15. Client and relay speak the typed protocol. In a run in which every event the relay sends, and every raw event
  a caller passes, conforms to the interface of its type, every event the client writes conforms, whatever else happens, and
  so does every response a promise is fulfilled with.\<close>

theorem protocol_typed:
  assumes "run_actions (act h) as (new_client cfg delay t) = Some c" and "list_all (action_typed h) as"
  shows "(OSend s event text \<in> set (log c) \<longrightarrow> event_ok event) \<and>
    (promise_of c p = Fulfilled (VResponse r) \<longrightarrow> event_ok (rr_responseEvent r))"
proof -
  from typed_start(1) [OF assms] have w: "list_all effect_ok (log c)" "list_all outcome_ok (promises c)"
    by (simp_all add: wired_def)
  have "outcome_ok (promise_of c p)" using w(2) by (simp add: promise_of_def list_all_length)
  with w(1) show ?thesis by (auto simp: list_all_iff)
qed

lemma demo_ack_ok: "event_ok demo_ack"
  by (simp add: demo_ack_def event_ok_def RelayEvent_def payload_type_def interface_defs is_object_def)

lemma demo_run_typed: "list_all (action_typed demo_host)
    (connect_script @ [Call (Send ''b'' ''hi'' 100), SockMessage 0 (JStr (json_stringify demo_ack)), Resume 0])"
proof -
  have "messageData (JStr x) = JStr x" for x by (simp add: messageData_def is_object_def)
  then show ?thesis
    using demo_ack_ok by (simp add: connect_script_def frame_typed_def dataToString_def text_ok_def demo_ack_parse)
qed

lemma demo_run_delivered: "\<exists>e. run_actions (act demo_host)
    (connect_script @ [Call (Send ''b'' ''hi'' 100), SockMessage 0 (JStr (json_stringify demo_ack)), Resume 0])
    (new_client demo_config None 0) = Some e \<and> promise_of e 4 = Fulfilled (VResponse demo_delivery) \<and> log e = log demo_sent"
  using demo_delivered connect_run demo_send demo_ack_received by (auto simp: run_actions_append)

theorem protocol_typed_witness: "event_ok demo_event \<and> event_ok demo_ack"
proof -
  obtain e where e: "run_actions (act demo_host)
      (connect_script @ [Call (Send ''b'' ''hi'' 100), SockMessage 0 (JStr (json_stringify demo_ack)), Resume 0])
      (new_client demo_config None 0) = Some e" "promise_of e 4 = Fulfilled (VResponse demo_delivery)" "log e = log demo_sent"
    using demo_run_delivered by blast
  have "OSend 0 demo_event (json_stringify demo_event) \<in> set (log e)" by (simp add: e(3) demo_sent_def)
  with protocol_typed [OF e(1) demo_run_typed, of 0 demo_event "json_stringify demo_event" 4 demo_delivery] e(2)
  show ?thesis by (simp add: demo_delivery_def)
qed

text \<open>C16. The acknowledgements are checked, and need no trust in the relay: whatever frames it sends, a send, ask or reply that
  is fulfilled carries a payload that conforms to \<open>MessageAckPayload\<close>, an approval or denial one that conforms to
  \<open>JoinDecisionAckPayload\<close>.\<close>

theorem acknowledgement_typed:
  assumes "reachable h c" and "run_actions (act h) as d = Some e" and "promise_of e p = Fulfilled v"
  shows "((p, d) \<in> {send h to m t c, ask h to m t c, reply h i m t c} \<longrightarrow>
      (\<exists>r. v = VResponse r \<and> conforms MessageAckPayload (rr_payload r))) \<and>
    ((p, d) \<in> {approve h j t c, deny h j t c} \<longrightarrow>
      (\<exists>r. v = VResponse r \<and> conforms JoinDecisionAckPayload (rr_payload r)))"
proof -
  have ack: "\<exists>r. v = VResponse r \<and> conforms MessageAckPayload (rr_payload r)"
    if "request_kind (message_request event t) v" for event
    using that message_ack_conforms by (fastforce simp: request_kind_def message_request_def answers_def)
  have decision: "\<exists>r. v = VResponse r \<and> conforms JoinDecisionAckPayload (rr_payload r)"
    if "request_kind (decision_request ty j x t) v" and "x \<in> {''approved'', ''denied''}" for ty x
    using that decision_ack_conforms by (fastforce simp: request_kind_def decision_request_def answers_def)
  note outcome = send_operation.outcome [OF assms(1) _ assms(2,3)] ask_operation.outcome [OF assms(1) _ assms(2,3)]
    reply_operation.outcome [OF assms(1) _ assms(2,3)] approve_operation.outcome [OF assms(1) _ assms(2,3)]
    deny_operation.outcome [OF assms(1) _ assms(2,3)]
  show ?thesis
    by (auto dest!: sym [of "(p, d)"] outcome dest: ack decision)
qed

theorem acknowledgement_typed_witness: "conforms MessageAckPayload (rr_payload demo_delivery)"
proof -
  obtain e where e: "act demo_host (Resume 0) demo_acked = Some e" "promise_of e 4 = Fulfilled (VResponse demo_delivery)"
    using demo_delivered by blast
  have "run_actions (act demo_host) [SockMessage 0 (JStr (json_stringify demo_ack)), Resume 0] demo_sent = Some e"
    using demo_ack_received e(1) by simp
  from acknowledgement_typed [OF demo_open_reachable this e(2), of "''b''" "''hi''" 100] show ?thesis
    by (simp add: demo_send_call)
qed

text \<open>C17. The answers to \<open>list\<close> and \<open>status\<close> are taken on trust, and well placed trust suffices: in a run in which the
  relay's events conform, a list is fulfilled only with a payload that conforms to \<open>ListResponsePayload\<close>, a status only
  with one that conforms to \<open>StatusResponsePayload\<close>.\<close>

theorem answer_typed:
  assumes "run_actions (act h) as (new_client cfg delay t) = Some c" and "list_all (action_typed h) as"
    and "(operation, interface) \<in> {(list_members h ms, ListResponsePayload), (status h ms, StatusResponsePayload)}"
    and "operation c = (p, d)" and "run_actions (act h) bs d = Some e" and "list_all (action_typed h) bs"
    and "promise_of e p = Fulfilled v"
  shows "\<exists>r. v = VResponse r \<and> conforms interface (rr_payload r)"
proof -
  note c = typed_start [OF assms(1,2)]
  have kind: "payload_type (req_responseType (plain_request ListRequest ListResponse ms)) = ListResponsePayload"
      "payload_type (req_responseType (plain_request StatusRequest StatusResponse ms)) = StatusResponsePayload"
    by (simp_all add: plain_request_def payload_type_def)
  obtain rq where rq: "operation = afterHealthy h rq" "event_ok (req_event rq)" "interface = payload_type (req_responseType rq)"
      and v: "request_kind rq v"
    using assms(3,4) operation_event_ok(6,7) [of ms] kind list_operation.outcome [OF c(2) _ assms(5,7)]
      status_operation.outcome [OF c(2) _ assms(5,7)]
    by (auto simp: list_members_def status_def intro: that)
  have "wired d" using wired_afterHealthy [OF c(1) rq(2), of h] assms(4) rq(1) by simp
  then have "wired e" by (rule wired_run [OF assms(5,6)])
  then have "outcome_ok (promise_of e p)" by (auto simp: wired_def promise_of_def list_all_length)
  moreover obtain r where r: "v = VResponse r" "answers (req_event rq) (req_responseType rq) r"
    using v by (auto simp: request_kind_def)
  ultimately have "event_ok (rr_responseEvent r)" using assms(7) by simp
  then show ?thesis using event_okD(6) r rq(3) by (fastforce simp: answers_def is_object_def)
qed

lemma demo_answer_run:
  assumes "is_object payload" and "json_parse txt = Some (list_answer payload)"
  shows "\<exists>e. run_actions (act demo_host) [SockMessage 0 (JStr txt)] demo_listing = Some e \<and>
    promise_of e 3 = Fulfilled (VResponse \<lparr>rr_requestEvent = demo_list_event, rr_responseEvent = list_answer payload, rr_payload = payload\<rparr>)"
proof -
  obtain e where "act demo_host (SockMessage 0 (JStr txt)) demo_listing = Some e"
      "promise_of e 3 = Fulfilled (VResponse \<lparr>rr_requestEvent = demo_list_event, rr_responseEvent = list_answer payload, rr_payload = payload\<rparr>)"
    using demo_list_answered [OF assms(2,1)] by blast
  then show ?thesis by (intro exI [of _ e]) (simp del: act.simps)
qed

definition demo_members :: jsval where
  "demo_members = JObj [(''ownerId'', JStr ''a''), (''members'', JArr [JObj [(''deviceId'', JStr ''a''), (''deviceName'', JStr ''d''),
     (''online'', JBool True), (''owner'', JBool True)]])]"

lemma demo_members_parse: "json_parse (json_stringify (list_answer demo_members)) = Some (list_answer demo_members)"
  using json_roundtrip [of "list_answer demo_members"] by (simp add: demo_members_def list_answer_def)

theorem answer_typed_witness: "conforms ListResponsePayload demo_members"
proof -
  have obj: "is_object demo_members" by (simp add: demo_members_def is_object_def)
  obtain e where e: "run_actions (act demo_host) [SockMessage 0 (JStr (json_stringify (list_answer demo_members)))] demo_listing = Some e"
      "promise_of e 3 = Fulfilled (VResponse \<lparr>rr_requestEvent = demo_list_event, rr_responseEvent = list_answer demo_members, rr_payload = demo_members\<rparr>)"
    using demo_answer_run [OF obj demo_members_parse] by blast
  have "event_ok (list_answer demo_members)"
    by (simp add: list_answer_def demo_members_def event_ok_def RelayEvent_def payload_type_def interface_defs is_object_def)
  then have "frame_typed demo_host (JStr (json_stringify (list_answer demo_members)))"
    by (simp add: frame_typed_def dataToString_def text_ok_def demo_members_parse messageData_def is_object_def)
  then have "list_all (action_typed demo_host) [SockMessage 0 (JStr (json_stringify (list_answer demo_members)))]" by simp
  moreover have "list_all (action_typed demo_host) connect_script" by (simp add: connect_script_def)
  ultimately show ?thesis
    using answer_typed [of demo_host connect_script demo_config None 0 demo_open "list_members demo_host 100"
        ListResponsePayload 100 3 demo_listing, OF connect_run _ _ demo_list_call e(1) _ e(2)]
    by simp
qed

text \<open>C37. A departure from the declared types: the promise of \<open>list\<close> is declared to give a \<open>ListResponsePayload\<close>, but only
  acknowledgements are checked. There is a run in which the relay answers a list with an empty object, and the
  promise is fulfilled with it, without an owner and without members.\<close>

theorem list_unchecked:
  "\<exists>as c p d bs e r. run_actions (act demo_host) as (new_client demo_config None 0) = Some c \<and>
     list_members demo_host 100 c = (p, d) \<and> run_actions (act demo_host) bs d = Some e \<and>
     promise_of e p = Fulfilled (VResponse r) \<and> \<not> conforms ListResponsePayload (rr_payload r) \<and>
     get (rr_payload r) ''ownerId'' = JUndef \<and> get (rr_payload r) ''members'' = JUndef"
proof -
  have obj: "is_object (JObj [])" by (simp add: is_object_def)
  have "json_parse (json_stringify (list_answer (JObj []))) = Some (list_answer (JObj []))"
    using json_roundtrip [of "list_answer (JObj [])"] by (simp add: list_answer_def)
  from demo_answer_run [OF obj this] obtain e where
    "run_actions (act demo_host) [SockMessage 0 (JStr (json_stringify (list_answer (JObj []))))] demo_listing = Some e"
    "promise_of e 3 = Fulfilled (VResponse \<lparr>rr_requestEvent = demo_list_event, rr_responseEvent = list_answer (JObj []), rr_payload = JObj []\<rparr>)"
    by blast
  moreover have "\<not> conforms ListResponsePayload (JObj [])" "get (JObj []) k = JUndef" for k
    by (simp_all add: ListResponsePayload_def)
  ultimately show ?thesis
    using connect_run demo_list_call by (metis request_response.select_convs(3))
qed

end
