(* ===== verification/Client_Winddown.thy ===== *)
theory Client_Winddown
  imports Client_Progress
begin

text \<open>
  A disconnected client winds down. It arms no timer, starts no fetch and adds no continuation, so every
  timer that fires, every fetch that is answered and every continuation that runs leaves less to do, and in the
  end nothing is left: every operation that was under way has ended.
\<close>

section \<open>What is left to do\<close>

definition open_fetches :: "relay_client \<Rightarrow> (nat \<times> cont) list" where
  "open_fetches c = filter (\<lambda>(p, k). is_fetch k \<and> promise_of c p = Pending) (conts c)"

definition work :: "relay_client \<Rightarrow> nat" where
  "work c = length (timers c) + length (conts c) + length (open_fetches c)"

lemma work_le: "work c \<le> length (timers c) + 2 * length (conts c)"
  using length_filter_le by (fastforce simp: work_def open_fetches_def)

text \<open>\<open>idle c d\<close>: the operation from \<open>c\<close> to \<open>d\<close> only settles promises.\<close>

definition idle :: "relay_client \<Rightarrow> relay_client \<Rightarrow> bool" where
  "idle c d = (timers d = timers c \<and> conts d = conts c \<and>
     (\<forall>q. promise_of c q \<noteq> Pending \<longrightarrow> promise_of d q \<noteq> Pending))"

lemma idle_refl [simp]: "idle c c"
  by (simp add: idle_def)

lemma idle_settle: "v \<noteq> Pending \<Longrightarrow> idle c (settle p v c)" "idle c (resolve_unit p c)"
  by (simp_all add: idle_def promise_of_settle resolve_unit_def) (simp_all add: settle_def)

lemma idle_same: "timers d = timers c \<Longrightarrow> conts d = conts c \<Longrightarrow> promises d = promises c \<Longrightarrow> idle c d"
  by (simp add: idle_def promise_of_def)

lemma idle_trans: "idle c d \<Longrightarrow> idle d e \<Longrightarrow> idle c e"
  by (simp add: idle_def)

abbreviation open_fetch :: "relay_client \<Rightarrow> nat \<times> cont \<Rightarrow> bool" where
  "open_fetch c \<equiv> (\<lambda>(p, k). is_fetch k \<and> promise_of c p = Pending)"

lemma open_fetches_le:
  assumes "\<And>q. promise_of c q \<noteq> Pending \<Longrightarrow> promise_of d q \<noteq> Pending"
  shows "length (filter (open_fetch d) ks) \<le> length (filter (open_fetch c) ks)"
  using assms by (induction ks) auto

lemma idle_fetches: "idle c d \<Longrightarrow> length (open_fetches d) \<le> length (open_fetches c)"
  using open_fetches_le [of c d "conts c"] by (simp add: idle_def open_fetches_def)

lemma idle_work: "idle c d \<Longrightarrow> work d \<le> work c"
  using idle_fetches [of c d] by (simp add: work_def idle_def)

section \<open>Each step leaves less\<close>

lemma idle_health_failed: "gone c \<Longrightarrow> idle c (health_failed r g e c)"
  by (simp add: health_failed_def gone_def idle_settle)

lemma idle_run_cont:
  assumes g: "gone c" and r: "res \<noteq> Pending"
  shows "idle c (run_cont h p k res c)"
proof -
  have err: "idle c (resolve_unit q (emitError code e ds c))" for q code e ds
    by (rule idle_trans [OF idle_same idle_settle(2)]) (simp_all add: emitError_upd)
  have fld: "idle c (settle q (Fulfilled v) (c\<lparr>reconnectAttempt := n\<rparr>))" for q v n
    by (rule idle_trans [OF idle_same idle_settle(1)]) simp_all
  have fetched: "idle c (connect_fetched h q i ch pin res c)" for q i ch pin
    by (cases rule: connect_fetched_cases [of h q i ch pin res c]) (use g r in \<open>auto simp: gone_def idle_settle\<close>)
  show ?thesis
    using r gone_noop(6,7) [OF g] idle_health_failed [OF g] fetched err fld g
    by (cases k) (auto simp: connect_opened_def reconnect_delayed_def reconnect_connected_def health_status_def
        run_queued_def run_operation_gone validate_response_def idle_settle gone_def idle_same
        split: outcome.split pval.split sum.split)
qed

lemma work_resume:
  assumes g: "gone c" and d: "act h (Resume i) c = Some d"
  shows "work d < work c"
proof -
  obtain p k where i: "i < length (conts c)" "conts c ! i = (p, k)" "promise_of c p \<noteq> Pending"
    using d by (auto split: if_splits prod.splits)
  let ?c = "c\<lparr>conts := take i (conts c) @ drop (Suc i) (conts c)\<rparr>"
  have "gone ?c" using g by (simp add: gone_def)
  then have "idle ?c (run_cont h p k (promise_of c p) ?c)" using i(3) by (rule idle_run_cont)
  then have "work d \<le> work ?c" using d i by (auto dest: idle_work)
  moreover have "length (open_fetches ?c) \<le> length (open_fetches c)"
  proof -
    have split: "conts c = take i (conts c) @ (p, k) # drop (Suc i) (conts c)"
      using id_take_nth_drop [OF i(1)] i(2) by simp
    have "promise_of ?c = promise_of c" by (intro ext) (simp add: promise_of_def)
    then show ?thesis unfolding open_fetches_def by (subst (3) split) simp
  qed
  moreover have "length (conts ?c) < length (conts c)" using i(1) by simp
  ultimately show ?thesis by (simp add: work_def)
qed

lemma length_delete_less: "jm_get m t = Some x \<Longrightarrow> length (jm_delete t m) < length m"
  by (induction m) (auto simp: jm_delete_def le_imp_less_Suc length_delete_le split: if_splits)

lemma work_fire:
  assumes s: "sound {} c" and g: "gone c" and d: "act h (Fire t) c = Some d"
  shows "work d < work c"
proof -
  obtain deadline k where t: "jm_get (timers c) t = Some (deadline, k)" "d = run_timer h k (clearTimeout t c)"
    using d by (auto split: option.splits if_splits)
  have "k \<noteq> THeartbeat"
  proof
    assume "k = THeartbeat"
    with s t(1) have "heartbeatTimer c = Some t" by (auto simp: sound_def heart_ok_def)
    with s g show False by (auto simp: sound_def beat_ok_def gone_def)
  qed
  then have "idle (clearTimeout t c) d"
    using t(2) by (cases k) (auto simp: waiter_timeout_def clearTimeout_def intro!: idle_trans [OF idle_same idle_settle(1)]
      idle_trans [OF idle_same idle_settle(2)])
  then have "work d \<le> work (clearTimeout t c)" by (rule idle_work)
  also have "\<dots> < work c"
  proof -
    have "promise_of (clearTimeout t c) = promise_of c" by (intro ext) (simp add: promise_of_def clearTimeout_def)
    then have "length (open_fetches (clearTimeout t c)) = length (open_fetches c)"
      by (simp add: open_fetches_def) (simp add: clearTimeout_def)
    then show ?thesis using length_delete_less [OF t(1)] by (simp add: work_def clearTimeout_def)
  qed
  finally show ?thesis .
qed

lemma fetching_iff: "fetching c p \<longleftrightarrow> (\<exists>k. (p, k) \<in> set (conts c) \<and> is_fetch k)"
proof -
  have "(case k of ConnectFetched _ _ _ _ \<Rightarrow> True | _ \<Rightarrow> False) = is_fetch k" for k by (cases k) simp_all
  then show ?thesis by (auto simp: fetching_def list_ex_iff)
qed

lemma filter_less:
  "x \<in> set xs \<Longrightarrow> P x \<Longrightarrow> \<not> Q x \<Longrightarrow> (\<And>y. Q y \<Longrightarrow> P y) \<Longrightarrow> length (filter Q xs) < length (filter P xs)"
proof (induction xs)
  case (Cons y xs)
  have "length (filter Q xs) \<le> length (filter P xs)"
    using Cons.prems(4) by (induction xs) auto
  with Cons show ?case by auto
qed simp

lemma work_fetch:
  assumes gr: "graded {} c" and p: "promise_of c p = Pending" and d: "act h (FetchDone p res) c = Some d"
  shows "work d < work c"
proof -
  obtain k where k: "(p, k) \<in> set (conts c)" "is_fetch k" and v: "\<exists>v. d = settle p v c \<and> v \<noteq> Pending"
    using d by (auto simp: fetching_iff split: if_splits sum.splits)
  then obtain v where v: "d = settle p v c" "v \<noteq> Pending" by blast
  have "p < length (promises c)" using gr k(1) by (auto simp: graded_def waits_ordered_def)
  with p v have q: "promise_of d p \<noteq> Pending" "\<And>q. promise_of d q = Pending \<Longrightarrow> promise_of c q = Pending"
    by (auto simp: promise_of_settle split: if_splits)
  have "length (filter (open_fetch d) (conts c)) < length (filter (open_fetch c) (conts c))"
    by (rule filter_less [OF k(1)]) (use k(2) p q in auto)
  then show ?thesis using v(1) by (simp add: work_def open_fetches_def) (simp add: settle_def)
qed

section \<open>Winding down\<close>

text \<open>The steps that get something done: a continuation runs, a timer fires when its time has come, a fetch ends.\<close>

inductive winds :: "client_host \<Rightarrow> relay_client \<Rightarrow> relay_client \<Rightarrow> bool" for h where
  runs: "act h (Resume i) c = Some d \<Longrightarrow> winds h c d"
| fires: "run_actions (act h) [Tick n, Fire t] c = Some d \<Longrightarrow> winds h c d"
| ends: "promise_of c p = Pending \<Longrightarrow> act h (FetchDone p res) c = Some d \<Longrightarrow> winds h c d"

lemma winds_work:
  assumes r: "reachable h c" and g: "gone c" and w: "winds h c d"
  shows "reachable h d \<and> gone d \<and> work d < work c"
  using w
proof cases
  case (runs i)
  then show ?thesis
    using r g work_resume act_gone [of c "Resume i" h d]
    by (auto simp del: act.simps simp: hush_def intro: reachable.next_step client_step.step)
next
  case (fires n t)
  let ?c = "c\<lparr>now := now c + n\<rparr>"
  have d: "act h (Fire t) ?c = Some d" using fires by (auto split: option.splits simp del: act.simps(8))
  have c: "reachable h ?c" using r by (rule reachable.next_step) (rule client_step.step [of h "Tick n"], simp)
  have "gone ?c" using g by (simp add: gone_def)
  moreover from this have "work d < work ?c" using reachable_sound [OF c] d by (intro work_fire)
  moreover have "work ?c = work c"
  proof -
    have "promise_of ?c = promise_of c" by (intro ext) (simp add: promise_of_def)
    then show ?thesis by (simp add: work_def open_fetches_def)
  qed
  ultimately show ?thesis
    using c d act_gone [of ?c "Fire t" h d]
    by (auto simp del: act.simps simp: hush_def intro: reachable.next_step client_step.step)
next
  case (ends p res)
  then show ?thesis
    using r g work_fetch [OF client_graded.reachable_inv [OF r]] act_gone [of c "FetchDone p res" h d]
    by (auto simp del: act.simps simp: hush_def intro: reachable.next_step client_step.step)
qed

interpretation client_winding: measured_steps "winds h" "\<lambda>c. reachable h c \<and> gone c" work for h
  by unfold_locales (use winds_work in blast)

text \<open>A client that has nothing to do: no timer, no continuation and no promise that is not settled.\<close>

definition wound_down :: "relay_client \<Rightarrow> bool" where
  "wound_down c = (timers c = [] \<and> conts c = [] \<and> list_all (\<lambda>v. v \<noteq> Pending) (promises c))"

lemma stuck_wound_down:
  assumes r: "reachable h c" and g: "gone c" and stuck: "\<And>d. \<not> winds h c d"
  shows "wound_down c"
proof -
  have rest: "resting c" unfolding resting_iff [of c h]
    using stuck winds.runs by (metis is_resume.elims(2) not_None_eq)
  have "jm_get (timers c) t = None" for t
  proof (rule ccontr)
    assume "jm_get (timers c) t \<noteq> None"
    then obtain deadline k where t: "jm_get (timers c) t = Some (deadline, k)" by auto
    then have "run_actions (act h) [Tick deadline, Fire t] c =
        Some (run_timer h k (clearTimeout t (c\<lparr>now := now c + deadline\<rparr>)))" by simp
    then show False using stuck winds.fires by blast
  qed
  then have timers: "timers c = []" by (cases "timers c") (auto, metis option.distinct(1) jm_get_Cons surj_pair)
  have fetches: "\<not> fetching c q \<or> promise_of c q \<noteq> Pending" for q
  proof (rule ccontr)
    assume "\<not> ?thesis"
    then have "act h (FetchDone q (Inl JUndef)) c = Some (settle q (Rejected JUndef) c)" "promise_of c q = Pending" by simp_all
    then show False using stuck winds.ends by blast
  qed
  have settled: "promise_of c p \<noteq> Pending" if p: "p < length (promises c)" for p
  proof
    assume "promise_of c p = Pending"
    then have "progresses c p" using r p
      by (intro pending_progresses reachable_sound client_graded.reachable_inv) (auto simp: pending_def promise_of_def)
    then show False
      by induction (use timers fetches rest g in \<open>auto simp: armed_def fetching_iff resting_def list_all_iff gone_def\<close>)
  qed
  have "conts c = []"
  proof (cases "conts c")
    case (Cons x ks)
    obtain p k where x: "x = (p, k)" by fastforce
    have "p < length (promises c)"
      using client_graded.reachable_inv [OF r] Cons x by (auto simp: graded_def waits_ordered_def)
    with settled rest Cons x show ?thesis by (auto simp: resting_def)
  qed simp
  with timers settled show ?thesis by (auto simp: wound_down_def list_all_length promise_of_def)
qed

text \<open>C3. After a disconnect everything ends. Whatever was under way when \<open>disconnect\<close> was called, in whatever order
  from then on continuations run, timers fire and fetches are answered, at most as many of these steps happen as
  there are timers and twice the continuations; and as long as a timer, a continuation or an unsettled promise is
  left, another such step is possible. So unless something new is called, every operation that was under way is settled.\<close>

theorem disconnect_winds_down:
  assumes "reachable h c" and "disconnect h code reason c = (err, d)" and "(winds h ^^ n) d e"
  shows "n \<le> length (timers d) + 2 * length (conts d) \<and> (wound_down e \<or> (\<exists>f. winds h e f))"
proof -
  have "act h (Call (Disconnect code reason)) c = Some d" using assms(2) by simp
  then have r: "reachable h d" using assms(1) by (blast intro: reachable.next_step client_step.step)
  have g: "gone d" using disconnect_gone [OF reachable_sound [OF assms(1)], of h code reason] assms(2) by simp
  from r g have e: "reachable h e \<and> gone e" "work e + n \<le> work d"
    using client_winding.steps_bounded [OF assms(3)] by blast+
  then have "n \<le> work d" by linarith
  moreover have "wound_down e \<or> (\<exists>f. winds h e f)" using e stuck_wound_down [of h e] by blast
  ultimately show ?thesis using work_le [of d] by auto
qed

text \<open>A disconnect while a message is unacknowledged: its waiter is rejected, and the operation ends.\<close>

theorem disconnect_winds_down_witness:
  "\<exists>d e. disconnect demo_host None None demo_sent = (None, d) \<and> winds demo_host d e \<and> (wound_down e \<or> (\<exists>f. winds demo_host e f))"
proof -
  obtain d where d: "disconnect demo_host None None demo_sent = (None, d)" "conts d = [(3, Validate 4 MessageAckCheck)]"
      "promise_of d 3 \<noteq> Pending"
    by (simp add: disconnect_def Let_def clearReconnectTimer_upd closeCurrentSocket_def stopHeartbeat_upd rejectResponseWaiters_def
        reject_waiter_upd ws_close_upd cleanup_upd promise_of_def settled_def demo_sent_def demo_open_def new_client_def demo_waiter_def split: option.splits)
  then obtain e where "act demo_host (Resume 0) d = Some e" by simp
  then have "winds demo_host d e" by (rule winds.runs)
  moreover from this have "(winds demo_host ^^ 1) d e" by (simp add: relcompp_apply)
  ultimately show ?thesis using disconnect_winds_down [OF demo_sent_reachable d(1)] d(1) by blast
qed

end
