(* ===== verification/Tool_Input.thy ===== *)
theory Tool_Input
  imports Protocol
begin

text \<open>
  The input of the tool (\<open>parseToolInput\<close> and its helpers in
  \<open>extension/src/tools/intercom-tool.ts\<close>). The source checks an unknown value and casts it; here the
  checks return the fields the cast exposes, as a datatype with one constructor per action.
\<close>

section \<open>Data\<close>

datatype tool_input =
    InConnect "string option" "string option" string "string option" "string option" "string option"
  | InList
  | InSend string string
  | InAsk string string
  | InReply "string option" "string option" string
  | InPending
  | InStatus
  | InDisconnect "jsnum option" "string option"
  | InApprove "string option" "string option"
  | InDeny "string option" "string option"

definition TOOL_ACTIONS :: "string list" where
  "TOOL_ACTIONS = [''connect'', ''list'', ''send'', ''ask'', ''reply'', ''pending'', ''status'', ''disconnect'',
     ''approve_join'', ''deny_join'']"

section \<open>Checks\<close>

definition fail :: "string \<Rightarrow> jsval + 'a" where
  "fail message = Inl (JError message [])"

text \<open>The tool's \<open>isRecord\<close> is narrower than the client's: an array is no record.\<close>

definition is_record :: "jsval \<Rightarrow> bool" where
  "is_record v = (is_object v \<and> \<not> is_array v)"

definition requiredNonEmptyString :: "jsval \<Rightarrow> string \<Rightarrow> string \<Rightarrow> jsval + string" where
  "requiredNonEmptyString input field action =
     (case non_blank_string (get input field) of
        Some s \<Rightarrow> Inr s
      | None \<Rightarrow> fail (action @ '' requires non-empty string field '' @ field))"

definition optionalNonEmptyString :: "jsval \<Rightarrow> string \<Rightarrow> string \<Rightarrow> jsval + string option" where
  "optionalNonEmptyString input field action =
     (if get input field = JUndef then Inr None
      else case non_blank_string (get input field) of
        Some s \<Rightarrow> Inr (Some s)
      | None \<Rightarrow> fail (action @ '' field '' @ field @ '' must be a non-empty string when provided''))"

fun requireAtLeastOneNonEmptyString :: "jsval \<Rightarrow> string list \<Rightarrow> string list \<Rightarrow> string \<Rightarrow> jsval + string" where
  "requireAtLeastOneNonEmptyString input all [] action =
     fail (action @ '' requires one of: '' @ join_with '', '' all)"
| "requireAtLeastOneNonEmptyString input all (field # rest) action =
     (case non_blank_string (get input field) of
        Some s \<Rightarrow> Inr s
      | None \<Rightarrow> requireAtLeastOneNonEmptyString input all rest action)"

definition unknown_action :: "jsval + 'a" where
  "unknown_action = fail (''remote_intercom action must be one of: '' @ join_with '', '' TOOL_ACTIONS)"

definition parse_connect :: "jsval \<Rightarrow> jsval + tool_input" where
  "parse_connect input =
     bindE (optionalNonEmptyString input ''channel'' ''connect'') (\<lambda>channel.
     bindE (optionalNonEmptyString input ''channelName'' ''connect'') (\<lambda>channelName.
     bindE (optionalNonEmptyString input ''deviceName'' ''connect'') (\<lambda>deviceName.
     bindE (optionalNonEmptyString input ''deviceId'' ''connect'') (\<lambda>deviceId.
     bindE (optionalNonEmptyString input ''clientVersion'' ''connect'') (\<lambda>clientVersion.
     bindE (requireAtLeastOneNonEmptyString input [''channel'', ''channelName''] [''channel'', ''channelName''] ''connect'') (\<lambda>_.
     bindE (requiredNonEmptyString input ''pin'' ''connect'') (\<lambda>pin.
     Inr (InConnect channel channelName pin deviceName deviceId clientVersion))))))))"

definition parse_message :: "jsval \<Rightarrow> string \<Rightarrow> jsval + string \<times> string" where
  "parse_message input action =
     bindE (requiredNonEmptyString input ''to'' action) (\<lambda>to.
     bindE (requiredNonEmptyString input ''message'' action) (\<lambda>message. Inr (to, message)))"

definition parse_reply :: "jsval \<Rightarrow> jsval + tool_input" where
  "parse_reply input =
     bindE (optionalNonEmptyString input ''replyTo'' ''reply'') (\<lambda>replyTo.
     bindE (optionalNonEmptyString input ''id'' ''reply'') (\<lambda>eid.
     bindE (requireAtLeastOneNonEmptyString input [''replyTo'', ''id''] [''replyTo'', ''id''] ''reply'') (\<lambda>_.
     bindE (requiredNonEmptyString input ''message'' ''reply'') (\<lambda>message.
     Inr (InReply eid replyTo message)))))"

definition parse_disconnect :: "jsval \<Rightarrow> jsval + tool_input" where
  "parse_disconnect input =
     (let code = get input ''code''; reason = get input ''reason'' in
      if code \<noteq> JUndef \<and> \<not> is_finite_number code
      then fail ''disconnect field code must be a finite number when provided''
      else if reason \<noteq> JUndef \<and> as_string reason = None
      then fail ''disconnect field reason must be a string when provided''
      else Inr (InDisconnect (case code of JNum n \<Rightarrow> Some n | _ \<Rightarrow> None) (as_string reason)))"

definition parse_decision :: "jsval \<Rightarrow> string \<Rightarrow> jsval + string option \<times> string option" where
  "parse_decision input action =
     bindE (optionalNonEmptyString input ''joinRequestId'' action) (\<lambda>joinRequestId.
     bindE (optionalNonEmptyString input ''id'' action) (\<lambda>eid.
     bindE (requireAtLeastOneNonEmptyString input [''joinRequestId'', ''id''] [''joinRequestId'', ''id''] action) (\<lambda>_.
     Inr (eid, joinRequestId))))"

definition parse_action :: "jsval \<Rightarrow> string \<Rightarrow> jsval + tool_input" where
  "parse_action input action =
     (if action = ''connect'' then parse_connect input
      else if action = ''send'' then bindE (parse_message input action) (\<lambda>(to, m). Inr (InSend to m))
      else if action = ''ask'' then bindE (parse_message input action) (\<lambda>(to, m). Inr (InAsk to m))
      else if action = ''reply'' then parse_reply input
      else if action = ''disconnect'' then parse_disconnect input
      else if action = ''approve_join'' then bindE (parse_decision input action) (\<lambda>(i, j). Inr (InApprove i j))
      else if action = ''deny_join'' then bindE (parse_decision input action) (\<lambda>(i, j). Inr (InDeny i j))
      else if action = ''list'' then Inr InList
      else if action = ''pending'' then Inr InPending
      else if action = ''status'' then Inr InStatus
      else unknown_action)"

definition parseToolInput :: "jsval \<Rightarrow> jsval + tool_input" where
  "parseToolInput input =
     (if \<not> is_record input then fail ''remote_intercom input must be a non-null object''
      else case get input ''action'' of
        JStr action \<Rightarrow> (if action \<notin> set TOOL_ACTIONS then unknown_action else parse_action input action)
      | _ \<Rightarrow> unknown_action)"

section \<open>Reading the checked input\<close>

definition nonEmpty_field :: "string option \<Rightarrow> string option" where
  "nonEmpty_field value =
     (case map_option trim value of None \<Rightarrow> None | Some t \<Rightarrow> (if t = [] then None else Some t))"

definition requireJoinRequestId :: "string option \<Rightarrow> string option \<Rightarrow> jsval + string" where
  "requireJoinRequestId eid joinRequestId =
     (case nullish (nonEmpty_field joinRequestId) (nonEmpty_field eid) of
        None \<Rightarrow> fail ''join approval requires joinRequestId or id''
      | Some j \<Rightarrow> Inr j)"

definition validNonEmptyString :: "jsval \<Rightarrow> string option" where
  "validNonEmptyString v = non_blank_string v"

section \<open>What the checks establish\<close>

definition given :: "string option \<Rightarrow> bool" where
  "given s = (case s of None \<Rightarrow> True | Some t \<Rightarrow> \<not> blank t)"

fun input_ok :: "tool_input \<Rightarrow> bool" where
  "input_ok (InConnect ch cn pin dn di cv) =
     (given ch \<and> given cn \<and> (ch \<noteq> None \<or> cn \<noteq> None) \<and> \<not> blank pin \<and> given dn \<and> given di \<and> given cv)"
| "input_ok (InSend to m) = (\<not> blank to \<and> \<not> blank m)"
| "input_ok (InAsk to m) = (\<not> blank to \<and> \<not> blank m)"
| "input_ok (InReply i r m) = (given i \<and> given r \<and> (i \<noteq> None \<or> r \<noteq> None) \<and> \<not> blank m)"
| "input_ok (InDisconnect c r) = (case c of Some n \<Rightarrow> is_finite_number (JNum n) | None \<Rightarrow> True)"
| "input_ok (InApprove i j) = (given i \<and> given j \<and> (i \<noteq> None \<or> j \<noteq> None))"
| "input_ok (InDeny i j) = (given i \<and> given j \<and> (i \<noteq> None \<or> j \<noteq> None))"
| "input_ok _ = True"

lemma requiredNonEmptyString_Inr:
  "requiredNonEmptyString input field action = Inr s \<longleftrightarrow> get input field = JStr s \<and> \<not> blank s"
  by (auto simp: requiredNonEmptyString_def fail_def non_blank_string_Some split: option.splits)
    (metis non_blank_string_Some option.distinct(1) option.inject)+

lemma optionalNonEmptyString_Inr:
  "optionalNonEmptyString input field action = Inr s \<longleftrightarrow> get input field = opt_str s \<and> given s"
  by (cases s; cases "get input field")
    (auto simp: optionalNonEmptyString_def fail_def given_def non_blank_string_def)

lemma requireAtLeastOne_Inr:
  "(\<exists>s. requireAtLeastOneNonEmptyString input all fs action = Inr s) \<longleftrightarrow>
     (\<exists>field \<in> set fs. \<exists>s. get input field = JStr s \<and> \<not> blank s)"
  by (induction fs) (auto simp: fail_def non_blank_string_Some split: option.split,
      auto simp: non_blank_string_def split: option.splits if_splits)

lemma requireAtLeastOne_two:
  "(\<exists>s. requireAtLeastOneNonEmptyString input all [a, b] action = Inr s) \<longleftrightarrow>
     non_blank_string (get input a) \<noteq> None \<or> non_blank_string (get input b) \<noteq> None"
  unfolding requireAtLeastOne_Inr
  by (cases "non_blank_string (get input a)"; cases "non_blank_string (get input b)")
    (auto simp: non_blank_string_Some, auto simp: non_blank_string_def split: option.splits if_splits)

lemma non_blank_opt_str: "given s \<Longrightarrow> non_blank_string (opt_str s) = s"
  by (cases s) (auto simp: given_def non_blank_string_def)

fun names :: "tool_input \<Rightarrow> string" where
  "names (InConnect ch cn pin dn di cv) = ''connect''"
| "names InList = ''list''"
| "names (InSend to m) = ''send''"
| "names (InAsk to m) = ''ask''"
| "names (InReply i r m) = ''reply''"
| "names InPending = ''pending''"
| "names InStatus = ''status''"
| "names (InDisconnect c r) = ''disconnect''"
| "names (InApprove i j) = ''approve_join''"
| "names (InDeny i j) = ''deny_join''"

text \<open>The input an object describes: its action and its fields, read as they are.\<close>

fun fields_of :: "jsval \<Rightarrow> tool_input \<Rightarrow> bool" where
  "fields_of v (InConnect ch cn pin dn di cv) =
     (get v ''channel'' = opt_str ch \<and> get v ''channelName'' = opt_str cn \<and> get v ''pin'' = JStr pin \<and>
      get v ''deviceName'' = opt_str dn \<and> get v ''deviceId'' = opt_str di \<and> get v ''clientVersion'' = opt_str cv)"
| "fields_of v (InSend to m) = (get v ''to'' = JStr to \<and> get v ''message'' = JStr m)"
| "fields_of v (InAsk to m) = (get v ''to'' = JStr to \<and> get v ''message'' = JStr m)"
| "fields_of v (InReply i r m) = (get v ''id'' = opt_str i \<and> get v ''replyTo'' = opt_str r \<and> get v ''message'' = JStr m)"
| "fields_of v (InDisconnect c r) =
     (get v ''code'' = (case c of None \<Rightarrow> JUndef | Some n \<Rightarrow> JNum n) \<and> get v ''reason'' = opt_str r)"
| "fields_of v (InApprove i j) = (get v ''id'' = opt_str i \<and> get v ''joinRequestId'' = opt_str j)"
| "fields_of v (InDeny i j) = (get v ''id'' = opt_str i \<and> get v ''joinRequestId'' = opt_str j)"
| "fields_of v _ = True"

lemma parse_connect_Inr:
  "parse_connect v = Inr i \<longleftrightarrow> (\<exists>ch cn pin dn di cv. i = InConnect ch cn pin dn di cv \<and> fields_of v i \<and> input_ok i)"
proof -
  have "(\<exists>s. requireAtLeastOneNonEmptyString v [''channel'', ''channelName''] [''channel'', ''channelName''] ''connect'' = Inr s)
      \<longleftrightarrow> ch \<noteq> None \<or> cn \<noteq> None"
    if "get v ''channel'' = opt_str ch" "get v ''channelName'' = opt_str cn" "given ch" "given cn" for ch cn
    using that by (simp only: requireAtLeastOne_two non_blank_opt_str)
  then show ?thesis
    by (auto simp: parse_connect_def bindE_Inr_iff optionalNonEmptyString_Inr requiredNonEmptyString_Inr
        simp del: requireAtLeastOneNonEmptyString.simps)
qed

lemma parse_message_Inr:
  "parse_message v action = Inr (to, m) \<longleftrightarrow>
     get v ''to'' = JStr to \<and> get v ''message'' = JStr m \<and> \<not> blank to \<and> \<not> blank m"
  by (auto simp: parse_message_def bindE_Inr_iff requiredNonEmptyString_Inr)

lemma parse_reply_Inr:
  "parse_reply v = Inr i \<longleftrightarrow> (\<exists>e r m. i = InReply e r m \<and> fields_of v i \<and> input_ok i)"
proof -
  have "(\<exists>s. requireAtLeastOneNonEmptyString v [''replyTo'', ''id''] [''replyTo'', ''id''] ''reply'' = Inr s)
      \<longleftrightarrow> r \<noteq> None \<or> e \<noteq> None"
    if "get v ''replyTo'' = opt_str r" "get v ''id'' = opt_str e" "given r" "given e" for r e
    using that by (simp only: requireAtLeastOne_two non_blank_opt_str)
  then show ?thesis
    by (auto simp: parse_reply_def bindE_Inr_iff optionalNonEmptyString_Inr requiredNonEmptyString_Inr
        simp del: requireAtLeastOneNonEmptyString.simps) (metis opt_str_simps(1) option.exhaust option.distinct(1))+
qed

lemma parse_decision_Inr:
  "parse_decision v action = Inr (e, j) \<longleftrightarrow>
     get v ''id'' = opt_str e \<and> get v ''joinRequestId'' = opt_str j \<and> given e \<and> given j \<and> (e \<noteq> None \<or> j \<noteq> None)"
proof -
  have "(\<exists>s. requireAtLeastOneNonEmptyString v [''joinRequestId'', ''id''] [''joinRequestId'', ''id''] action = Inr s)
      \<longleftrightarrow> j \<noteq> None \<or> e \<noteq> None"
    if "get v ''joinRequestId'' = opt_str j" "get v ''id'' = opt_str e" "given j" "given e"
    using that by (simp only: requireAtLeastOne_two non_blank_opt_str)
  then show ?thesis
    by (auto simp: parse_decision_def bindE_Inr_iff optionalNonEmptyString_Inr
        simp del: requireAtLeastOneNonEmptyString.simps)
qed

lemma parse_disconnect_Inr:
  "parse_disconnect v = Inr i \<longleftrightarrow> (\<exists>c r. i = InDisconnect c r \<and> fields_of v i \<and> input_ok i)"
proof -
  have code: "(x = JUndef \<or> is_finite_number x) \<and> c = (case x of JNum n \<Rightarrow> Some n | _ \<Rightarrow> None) \<longleftrightarrow>
      x = (case c of None \<Rightarrow> JUndef | Some n \<Rightarrow> JNum n) \<and>
      (case c of Some n \<Rightarrow> is_finite_number (JNum n) | None \<Rightarrow> True)" for x c
    by (cases c; cases x) auto
  have reason: "(x = JUndef \<or> as_string x \<noteq> None) \<and> r = as_string x \<longleftrightarrow> x = opt_str r" for x r
    by (cases r; cases x) auto
  have "parse_disconnect v = Inr (InDisconnect c r) \<longleftrightarrow>
      ((get v ''code'' = JUndef \<or> is_finite_number (get v ''code'')) \<and>
        c = (case get v ''code'' of JNum n \<Rightarrow> Some n | _ \<Rightarrow> None)) \<and>
      ((get v ''reason'' = JUndef \<or> as_string (get v ''reason'') \<noteq> None) \<and> r = as_string (get v ''reason''))" for c r
    unfolding parse_disconnect_def fail_def Let_def by auto
  then have "parse_disconnect v = Inr (InDisconnect c r) \<longleftrightarrow>
      fields_of v (InDisconnect c r) \<and> input_ok (InDisconnect c r)" for c r
    unfolding code reason fields_of.simps input_ok.simps by blast
  moreover have "\<exists>c r. i = InDisconnect c r" if "parse_disconnect v = Inr i"
    using that by (auto simp: parse_disconnect_def fail_def Let_def split: if_splits)
  ultimately show ?thesis by blast
qed

lemma names_action: "names i \<in> set TOOL_ACTIONS"
  by (cases i) (simp_all add: TOOL_ACTIONS_def)

lemma parse_action_eqs:
  "parse_action v ''connect'' = parse_connect v"
  "parse_action v ''send'' = bindE (parse_message v ''send'') (\<lambda>(to, m). Inr (InSend to m))"
  "parse_action v ''ask'' = bindE (parse_message v ''ask'') (\<lambda>(to, m). Inr (InAsk to m))"
  "parse_action v ''reply'' = parse_reply v"
  "parse_action v ''disconnect'' = parse_disconnect v"
  "parse_action v ''approve_join'' = bindE (parse_decision v ''approve_join'') (\<lambda>(i, j). Inr (InApprove i j))"
  "parse_action v ''deny_join'' = bindE (parse_decision v ''deny_join'') (\<lambda>(i, j). Inr (InDeny i j))"
  "parse_action v ''list'' = Inr InList"
  "parse_action v ''pending'' = Inr InPending"
  "parse_action v ''status'' = Inr InStatus"
  by (simp_all add: parse_action_def)

lemma parse_action_Inr:
  assumes "a \<in> set TOOL_ACTIONS"
  shows "parse_action v a = Inr i \<longleftrightarrow> a = names i \<and> fields_of v i \<and> input_ok i"
proof -
  have "parse_action v a = Inr i \<Longrightarrow> a = names i \<and> fields_of v i \<and> input_ok i"
    using assms by (simp add: TOOL_ACTIONS_def)
      (elim disjE; auto simp: parse_action_eqs bindE_Inr_iff parse_connect_Inr parse_reply_Inr parse_disconnect_Inr
        parse_message_Inr parse_decision_Inr)
  moreover have "fields_of v i \<Longrightarrow> input_ok i \<Longrightarrow> parse_action v (names i) = Inr i"
    by (cases i) (simp_all add: parse_action_eqs bindE_Inr_iff parse_connect_Inr parse_reply_Inr parse_disconnect_Inr
        parse_message_Inr parse_decision_Inr)
  ultimately show ?thesis by blast
qed

text \<open>C23. The tool accepts an input exactly when it is an object, not an array, whose action is known and whose
  fields are what that action needs: required strings are present and not blank, optional ones absent or
  not blank, at least one of each pair of aliases given, a close code finite. The accepted input holds
  exactly the fields of the object.\<close>

theorem parseToolInput_spec:
  "parseToolInput v = Inr i \<longleftrightarrow> is_record v \<and> get v ''action'' = JStr (names i) \<and> fields_of v i \<and> input_ok i"
  using names_action [of i]
  by (auto simp: parseToolInput_def parse_action_Inr unknown_action_def fail_def split: jsval.split)

end
