(* ===== verification/Tool.thy ===== *)
theory Tool
  imports Client Pending Tool_Input
begin

text \<open>
  The tool (\<open>extension/src/tools/intercom-tool.ts\<close>): its context, the handlers it registers for relay
  events, notifications, and the execution of its actions. The tool drives one relay client; the events
  the client dispatches to the tool's handlers are the \<open>ODispatch\<close> entries of the client's log, and
  every step of the client is followed by the handlers for the entries it added. The handlers do not
  touch the client, so running them after the step is running them in it.

  A callback of the user (\<open>onNotify\<close>, \<open>onNotifyError\<close>) is a parameter that says how a call ends: it returns,
  throws, or returns a promise that is rejected. It does not call back into the tool.
\<close>

section \<open>Context\<close>

datatype tool_result =
    ConnectResult connect_response relay_client_state
  | ListResult jsval jsval jsval jsval relay_client_state
  | StatusResult jsval jsval jsval relay_client_state
  | DeliveryResult string jsval jsval jsval relay_client_state
  | PendingResult pending_snapshot
  | DisconnectResult relay_client_state

text \<open>The outcome of a call of \<open>execute\<close>, and what is left of one after its \<open>await\<close>.\<close>

datatype tool_outcome = Running | Returned tool_result | Threw jsval

datatype tool_cont =
    AfterConnect string "string option"
  | AfterList
  | AfterSend
  | AfterAsk
  | AfterReply string
  | AfterStatus
  | AfterApprove string
  | AfterDeny string

datatype callback_outcome = Returns | Throws jsval | Rejects jsval

text \<open>
  The calls of the callbacks, in order, and the errors that reach no handler: a promise whose rejection
  nothing catches.
\<close>

datatype notice = Notified string jsval | NotifyFailed jsval string jsval | Unhandled jsval

record tool_host =
  relay :: client_host
  onNotify :: "(string \<Rightarrow> jsval \<Rightarrow> callback_outcome) option"
  onNotifyError :: "(jsval \<Rightarrow> string \<Rightarrow> jsval \<Rightarrow> callback_outcome) option"

record tool_context =
  ctx_client :: relay_client
  ctx_pending :: pending_state
  ctx_channelName :: "string option"
  ctx_notes :: "notice list"
  ctx_rejections :: "(jsval \<times> string \<times> jsval) list"
  ctx_calls :: "tool_outcome list"
  ctx_waiting :: "(nat \<times> nat \<times> tool_cont) list"

section \<open>Notifications\<close>

text \<open>
  Code that may throw gives the thrown value, if any, beside the context. A \<open>catch\<close> block runs on the
  context the throw has left.
\<close>

definition caught ::
  "jsval option \<times> tool_context \<Rightarrow> (jsval \<Rightarrow> tool_context \<Rightarrow> jsval option \<times> tool_context) \<Rightarrow> jsval option \<times> tool_context" where
  "caught body handler = (case body of (None, t) \<Rightarrow> (None, t) | (Some err, t) \<Rightarrow> handler err t)"

text \<open>The promise of the error callback has a \<open>catch\<close> that does nothing.\<close>

definition reportNotifyError ::
  "tool_host \<Rightarrow> jsval \<Rightarrow> string \<Rightarrow> jsval \<Rightarrow> tool_context \<Rightarrow> jsval option \<times> tool_context" where
  "reportNotifyError h err message event t =
     (case onNotifyError h of
        None \<Rightarrow> (None, t)
      | Some f \<Rightarrow>
          caught
            (let t1 = t\<lparr>ctx_notes := ctx_notes t @ [NotifyFailed err message event]\<rparr> in
             case f err message event of
               Returns \<Rightarrow> (None, t1)
             | Throws x \<Rightarrow> (Some x, t1)
             | Rejects x \<Rightarrow> (None, t1))
            (\<lambda>x t1. (None, t1)))"

text \<open>A rejection is reported when the \<open>catch\<close> of the returned promise runs.\<close>

definition notify :: "tool_host \<Rightarrow> string \<Rightarrow> jsval \<Rightarrow> tool_context \<Rightarrow> jsval option \<times> tool_context" where
  "notify h message event t =
     (case onNotify h of
        None \<Rightarrow> (None, t)
      | Some f \<Rightarrow>
          caught
            (let t1 = t\<lparr>ctx_notes := ctx_notes t @ [Notified message event]\<rparr> in
             case f message event of
               Returns \<Rightarrow> (None, t1)
             | Throws err \<Rightarrow> (Some err, t1)
             | Rejects err \<Rightarrow> (None, t1\<lparr>ctx_rejections := ctx_rejections t1 @ [(err, message, event)]\<rparr>))
            (\<lambda>err t1. reportNotifyError h err message event t1))"

lemma report_throws [simp]: "fst (reportNotifyError h err m e t) = None"
  by (simp add: reportNotifyError_def caught_def Let_def split: option.split callback_outcome.split)

lemma notify_throws [simp]: "fst (notify h m e t) = None"
  by (simp add: notify_def caught_def Let_def split: option.split callback_outcome.split)

section \<open>Text of a value\<close>

text \<open>
  The conversion to a string in a template literal. It throws on an object that came with a
  \<open>toString\<close> of its own, since nothing parsed from JSON is callable. Errors and functions do not occur in events.
\<close>

fun js_text :: "jsval \<Rightarrow> string option" and js_texts :: "jsval list \<Rightarrow> string list option" where
  "js_text JUndef = Some ''undefined''"
| "js_text JNull = Some ''null''"
| "js_text (JBool b) = Some (if b then ''true'' else ''false'')"
| "js_text (JNum n) = Some (number_text n)"
| "js_text (JStr s) = Some s"
| "js_text (JArr xs) = map_option (join_with '','') (js_texts xs)"
| "js_text (JObj kvs) = (if map_of kvs ''toString'' = None then Some ''[object Object]'' else None)"
| "js_text (JError m kvs) = Some (''Error: '' @ m)"
| "js_text (JBytes b) = Some (utf8_decode b)"
| "js_text (JFun n) = None"
| "js_texts [] = Some []"
| "js_texts (x # xs) =
     (case (if x = JUndef \<or> x = JNull then Some [] else js_text x, js_texts xs) of
        (Some s, Some ss) \<Rightarrow> Some (s # ss)
      | _ \<Rightarrow> None)"

definition no_text :: jsval where
  "no_text = JError ''Cannot convert object to primitive value'' []"

definition sender_text :: "jsval \<Rightarrow> string option" where
  "sender_text event = js_text (js_nullish (get event ''from'') (JStr ''unknown''))"

section \<open>Relay event handlers\<close>

definition event_type :: "jsval \<Rightarrow> string" where
  "event_type event = nullish_or (as_string (get event ''type'')) []"

definition addInboxEvent :: "jsval \<Rightarrow> string option \<Rightarrow> string \<Rightarrow> tool_context \<Rightarrow> tool_context" where
  "addInboxEvent event message receivedAt t =
     t\<lparr>ctx_pending := addInbox
         \<lparr>item_id = js_nullish (get event ''id'') (JStr (event_type event @ '':'' @ receivedAt)),
          item_type = event_type event, item_from = get event ''from'', item_to = get event ''to'',
          item_channelId = get event ''channelId'', item_message = message, item_receivedAt = receivedAt,
          item_event = event\<rparr> (ctx_pending t)\<rparr>"

definition time_text :: "tool_context \<Rightarrow> string" where
  "time_text t = iso_string (now (ctx_client t))"

text \<open>
  Each handler gives what it throws, if anything. The message of a notification is built before
  \<open>notify\<close> is called, whether or not there is a callback.
\<close>

definition notify_sender ::
  "tool_host \<Rightarrow> string \<Rightarrow> string \<Rightarrow> jsval \<Rightarrow> tool_context \<Rightarrow> jsval option \<times> tool_context" where
  "notify_sender h before after event t =
     (case sender_text event of
        None \<Rightarrow> (Some no_text, t)
      | Some who \<Rightarrow> notify h (before @ who @ after) event t)"

definition asks_text :: "jsval \<Rightarrow> string option" where
  "asks_text event =
     (let payload = get event ''payload'' in
      if (get event ''type'' \<noteq> JStr (wire MessageAsk) \<and> get payload ''kind'' \<noteq> JStr ''ask'')
         \<or> get event ''id'' = JUndef then None
      else as_string (get payload ''text''))"

definition askHandler :: "tool_host \<Rightarrow> jsval \<Rightarrow> tool_context \<Rightarrow> jsval option \<times> tool_context" where
  "askHandler h event t =
     (case asks_text event of
        None \<Rightarrow> (None, t)
      | Some text \<Rightarrow>
          (let receivedAt = time_text t;
               t1 = t\<lparr>ctx_pending := addAsk
                 \<lparr>ask_id = get event ''id'', ask_from = get event ''from'', ask_to = get event ''to'',
                  ask_channelId = get event ''channelId'', ask_message = text, ask_receivedAt = receivedAt\<rparr>
                 (ctx_pending t)\<rparr>
           in notify_sender h ''Device '' ('' asks: '' @ text) event (addInboxEvent event (Some text) receivedAt t1)))"

definition says_text :: "jsval \<Rightarrow> string option" where
  "says_text event =
     (let payload = get event ''payload'' in
      if get payload ''kind'' = JStr ''ask'' then None else as_string (get payload ''text''))"

definition sendHandler :: "tool_host \<Rightarrow> jsval \<Rightarrow> tool_context \<Rightarrow> jsval option \<times> tool_context" where
  "sendHandler h event t =
     (case says_text event of
        None \<Rightarrow> (None, t)
      | Some text \<Rightarrow>
          notify_sender h ''Device '' ('' says: '' @ text) event (addInboxEvent event (Some text) (time_text t) t))"

definition replyHandler :: "tool_host \<Rightarrow> jsval \<Rightarrow> tool_context \<Rightarrow> jsval option \<times> tool_context" where
  "replyHandler h event t =
     (case as_string (get (get event ''payload'') ''text'') of
        None \<Rightarrow> (None, t)
      | Some text \<Rightarrow>
          notify_sender h ''Device '' ('' replied: '' @ text) event (addInboxEvent event (Some text) (time_text t) t))"

definition joinApprovedHandler :: "tool_host \<Rightarrow> jsval \<Rightarrow> tool_context \<Rightarrow> jsval option \<times> tool_context" where
  "joinApprovedHandler h event t =
     notify_sender h ''Join approved by '' ''.'' event (addInboxEvent event None (time_text t) t)"

definition joinDeniedHandler :: "tool_host \<Rightarrow> jsval \<Rightarrow> tool_context \<Rightarrow> jsval option \<times> tool_context" where
  "joinDeniedHandler h event t =
     notify_sender h ''Join denied by '' ''.'' event (addInboxEvent event None (time_text t) t)"

definition inboxHandler :: "jsval \<Rightarrow> tool_context \<Rightarrow> jsval option \<times> tool_context" where
  "inboxHandler event t = (None, addInboxEvent event None (time_text t) t)"

definition join_message :: "string \<Rightarrow> string \<Rightarrow> string \<Rightarrow> string" where
  "join_message deviceName channelName joinRequestId =
     ''Device '' @ deviceName @ '' wants to join '' @ channelName @ '' (joinRequestId: '' @ joinRequestId
     @ ''). Use approve_join or deny_join with joinRequestId '' @ [CHR 0x22] @ joinRequestId @ [CHR 0x22] @ ''.''"

definition joinHandler :: "tool_host \<Rightarrow> jsval \<Rightarrow> tool_context \<Rightarrow> jsval option \<times> tool_context" where
  "joinHandler h event t =
     (let payload = get event ''payload'' in
      case (validNonEmptyString (get payload ''joinRequestId''), validNonEmptyString (get payload ''deviceId''),
            validNonEmptyString (get payload ''deviceName''), validNonEmptyString (get event ''channelId'')) of
        (Some joinRequestId, Some deviceId, Some deviceName, Some channelId) \<Rightarrow>
          (let channelName = nullish_or (ctx_channelName t) channelId;
               t1 = t\<lparr>ctx_pending := addJoinRequest
                 \<lparr>jr_id = joinRequestId, jr_joinRequestId = joinRequestId, jr_deviceId = deviceId,
                  jr_deviceName = deviceName, jr_channelId = Some channelId, jr_channelName = Some channelName,
                  jr_receivedAt = time_text t\<rparr> (ctx_pending t)\<rparr>
           in notify h (join_message deviceName channelName joinRequestId) event t1)
      | _ \<Rightarrow> (None, t))"

section \<open>Registration\<close>

text \<open>The handler functions, and the numbers under which the client knows them.\<close>

datatype tool_handler =
    AskHandler | SendHandler | ReplyHandler | JoinApprovedHandler | JoinDeniedHandler
  | OwnerHandler | PresenceHandler | ErrorHandler | JoinHandler

fun hid_of :: "tool_handler \<Rightarrow> nat" where
  "hid_of AskHandler = 0"
| "hid_of SendHandler = 1"
| "hid_of ReplyHandler = 2"
| "hid_of JoinApprovedHandler = 3"
| "hid_of JoinDeniedHandler = 4"
| "hid_of OwnerHandler = 5"
| "hid_of PresenceHandler = 6"
| "hid_of ErrorHandler = 7"
| "hid_of JoinHandler = 8"

definition all_handlers :: "tool_handler list" where
  "all_handlers = [AskHandler, SendHandler, ReplyHandler, JoinApprovedHandler, JoinDeniedHandler,
     OwnerHandler, PresenceHandler, ErrorHandler, JoinHandler]"

definition handler_of :: "nat \<Rightarrow> tool_handler option" where
  "handler_of hid = find (\<lambda>k. hid_of k = hid) all_handlers"

lemma handler_of_hid [simp]: "handler_of (hid_of k) = Some k"
  by (cases k) (simp_all add: handler_of_def all_handlers_def)

lemma hid_of_inj [simp]: "hid_of k = hid_of l \<longleftrightarrow> k = l"
  by (cases k; cases l) simp_all

fun handle_event :: "tool_host \<Rightarrow> tool_handler \<Rightarrow> jsval \<Rightarrow> tool_context \<Rightarrow> jsval option \<times> tool_context" where
  "handle_event h AskHandler event t = askHandler h event t"
| "handle_event h SendHandler event t = sendHandler h event t"
| "handle_event h ReplyHandler event t = replyHandler h event t"
| "handle_event h JoinApprovedHandler event t = joinApprovedHandler h event t"
| "handle_event h JoinDeniedHandler event t = joinDeniedHandler h event t"
| "handle_event h OwnerHandler event t = inboxHandler event t"
| "handle_event h PresenceHandler event t = inboxHandler event t"
| "handle_event h ErrorHandler event t = inboxHandler event t"
| "handle_event h JoinHandler event t = joinHandler h event t"

definition registrations :: "(string \<times> tool_handler) list" where
  "registrations = [(wire MessageSend, AskHandler), (wire MessageSend, SendHandler), (wire MessageAsk, AskHandler),
     (wire MessageReply, ReplyHandler), (wire JoinApproved, JoinApprovedHandler), (wire JoinDenied, JoinDeniedHandler),
     (''owner.changed'', OwnerHandler), (''presence.changed'', PresenceHandler), (wire Error, ErrorHandler),
     (wire JoinRequest, JoinHandler)]"

definition installRelayEventHandlers :: "relay_client \<Rightarrow> relay_client" where
  "installRelayEventHandlers = fold (\<lambda>(ty, k). on ty (hid_of k)) registrations"

definition disposeHandlers :: "relay_client \<Rightarrow> relay_client" where
  "disposeHandlers = fold (\<lambda>(ty, k). off ty (hid_of k)) registrations"

text \<open>
  What a handler throws depends on the event alone, so the client's host is the tool's, with the
  tool's handlers among the registered ones.
\<close>

fun thrown :: "tool_handler \<Rightarrow> jsval \<Rightarrow> jsval option" where
  "thrown AskHandler event = (if asks_text event \<noteq> None \<and> sender_text event = None then Some no_text else None)"
| "thrown SendHandler event = (if says_text event \<noteq> None \<and> sender_text event = None then Some no_text else None)"
| "thrown ReplyHandler event =
     (if as_string (get (get event ''payload'') ''text'') \<noteq> None \<and> sender_text event = None then Some no_text else None)"
| "thrown JoinApprovedHandler event = (if sender_text event = None then Some no_text else None)"
| "thrown JoinDeniedHandler event = (if sender_text event = None then Some no_text else None)"
| "thrown _ event = None"

lemma handle_event_throws: "fst (handle_event h k event t) = thrown k event"
  by (cases k) (auto simp: askHandler_def sendHandler_def replyHandler_def joinApprovedHandler_def
      joinDeniedHandler_def inboxHandler_def joinHandler_def notify_sender_def Let_def split: option.splits)

definition relay_host :: "tool_host \<Rightarrow> client_host" where
  "relay_host h = (relay h)\<lparr>handler_throws := (\<lambda>hid event.
     case handler_of hid of Some k \<Rightarrow> thrown k event | None \<Rightarrow> handler_throws (relay h) hid event)\<rparr>"

text \<open>The handlers for what a step of the client added to its log.\<close>

fun run_effect :: "tool_host \<Rightarrow> effect \<Rightarrow> tool_context \<Rightarrow> tool_context" where
  "run_effect h (ODispatch hid event) t =
     (case handler_of hid of None \<Rightarrow> t | Some k \<Rightarrow> snd (handle_event h k event t))"
| "run_effect h _ t = t"

definition client_update :: "tool_host \<Rightarrow> relay_client \<Rightarrow> tool_context \<Rightarrow> tool_context" where
  "client_update h c t = fold (run_effect h) (drop (length (log (ctx_client t))) (log c)) (t\<lparr>ctx_client := c\<rparr>)"

end
