(* ===== verification/Tool_Execute.thy ===== *)
theory Tool_Execute
  imports Tool
begin

text \<open>
  The execution of the tool's actions and the system the tool and its client form together
  (\<open>extension/src/tools/intercom-tool.ts\<close>). A call of \<open>execute\<close> runs to its \<open>await\<close> of the
  client's promise; what follows runs when that promise is settled. Calls are numbered, and their
  outcomes are kept in \<open>ctx_calls\<close>.
\<close>

section \<open>The connection in a result\<close>

definition connectionState :: "relay_client \<Rightarrow> relay_client_state" where
  "connectionState c =
     (let s0 = connectState c;
          s1 = (case currentStatus c of None \<Rightarrow> s0 | Some s \<Rightarrow> s0\<lparr>st_status := Some s\<rparr>);
          s2 = (case get_channelId c of None \<Rightarrow> s1 | Some s \<Rightarrow> s1\<lparr>st_channelId := Some s\<rparr>)
      in (case get_deviceId c of None \<Rightarrow> s2 | Some s \<Rightarrow> s2\<lparr>st_deviceId := Some s\<rparr>))"

section \<open>The part before the await\<close>

definition SEND_TIMEOUT_MS :: nat where "SEND_TIMEOUT_MS = 10000"
definition QUERY_TIMEOUT_MS :: nat where "QUERY_TIMEOUT_MS = 5000"

definition answer :: "tool_outcome \<Rightarrow> tool_context \<Rightarrow> tool_context" where
  "answer x t = t\<lparr>ctx_calls := ctx_calls t @ [x]\<rparr>"

text \<open>A method of the client is called and its promise awaited.\<close>

definition await_client ::
  "tool_host \<Rightarrow> (client_host \<Rightarrow> relay_client \<Rightarrow> nat \<times> relay_client) \<Rightarrow> tool_cont \<Rightarrow> tool_context \<Rightarrow> tool_context" where
  "await_client h f k t =
     (case f (relay_host h) (ctx_client t) of
        (p, c) \<Rightarrow>
          (let t1 = client_update h c t
           in answer Running (t1\<lparr>ctx_waiting := ctx_waiting t1 @ [(p, length (ctx_calls t1), k)]\<rparr>)))"

fun run_input :: "tool_host \<Rightarrow> tool_input \<Rightarrow> tool_context \<Rightarrow> tool_context" where
  "run_input h (InConnect ch cn pin dn di cv) t =
     (case nullish (nonEmpty_field ch) (nonEmpty_field cn) of
        None \<Rightarrow> answer (Threw (JError ''connect requires channel or channelName'' [])) t
      | Some channel \<Rightarrow>
          await_client h
            (\<lambda>r. connect r channel pin \<lparr>opt_deviceName = dn, opt_deviceId = di, opt_clientVersion = cv\<rparr>)
            (AfterConnect channel (ctx_channelName t)) t)"
| "run_input h InList t = await_client h (\<lambda>r. list_members r QUERY_TIMEOUT_MS) AfterList t"
| "run_input h (InSend to m) t = await_client h (\<lambda>r. send r to m SEND_TIMEOUT_MS) AfterSend t"
| "run_input h (InAsk to m) t = await_client h (\<lambda>r. ask r to m SEND_TIMEOUT_MS) AfterAsk t"
| "run_input h (InReply i r m) t =
     (case nullish (nonEmpty_field r) (nonEmpty_field i) of
        None \<Rightarrow> answer (Threw (JError ''reply requires replyTo or id'' [])) t
      | Some replyTo \<Rightarrow> await_client h (\<lambda>r. reply r replyTo m SEND_TIMEOUT_MS) (AfterReply replyTo) t)"
| "run_input h InPending t = answer (Returned (PendingResult (snapshot (ctx_pending t)))) t"
| "run_input h InStatus t = await_client h (\<lambda>r. status r QUERY_TIMEOUT_MS) AfterStatus t"
| "run_input h (InDisconnect code reason) t =
     (case disconnect (relay_host h) code reason (ctx_client t) of
        (Some e, c) \<Rightarrow> answer (Threw e) (client_update h c t)
      | (None, c) \<Rightarrow>
          (let t1 = client_update h c t; t2 = t1\<lparr>ctx_pending := clear (ctx_pending t1)\<rparr>
           in answer (Returned (DisconnectResult (connectionState (ctx_client t2)))) t2))"
| "run_input h (InApprove i j) t =
     (case requireJoinRequestId i j of
        Inl e \<Rightarrow> answer (Threw e) t
      | Inr q \<Rightarrow> await_client h (\<lambda>r. approveJoin r q SEND_TIMEOUT_MS) (AfterApprove q) t)"
| "run_input h (InDeny i j) t =
     (case requireJoinRequestId i j of
        Inl e \<Rightarrow> answer (Threw e) t
      | Inr q \<Rightarrow> await_client h (\<lambda>r. denyJoin r q SEND_TIMEOUT_MS) (AfterDeny q) t)"

definition execute :: "tool_host \<Rightarrow> jsval \<Rightarrow> tool_context \<Rightarrow> tool_context" where
  "execute h rawInput t =
     (case parseToolInput rawInput of Inl e \<Rightarrow> answer (Threw e) t | Inr i \<Rightarrow> run_input h i t)"

section \<open>The part after the await\<close>

definition delivery :: "string \<Rightarrow> request_response \<Rightarrow> tool_context \<Rightarrow> tool_result" where
  "delivery action r t =
     DeliveryResult action (rr_requestEvent r) (rr_responseEvent r) (rr_payload r) (connectionState (ctx_client t))"

definition connected :: "string \<Rightarrow> string option \<Rightarrow> tool_context \<Rightarrow> tool_context" where
  "connected channel previous t =
     (let t1 = (if previous \<noteq> None \<and> previous \<noteq> Some channel then t\<lparr>ctx_pending := clear (ctx_pending t)\<rparr> else t)
      in t1\<lparr>ctx_channelName := Some channel\<rparr>)"

definition after_connect :: "string \<Rightarrow> string option \<Rightarrow> connect_response \<Rightarrow> tool_context \<Rightarrow> tool_result \<times> tool_context" where
  "after_connect channel previous r t =
     (let t1 = connected channel previous t in (ConnectResult r (connectionState (ctx_client t1)), t1))"

fun after_response :: "tool_cont \<Rightarrow> request_response \<Rightarrow> tool_context \<Rightarrow> (tool_result \<times> tool_context) option" where
  "after_response AfterList r t =
     Some (ListResult (rr_requestEvent r) (rr_responseEvent r) (get (rr_payload r) ''ownerId'')
             (get (rr_payload r) ''members'') (connectionState (ctx_client t)), t)"
| "after_response AfterStatus r t =
     Some (StatusResult (rr_requestEvent r) (rr_responseEvent r) (rr_payload r) (connectionState (ctx_client t)), t)"
| "after_response AfterSend r t = Some (delivery ''send'' r t, t)"
| "after_response AfterAsk r t = Some (delivery ''ask'' r t, t)"
| "after_response (AfterReply replyTo) r t =
     (let t1 = t\<lparr>ctx_pending := snd (deleteAsk (JStr replyTo) (ctx_pending t))\<rparr> in Some (delivery ''reply'' r t1, t1))"
| "after_response (AfterApprove q) r t =
     (let t1 = t\<lparr>ctx_pending := snd (deleteJoinRequest q (ctx_pending t))\<rparr> in Some (delivery ''approve_join'' r t1, t1))"
| "after_response (AfterDeny q) r t =
     (let t1 = t\<lparr>ctx_pending := snd (deleteJoinRequest q (ctx_pending t))\<rparr> in Some (delivery ''deny_join'' r t1, t1))"
| "after_response (AfterConnect channel previous) r t = None"

text \<open>
  The awaited promise of \<open>connect\<close> carries a connect response and every other one a response; the
  remaining cases cannot occur.
\<close>

fun after_await :: "tool_cont \<Rightarrow> pval outcome \<Rightarrow> tool_context \<Rightarrow> tool_outcome \<times> tool_context" where
  "after_await k (Rejected e) t = (Threw e, t)"
| "after_await (AfterConnect channel previous) (Fulfilled (VConnect r)) t =
     (case after_connect channel previous r t of (x, t1) \<Rightarrow> (Returned x, t1))"
| "after_await k (Fulfilled (VResponse r)) t =
     (case after_response k r t of Some (x, t1) \<Rightarrow> (Returned x, t1) | None \<Rightarrow> (Threw type_error, t))"
| "after_await k _ t = (Threw type_error, t)"

definition continue :: "nat \<times> nat \<times> tool_cont \<Rightarrow> pval outcome \<Rightarrow> tool_context \<Rightarrow> tool_context" where
  "continue w res t =
     (case w of (p, n, k) \<Rightarrow>
        (case after_await k res t of (x, t1) \<Rightarrow> t1\<lparr>ctx_calls := (ctx_calls t1)[n := x]\<rparr>))"

section \<open>Creation and registration\<close>

definition tool_name :: string where "tool_name = ''remote_intercom''"

definition tool_description :: string where
  "tool_description =
     ''Connect to a remote intercom relay and exchange list/send/ask/reply/pending/status messages.''"

definition tool_on :: "relay_client \<Rightarrow> pending_state \<Rightarrow> tool_context" where
  "tool_on c p = \<lparr>ctx_client = installRelayEventHandlers c, ctx_pending = p, ctx_channelName = None, ctx_notes = [],
     ctx_rejections = [], ctx_calls = [], ctx_waiting = []\<rparr>"

definition createRemoteIntercomTool ::
  "node_host \<Rightarrow> nat \<Rightarrow> relay_client option \<Rightarrow> pending_state option \<Rightarrow> jsval + tool_context" where
  "createRemoteIntercomTool nh t client store =
     bindE (case client of Some c \<Rightarrow> Inr c | None \<Rightarrow> construct_client nh empty_config None t)
       (\<lambda>c. Inr (tool_on c (nullish_or store createPendingState)))"

text \<open>
  A registrar is a function or an object with up to four functions; a function is a number. The result
  is the function that was called with the tool, what it threw, and the tool, whose handlers are
  installed by then.
\<close>

datatype registrar =
    FunctionRegistrar nat
  | ObjectRegistrar "nat option" "nat option" "nat option" "nat option"

definition register_function :: "registrar \<Rightarrow> nat option" where
  "register_function r =
     (case r of
        FunctionRegistrar f \<Rightarrow> Some f
      | ObjectRegistrar registerTool register tool addTool \<Rightarrow>
          nullish (nullish (nullish registerTool register) tool) addTool)"

definition no_registrar :: jsval where
  "no_registrar = JError ''registrar must be a function or expose registerTool/register/tool/addTool'' []"

definition registerRemoteIntercom ::
  "(nat \<Rightarrow> jsval option) \<Rightarrow> registrar \<Rightarrow> node_host \<Rightarrow> nat \<Rightarrow> relay_client option \<Rightarrow> pending_state option
     \<Rightarrow> jsval + nat option \<times> jsval option \<times> tool_context" where
  "registerRemoteIntercom throws r nh t client store =
     bindE (createRemoteIntercomTool nh t client store) (\<lambda>tool.
       case register_function r of
         None \<Rightarrow> Inr (None, Some no_registrar, tool)
       | Some f \<Rightarrow> Inr (Some f, throws f, tool))"

section \<open>The system\<close>

text \<open>
  What can happen to a tool: a call of \<open>execute\<close>, a step of the client, the continuation of a call whose
  promise is settled, the \<open>catch\<close> of a rejected notification, and \<open>dispose\<close>. What such a \<open>catch\<close> throws
  rejects a promise that no one handles.
\<close>

datatype tool_action =
    Execute jsval
  | ClientAct action
  | Continue nat
  | CatchRejection nat
  | Dispose

definition remove_nth :: "nat \<Rightarrow> 'a list \<Rightarrow> 'a list" where
  "remove_nth i xs = take i xs @ drop (Suc i) xs"

fun tool_act :: "tool_host \<Rightarrow> tool_action \<Rightarrow> tool_context \<Rightarrow> tool_context option" where
  "tool_act h (Execute v) t = Some (execute h v t)"
| "tool_act h (ClientAct a) t =
     (case act (relay_host h) a (ctx_client t) of None \<Rightarrow> None | Some c \<Rightarrow> Some (client_update h c t))"
| "tool_act h (Continue i) t =
     (if i < length (ctx_waiting t) \<and> promise_of (ctx_client t) (fst (ctx_waiting t ! i)) \<noteq> Pending
      then Some (continue (ctx_waiting t ! i) (promise_of (ctx_client t) (fst (ctx_waiting t ! i)))
             (t\<lparr>ctx_waiting := remove_nth i (ctx_waiting t)\<rparr>))
      else None)"
| "tool_act h (CatchRejection i) t =
     (if i < length (ctx_rejections t)
      then (case ctx_rejections t ! i of
              (err, message, event) \<Rightarrow>
                (case reportNotifyError h err message event (t\<lparr>ctx_rejections := remove_nth i (ctx_rejections t)\<rparr>) of
                   (None, u) \<Rightarrow> Some u
                 | (Some x, u) \<Rightarrow> Some (u\<lparr>ctx_notes := ctx_notes u @ [Unhandled x]\<rparr>)))
      else None)"
| "tool_act h Dispose t = Some (t\<lparr>ctx_client := disposeHandlers (ctx_client t)\<rparr>)"

lemma catch_rejection:
  assumes "tool_act h (CatchRejection i) t = Some u"
  obtains err m e where "u = snd (reportNotifyError h err m e (t\<lparr>ctx_rejections := remove_nth i (ctx_rejections t)\<rparr>))"
proof -
  obtain err m e where r: "i < length (ctx_rejections t)" "ctx_rejections t ! i = (err, m, e)"
    using assms by (cases "ctx_rejections t ! i") (auto split: if_splits)
  let ?x = "reportNotifyError h err m e (t\<lparr>ctx_rejections := remove_nth i (ctx_rejections t)\<rparr>)"
  have "?x = (None, snd ?x)" by (simp add: prod_eq_iff)
  then obtain v where "?x = (None, v)" by blast
  with assms r show thesis by (intro that [of err m e]) simp
qed

inductive tool_reachable :: "tool_host \<Rightarrow> tool_context \<Rightarrow> bool" for h where
  created: "reachable (relay_host h) c \<Longrightarrow> pending_ok p \<Longrightarrow> tool_reachable h (tool_on c p)"
| acted: "tool_reachable h t \<Longrightarrow> tool_act h a t = Some u \<Longrightarrow> tool_reachable h u"

end
