(* ===== verification/Tool_Invariant.thy ===== *)
theory Tool_Invariant
  imports Tool_Execute Client_Operations Client_Sound
begin

text \<open>
  The invariant of the tool and its client: the client is in a state it can reach by itself, the store
  is well formed, every call that has not ended waits for a promise of the client, and what that
  promise can be fulfilled with is what the rest of the call expects.
\<close>

section \<open>What the handlers leave alone\<close>

lemma report_fields [simp]:
  "ctx_client (snd (reportNotifyError h x m e t)) = ctx_client t" "ctx_pending (snd (reportNotifyError h x m e t)) = ctx_pending t"
  "ctx_channelName (snd (reportNotifyError h x m e t)) = ctx_channelName t" "ctx_calls (snd (reportNotifyError h x m e t)) = ctx_calls t"
  "ctx_waiting (snd (reportNotifyError h x m e t)) = ctx_waiting t"
  by (simp_all add: reportNotifyError_def caught_def Let_def split: option.split callback_outcome.split)

lemma notify_fields [simp]:
  "ctx_client (snd (notify h m e t)) = ctx_client t" "ctx_pending (snd (notify h m e t)) = ctx_pending t"
  "ctx_channelName (snd (notify h m e t)) = ctx_channelName t" "ctx_calls (snd (notify h m e t)) = ctx_calls t"
  "ctx_waiting (snd (notify h m e t)) = ctx_waiting t"
  by (simp_all add: notify_def caught_def Let_def split: option.split callback_outcome.split)

lemma notify_sender_fields [simp]:
  "ctx_client (snd (notify_sender h a b e t)) = ctx_client t" "ctx_pending (snd (notify_sender h a b e t)) = ctx_pending t"
  "ctx_channelName (snd (notify_sender h a b e t)) = ctx_channelName t" "ctx_calls (snd (notify_sender h a b e t)) = ctx_calls t"
  "ctx_waiting (snd (notify_sender h a b e t)) = ctx_waiting t"
  by (simp_all add: notify_sender_def split: option.split)

lemma addInboxEvent_fields [simp]:
  "ctx_client (addInboxEvent e m r t) = ctx_client t" "ctx_channelName (addInboxEvent e m r t) = ctx_channelName t"
  "ctx_calls (addInboxEvent e m r t) = ctx_calls t" "ctx_waiting (addInboxEvent e m r t) = ctx_waiting t"
  by (simp_all add: addInboxEvent_def)

lemmas handler_defs = askHandler_def sendHandler_def replyHandler_def joinApprovedHandler_def joinDeniedHandler_def
  inboxHandler_def joinHandler_def Let_def

lemma handle_event_fields [simp]:
  "ctx_client (snd (handle_event h k e t)) = ctx_client t" "ctx_channelName (snd (handle_event h k e t)) = ctx_channelName t"
  "ctx_calls (snd (handle_event h k e t)) = ctx_calls t" "ctx_waiting (snd (handle_event h k e t)) = ctx_waiting t"
  by (cases k; simp add: handler_defs split: option.split)+

text \<open>A handler changes the store through its operations only.\<close>

definition store_ops :: "pending_state \<Rightarrow> pending_state \<Rightarrow> bool" where
  "store_ops p q = (\<exists>ops. q = fold pending_step ops p)"

lemma store_ops_refl [simp]: "store_ops p p"
  unfolding store_ops_def by (rule exI [of _ "[]"]) simp

lemma store_ops_trans: "store_ops p q \<Longrightarrow> store_ops q r \<Longrightarrow> store_ops p r"
  unfolding store_ops_def by (metis fold_append comp_apply)

lemma store_ops_step: "store_ops p q \<Longrightarrow> store_ops p (pending_step op q)"
  unfolding store_ops_def by (metis fold_append comp_apply fold_simps)

lemma store_ops_steps:
  "store_ops p q \<Longrightarrow> store_ops p (addAsk a q)" "store_ops p q \<Longrightarrow> store_ops p (addInbox i q)"
  "store_ops p q \<Longrightarrow> store_ops p (addJoinRequest r q)" "store_ops p q \<Longrightarrow> store_ops p (clear q)"
  "store_ops p q \<Longrightarrow> store_ops p (snd (deleteAsk k q))" "store_ops p q \<Longrightarrow> store_ops p (snd (deleteJoinRequest j q))"
  using store_ops_step [of p q "AddAsk a"] store_ops_step [of p q "AddInbox i"] store_ops_step [of p q "AddJoinRequest r"]
    store_ops_step [of p q Clear] store_ops_step [of p q "DeleteAsk k"] store_ops_step [of p q "DeleteJoinRequest j"]
  by simp_all

lemma store_ops_ok: "store_ops p q \<Longrightarrow> pending_ok p \<Longrightarrow> pending_ok q"
  by (auto simp: store_ops_def fold_pending_ok)

lemma handle_event_store: "store_ops (ctx_pending t) (ctx_pending (snd (handle_event h k e t)))"
  by (cases k; simp add: handler_defs addInboxEvent_def store_ops_steps split: option.split)

lemma run_effect_fields [simp]:
  "ctx_client (run_effect h x t) = ctx_client t" "ctx_channelName (run_effect h x t) = ctx_channelName t"
  "ctx_calls (run_effect h x t) = ctx_calls t" "ctx_waiting (run_effect h x t) = ctx_waiting t"
  by (cases x; simp split: option.split)+

lemma run_effect_store: "store_ops (ctx_pending t) (ctx_pending (run_effect h x t))"
  by (cases x) (simp_all add: handle_event_store split: option.split)

lemma fold_effect_fields [simp]:
  "ctx_client (fold (run_effect h) xs t) = ctx_client t" "ctx_channelName (fold (run_effect h) xs t) = ctx_channelName t"
  "ctx_calls (fold (run_effect h) xs t) = ctx_calls t" "ctx_waiting (fold (run_effect h) xs t) = ctx_waiting t"
  by (induction xs arbitrary: t) simp_all

lemma fold_effect_store: "store_ops (ctx_pending t) (ctx_pending (fold (run_effect h) xs t))"
proof (induction xs arbitrary: t)
  case (Cons x xs)
  from store_ops_trans [OF run_effect_store Cons] show ?case by simp
qed simp

lemma client_update_fields [simp]:
  "ctx_client (client_update h c t) = c" "ctx_channelName (client_update h c t) = ctx_channelName t"
  "ctx_calls (client_update h c t) = ctx_calls t" "ctx_waiting (client_update h c t) = ctx_waiting t"
  by (simp_all add: client_update_def)

lemma client_update_store: "store_ops (ctx_pending t) (ctx_pending (client_update h c t))"
  unfolding client_update_def using fold_effect_store [of "t\<lparr>ctx_client := c\<rparr>"] by simp

section \<open>The invariant\<close>

text \<open>What the rest of a call expects of the promise it waits for.\<close>

fun tool_kind :: "tool_cont \<Rightarrow> kind" where
  "tool_kind (AfterConnect ch prev) = connect_kind"
| "tool_kind AfterList = request_kind (plain_request ListRequest ListResponse QUERY_TIMEOUT_MS)"
| "tool_kind AfterStatus = request_kind (plain_request StatusRequest StatusResponse QUERY_TIMEOUT_MS)"
| "tool_kind AfterSend = (\<lambda>v. \<exists>to m. request_kind (message_request
     (message_event MessageSend (JStr to) [] m ''send'') SEND_TIMEOUT_MS) v)"
| "tool_kind AfterAsk = (\<lambda>v. \<exists>to m. request_kind (message_request
     (message_event MessageAsk (JStr to) [] m ''ask'') SEND_TIMEOUT_MS) v)"
| "tool_kind (AfterReply q) = (\<lambda>v. \<exists>to m. request_kind (message_request
     (message_event MessageReply to [(''replyTo'', JStr q)] m ''reply'') SEND_TIMEOUT_MS) v)"
| "tool_kind (AfterApprove j) = request_kind (decision_request JoinApprove j ''approved'' SEND_TIMEOUT_MS)"
| "tool_kind (AfterDeny j) = request_kind (decision_request JoinDeny j ''denied'' SEND_TIMEOUT_MS)"

definition waits_ok :: "kind list \<Rightarrow> tool_outcome list \<Rightarrow> (nat \<times> nat \<times> tool_cont) list \<Rightarrow> bool" where
  "waits_ok ks calls ws =
     ((\<forall>(p, n, k) \<in> set ws. n < length calls \<and> calls ! n = Running \<and> only ks p (tool_kind k)) \<and>
      distinct (map (\<lambda>(p, n, k). n) ws) \<and>
      (\<forall>n < length calls. calls ! n = Running \<longrightarrow> (\<exists>p k. (p, n, k) \<in> set ws)))"

definition tool_ok :: "tool_host \<Rightarrow> tool_context \<Rightarrow> bool" where
  "tool_ok h t =
     (reachable (relay_host h) (ctx_client t) \<and> pending_ok (ctx_pending t) \<and>
      (\<exists>ks. types ks (ctx_client t) \<and> waits_ok ks (ctx_calls t) (ctx_waiting t)))"

lemma waits_okD:
  "waits_ok ks cs ws \<Longrightarrow> (p, n, k) \<in> set ws \<Longrightarrow> n < length cs \<and> cs ! n = Running \<and> only ks p (tool_kind k)"
  unfolding waits_ok_def by fast

lemma waits_ok_append: "waits_ok ks cs ws \<Longrightarrow> waits_ok (ks @ ls) cs ws"
  by (auto simp: waits_ok_def)

lemma waits_ok_answer: "waits_ok ks cs ws \<Longrightarrow> x \<noteq> Running \<Longrightarrow> waits_ok ks (cs @ [x]) ws"
  by (fastforce simp: waits_ok_def nth_append less_Suc_eq)

lemma waits_ok_await:
  assumes "waits_ok ks cs ws" and "only ks p (tool_kind k)"
  shows "waits_ok ks (cs @ [Running]) (ws @ [(p, length cs, k)])"
proof -
  have "length cs \<notin> set (map (\<lambda>(p, n, k). n) ws)"
    using assms(1) by (auto simp: waits_ok_def)
  with assms show ?thesis
    by (fastforce simp: waits_ok_def nth_append less_Suc_eq)
qed

lemma remove_nth_split: "i < length ws \<Longrightarrow> \<exists>xs ys. ws = xs @ ws ! i # ys \<and> remove_nth i ws = xs @ ys"
  using id_take_nth_drop [of i ws] by (auto simp: remove_nth_def)

lemma waits_ok_continue:
  assumes ok: "waits_ok ks cs ws" and i: "i < length ws" "ws ! i = (p, n, k)" and x: "x \<noteq> Running"
  shows "waits_ok ks (cs[n := x]) (remove_nth i ws)"
proof -
  obtain xs ys where ws: "ws = xs @ (p, n, k) # ys" "remove_nth i ws = xs @ ys"
    using remove_nth_split [OF i(1)] i(2) by auto
  have n: "n < length cs" using ok ws by (auto simp: waits_ok_def)
  have "distinct (map (\<lambda>(p, n, k). n) (xs @ (p, n, k) # ys))" using ok ws(1) by (simp only: waits_ok_def)
  then have "n \<notin> (\<lambda>(p, n, k). n) ` set (xs @ ys)" by (simp add: image_Un)
  then have other: "m \<noteq> n" if "(q, m, l) \<in> set (xs @ ys)" for q m l
    using that by force
  have "\<forall>(q, m, l) \<in> set (xs @ ys). m < length (cs[n := x]) \<and> cs[n := x] ! m = Running \<and> only ks q (tool_kind l)"
  proof (intro ballI, clarify)
    fix q m l assume a: "(q, m, l) \<in> set (xs @ ys)"
    then have "(q, m, l) \<in> set ws" using ws(1) by auto
    from waits_okD [OF ok this] have "m < length cs \<and> cs ! m = Running \<and> only ks q (tool_kind l)" .
    with other [OF a] show "m < length (cs[n := x]) \<and> cs[n := x] ! m = Running \<and> only ks q (tool_kind l)" by simp
  qed
  moreover have "distinct (map (\<lambda>(p, n, k). n) (xs @ ys))" using ok ws by (simp add: waits_ok_def)
  moreover have "\<exists>q l. (q, m, l) \<in> set (xs @ ys)" if "m < length cs" "cs[n := x] ! m = Running" for m
  proof -
    from that x n have "m \<noteq> n" "cs ! m = Running" by (auto simp: nth_list_update split: if_splits)
    with ok that(1) obtain q l where "(q, m, l) \<in> set ws" by (auto simp: waits_ok_def)
    with \<open>m \<noteq> n\<close> ws(1) show ?thesis by auto
  qed
  ultimately show ?thesis by (simp add: waits_ok_def ws(2))
qed

section \<open>Every action keeps it\<close>

lemma tool_okI:
  "reachable (relay_host h) (ctx_client t) \<Longrightarrow> pending_ok (ctx_pending t) \<Longrightarrow> types ks (ctx_client t) \<Longrightarrow>
   waits_ok ks (ctx_calls t) (ctx_waiting t) \<Longrightarrow> tool_ok h t"
  unfolding tool_ok_def by blast

lemma tool_ok_answer: "tool_ok h t \<Longrightarrow> x \<noteq> Running \<Longrightarrow> tool_ok h (answer x t)"
  by (auto simp: tool_ok_def answer_def waits_ok_answer)

lemma tool_ok_pending: "tool_ok h t \<Longrightarrow> pending_ok p \<Longrightarrow> tool_ok h (t\<lparr>ctx_pending := p\<rparr>)"
  by (simp add: tool_ok_def)

lemma client_update_pending: "pending_ok (ctx_pending t) \<Longrightarrow> pending_ok (ctx_pending (client_update h c t))"
  using store_ops_ok [OF client_update_store] .

lemma reachable_call: "reachable h c \<Longrightarrow> reachable h (run_call h a c)"
  by (rule reachable.next_step [OF _ client_step.step [of _ "Call a"]]) simp_all

lemma tool_ok_client:
  assumes "tool_ok h t" and "act (relay_host h) a (ctx_client t) = Some c"
  shows "tool_ok h (client_update h c t)"
proof -
  from assms(1) obtain ks where ks: "types ks (ctx_client t)" "waits_ok ks (ctx_calls t) (ctx_waiting t)"
    by (auto simp: tool_ok_def)
  with assms show ?thesis
    by (intro tool_okI [of _ _ ks])
      (auto simp: tool_ok_def client_update_pending intro: types_act reachable.next_step client_step.step)
qed

text \<open>
  Calling an operation of the client and awaiting its promise: all it takes is the operation's interface, and
  that the rest of the call expects what the operation yields.
\<close>

context promised_operation
begin

lemma tool_ok_await:
  assumes t: "tool_ok h t" and k: "\<And>v. yields v \<Longrightarrow> tool_kind k v"
  shows "tool_ok h (await_client h operation k t)"
proof -
  obtain p c where f: "operation (relay_host h) (ctx_client t) = (p, c)" by fastforce
  from t obtain ks where ks: "types ks (ctx_client t)" "waits_ok ks (ctx_calls t) (ctx_waiting t)"
    by (auto simp: tool_ok_def)
  from promises_kind [OF ks(1) f] obtain ls where ls: "types (ks @ ls) c" "only (ks @ ls) p yields" by blast
  have "only (ks @ ls) p (tool_kind k)" by (rule only_mono [OF ls(2) k])
  then have "waits_ok (ks @ ls) (ctx_calls t @ [Running]) (ctx_waiting t @ [(p, length (ctx_calls t), k)])"
    by (rule waits_ok_await [OF waits_ok_append [OF ks(2)]])
  moreover have "reachable (relay_host h) c" using t f reachable_after by (auto simp: tool_ok_def)
  ultimately show ?thesis
    using t ls(1) unfolding await_client_def answer_def Let_def f prod.case
    by (intro tool_okI [of _ _ "ks @ ls"]) (auto simp: tool_ok_def client_update_pending)
qed

end

lemmas tool_ok_awaits = connect_operation.tool_ok_await reply_operation.tool_ok_await send_operation.tool_ok_await
  ask_operation.tool_ok_await list_operation.tool_ok_await status_operation.tool_ok_await
  approve_operation.tool_ok_await deny_operation.tool_ok_await

lemma tool_ok_run_input: "tool_ok h t \<Longrightarrow> tool_ok h (run_input h i t)"
proof (cases i)
  case (InDisconnect code reason)
  assume t: "tool_ok h t"
  obtain e c where d: "disconnect (relay_host h) code reason (ctx_client t) = (e, c)" by fastforce
  have "act (relay_host h) (Call (Disconnect code reason)) (ctx_client t) = Some c" by (simp add: d)
  from tool_ok_client [OF t this] have "tool_ok h (client_update h c t)" .
  with InDisconnect d show ?thesis
    by (auto simp: Let_def intro!: tool_ok_answer tool_ok_pending split: option.split)
qed (auto simp: approveJoin_def denyJoin_def intro!: tool_ok_awaits intro: tool_ok_answer
  split: option.split sum.split, blast+)

lemma tool_ok_execute: "tool_ok h t \<Longrightarrow> tool_ok h (execute h v t)"
  by (simp add: execute_def tool_ok_run_input tool_ok_answer split: sum.split)

text \<open>What the rest of a call does.\<close>

lemma after_response_fields:
  assumes "after_response k r t = Some (x, u)"
  shows "ctx_client u = ctx_client t \<and> ctx_calls u = ctx_calls t \<and> ctx_waiting u = ctx_waiting t \<and>
    ctx_notes u = ctx_notes t \<and> store_ops (ctx_pending t) (ctx_pending u)"
  using assms by (cases k) (auto simp: Let_def store_ops_steps)

lemma after_connect_fields:
  assumes "after_connect ch prev r t = (x, u)"
  shows "ctx_client u = ctx_client t \<and> ctx_calls u = ctx_calls t \<and> ctx_waiting u = ctx_waiting t \<and>
    ctx_notes u = ctx_notes t \<and> store_ops (ctx_pending t) (ctx_pending u)"
  using assms by (auto simp: after_connect_def Let_def connected_def store_ops_steps)

lemma after_await_cases:
  obtains (reject) e where "res = Rejected e" "after_await k res t = (Threw e, t)"
  | (connect) ch prev r x u where "k = AfterConnect ch prev" "res = Fulfilled (VConnect r)" "after_connect ch prev r t = (x, u)"
      "after_await k res t = (Returned x, u)"
  | (response) r x u where "res = Fulfilled (VResponse r)" "after_response k r t = Some (x, u)" "after_await k res t = (Returned x, u)"
  | (other) "after_await k res t = (Threw type_error, t)"
proof (cases res)
  case (Fulfilled v)
  show thesis
  proof (cases v)
    case (VConnect r)
    show thesis
    proof (cases "\<exists>ch prev. k = AfterConnect ch prev")
      case True
      then obtain ch prev where k: "k = AfterConnect ch prev" by blast
      show thesis
        by (cases "after_connect ch prev r t", rule connect [OF k _ _]) (simp_all add: k Fulfilled VConnect)
    next
      case False
      with Fulfilled VConnect other show thesis by (cases k) simp_all
    qed
  next
    case (VResponse r)
    have "after_await k res t = (case after_response k r t of Some (x, t1) \<Rightarrow> (Returned x, t1) | None \<Rightarrow> (Threw type_error, t))"
      unfolding Fulfilled VResponse by (cases k) simp_all
    with Fulfilled VResponse response other show thesis by (cases "after_response k r t") auto
  qed (use Fulfilled other in \<open>cases k; simp\<close>)+
qed (use reject other in \<open>cases k; simp\<close>)+

lemma after_await_fields:
  assumes "after_await k res t = (x, u)"
  shows "x \<noteq> Running" "ctx_client u = ctx_client t" "ctx_calls u = ctx_calls t" "ctx_waiting u = ctx_waiting t"
    "ctx_notes u = ctx_notes t" "store_ops (ctx_pending t) (ctx_pending u)"
proof -
  have "x \<noteq> Running \<and> ctx_client u = ctx_client t \<and> ctx_calls u = ctx_calls t \<and> ctx_waiting u = ctx_waiting t \<and>
      ctx_notes u = ctx_notes t \<and> store_ops (ctx_pending t) (ctx_pending u)"
  proof (cases rule: after_await_cases [of res k t])
    case (connect ch prev r y v)
    with assms after_connect_fields [OF connect(3)] show ?thesis by auto
  next
    case (response r y v)
    with assms after_response_fields [OF response(2)] show ?thesis by auto
  qed (use assms in auto)
  then show "x \<noteq> Running" "ctx_client u = ctx_client t" "ctx_calls u = ctx_calls t" "ctx_waiting u = ctx_waiting t"
    "ctx_notes u = ctx_notes t" "store_ops (ctx_pending t) (ctx_pending u)" by blast+
qed

lemma tool_ok_continue:
  assumes t: "tool_ok h t" and i: "i < length (ctx_waiting t)"
  shows "tool_ok h (continue (ctx_waiting t ! i) res (t\<lparr>ctx_waiting := remove_nth i (ctx_waiting t)\<rparr>))"
proof -
  obtain p n k where w: "ctx_waiting t ! i = (p, n, k)" by (cases "ctx_waiting t ! i") auto
  obtain x u where u: "after_await k res (t\<lparr>ctx_waiting := remove_nth i (ctx_waiting t)\<rparr>) = (x, u)" by fastforce
  note f = after_await_fields [OF u]
  from t obtain ks where ks: "types ks (ctx_client t)" "waits_ok ks (ctx_calls t) (ctx_waiting t)"
    by (auto simp: tool_ok_def)
  have "waits_ok ks ((ctx_calls t)[n := x]) (remove_nth i (ctx_waiting t))"
    by (rule waits_ok_continue [OF ks(2) i w f(1)])
  with f t ks(1) store_ops_ok [OF f(6)] show ?thesis
    by (intro tool_okI [of _ _ ks]) (auto simp: continue_def w u tool_ok_def)
qed

lemma reachable_fold_calls:
  "reachable h c \<Longrightarrow> reachable h (fold (\<lambda>(ty, k). on ty (hid_of k)) rs c)"
  "reachable h c \<Longrightarrow> reachable h (fold (\<lambda>(ty, k). off ty (hid_of k)) rs c)"
proof (induction rs arbitrary: c)
  case (Cons r rs)
  obtain ty k where r: "r = (ty, k)" by fastforce
  case 1
  have "reachable h (on ty (hid_of k) c)" using reachable_call [OF 1, of "On ty (hid_of k)"] by simp
  then show ?case using Cons by (simp add: r)
next
  case (Cons r rs)
  obtain ty k where r: "r = (ty, k)" by fastforce
  case 2
  have "reachable h (off ty (hid_of k) c)" using reachable_call [OF 2, of "Off ty (hid_of k)"] by simp
  then show ?case using Cons by (simp add: r)
qed simp_all

lemma types_off: "types ks c \<Longrightarrow> types ks (fold (\<lambda>(ty, k). off ty (hid_of k)) rs c)"
proof (induction rs arbitrary: c)
  case (Cons r rs)
  obtain ty k where r: "r = (ty, k)" by fastforce
  have "types ks (off ty (hid_of k) c)" using types_run_call [OF Cons.prems, of _ "Off ty (hid_of k)"] by simp
  then show ?case using Cons.IH by (simp add: r)
qed simp

lemma tool_ok_act: "tool_ok h t \<Longrightarrow> tool_act h a t = Some u \<Longrightarrow> tool_ok h u"
proof (cases a)
  case (Continue i)
  assume t: "tool_ok h t" and a: "tool_act h a t = Some u"
  with Continue show ?thesis
    by (auto intro!: tool_ok_continue [OF t] split: if_splits)
next
  case (CatchRejection i)
  assume t: "tool_ok h t" and a: "tool_act h a t = Some u"
  then obtain err m e where "u = snd (reportNotifyError h err m e (t\<lparr>ctx_rejections := remove_nth i (ctx_rejections t)\<rparr>))"
    unfolding CatchRejection by (elim catch_rejection)
  with t show ?thesis by (simp add: tool_ok_def)
next
  case Dispose
  assume t: "tool_ok h t" and a: "tool_act h a t = Some u"
  then obtain ks where "types ks (ctx_client t)" "waits_ok ks (ctx_calls t) (ctx_waiting t)"
    by (auto simp: tool_ok_def)
  with Dispose t a show ?thesis
    by (intro tool_okI [of _ _ ks]) (auto simp: tool_ok_def disposeHandlers_def reachable_fold_calls types_off)
qed (auto simp: tool_ok_execute intro: tool_ok_client split: option.splits)

lemma tool_ok_created: "reachable (relay_host h) c \<Longrightarrow> pending_ok p \<Longrightarrow> tool_ok h (tool_on c p)"
  by (rule tool_okI [of _ _ "[]"])
    (auto simp: tool_on_def installRelayEventHandlers_def reachable_fold_calls waits_ok_def
      intro!: client_types.reachable_inv [of "relay_host h"])

interpretation tool_runs: invariant_system "tool_act h" "tool_ok h" for h
  by unfold_locales (rule tool_ok_act)

lemma tool_reachable_ok: "tool_reachable h t \<Longrightarrow> tool_ok h t"
  by (induction rule: tool_reachable.induct) (auto intro: tool_ok_created tool_ok_act)

end
