(* ===== verification/Tool_Demo.thy ===== *)
theory Tool_Demo
  imports Tool_Invariant Client_Outcomes
begin

text \<open>
  A concrete tool that connects, on which the properties of the tool are applied, and the general fact
  that steps of the client that dispatch nothing leave the rest of the tool alone.
\<close>

section \<open>A host and a connect\<close>

definition demo_tool_host :: tool_host where
  "demo_tool_host = \<lparr>relay = demo_host, onNotify = Some (\<lambda>m e. Returns), onNotifyError = None\<rparr>"

text \<open>The tool on a new client, and the input of a connect.\<close>

definition demo_tool :: tool_context where
  "demo_tool = tool_on (new_client demo_config None 0) createPendingState"

definition tool_handlers :: "(string, nat list) jsmap" where
  "tool_handlers = handlers (installRelayEventHandlers (new_client demo_config None 0))"

definition connect_input :: jsval where
  "connect_input = JObj [(''action'', JStr ''connect''), (''channel'', JStr ''c''), (''pin'', JStr ''1'')]"

lemma handlers_fold_on: "\<exists>hs. fold (\<lambda>(ty, k). on ty (hid_of k)) rs c = c\<lparr>handlers := hs\<rparr>"
proof (induction rs arbitrary: c)
  case Nil
  show ?case by (rule exI [of _ "handlers c"]) simp
next
  case (Cons r rs)
  obtain ty k where r: "r = (ty, k)" by fastforce
  obtain hs where "fold (\<lambda>(ty, k). on ty (hid_of k)) rs (on ty (hid_of k) c) = (on ty (hid_of k) c)\<lparr>handlers := hs\<rparr>"
    using Cons by blast
  moreover obtain hs' where "on ty (hid_of k) c = c\<lparr>handlers := hs'\<rparr>" by (simp add: on_def Let_def)
  ultimately have "fold (\<lambda>(ty, k). on ty (hid_of k)) (r # rs) c = c\<lparr>handlers := hs\<rparr>" by (simp add: r)
  then show ?case by blast
qed

lemma demo_installed:
  "installRelayEventHandlers (new_client demo_config None 0) = (new_client demo_config None 0)\<lparr>handlers := tool_handlers\<rparr>"
  using handlers_fold_on [of registrations "new_client demo_config None 0"]
  by (auto simp: tool_handlers_def installRelayEventHandlers_def)

lemma demo_tool_reachable: "tool_reachable demo_tool_host demo_tool"
  unfolding demo_tool_def by (rule tool_reachable.created [OF reachable.start]) simp

lemma connect_input_parsed:
  "parseToolInput connect_input = Inr (InConnect (Some ''c'') None ''1'' None None None)"
  by (simp add: parseToolInput_spec connect_input_def is_record_def is_object_def is_array_def given_def
      blank_plain plain_char_def)

definition connect_tool_script :: "tool_action list" where
  "connect_tool_script = Execute connect_input # map ClientAct (tl connect_script)"

definition demo_tool_opening :: tool_context where
  "demo_tool_opening = demo_tool\<lparr>ctx_client := demo_open\<lparr>handlers := tool_handlers\<rparr>, ctx_calls := [Running],
     ctx_waiting := [(0, 0, AfterConnect ''c'' None)]\<rparr>"

text \<open>Steps of the client that dispatch nothing leave the tool as it is.\<close>

lemma act_log: "act h a c = Some d \<Longrightarrow> \<exists>es. log d = log c @ es"
proof -
  assume a: "act h a c = Some d"
  have "(JNull, JNull, JNull, JNull) \<noteq> probe_key" by (simp add: probe_key_def frame_key_def)
  from this a show ?thesis by (cases rule: act_emits) (auto simp: emits_def)
qed

fun quiet :: "effect \<Rightarrow> bool" where
  "quiet (ODispatch hid event) = False"
| "quiet _ = True"

lemma quiet_update:
  assumes "list_all quiet (log c)"
  shows "client_update h c t = t\<lparr>ctx_client := c\<rparr>"
proof -
  have "list_all quiet xs \<Longrightarrow> fold (run_effect h) xs u = u" for xs u
    by (induction xs) (auto elim: quiet.elims)
  moreover have "list_all quiet (drop n (log c))" for n
    using assms by (auto simp: list_all_iff dest: in_set_dropD)
  ultimately show ?thesis by (simp add: client_update_def)
qed

lemma run_log: "run_actions (act h) as c = Some d \<Longrightarrow> \<exists>es. log d = log c @ es"
proof (induction as arbitrary: c)
  case (Cons a as)
  then obtain e where e: "act h a c = Some e" "run_actions (act h) as e = Some d"
    by (auto split: option.splits)
  with Cons.IH act_log [OF e(1)] show ?case by fastforce
qed simp

lemma quiet_run:
  "run_actions (act (relay_host h)) as (ctx_client t) = Some d \<Longrightarrow> list_all quiet (log d) \<Longrightarrow>
   run_actions (tool_act h) (map ClientAct as) t = Some (t\<lparr>ctx_client := d\<rparr>)"
proof (induction as arbitrary: t)
  case (Cons a as)
  then obtain e where e: "act (relay_host h) a (ctx_client t) = Some e" "run_actions (act (relay_host h)) as e = Some d"
    by (auto split: option.splits)
  have "list_all quiet (log e)" using Cons.prems(2) run_log [OF e(2)] by auto
  then have "client_update h e t = t\<lparr>ctx_client := e\<rparr>" by (rule quiet_update)
  with Cons.IH [of "t\<lparr>ctx_client := e\<rparr>"] e Cons.prems(2) show ?case by simp
qed simp

lemma demo_relay_host: "idGenerator (relay_host demo_tool_host) = nat_str" "socketURLWithToken (relay_host demo_tool_host) = (\<lambda>u t. Inr u)"
  "ws_constructor (relay_host demo_tool_host) = (\<lambda>u. None)" "ws_initial (relay_host demo_tool_host) = (\<lambda>u. 0)"
  by (simp_all add: relay_host_def demo_tool_host_def demo_host_def)

lemma demo_connected_run:
  "run_actions (act (relay_host demo_tool_host)) connect_script ((new_client demo_config None 0)\<lparr>handlers := hs\<rparr>) =
     Some (demo_open\<lparr>handlers := hs\<rparr>)"
  by (simp add: connect_script_def client_eval demo_eval demo_relay_host)

lemma demo_tool_opened: "run_actions (tool_act demo_tool_host) connect_tool_script demo_tool = Some demo_tool_opening"
proof -
  let ?c = "(new_client demo_config None 0)\<lparr>handlers := tool_handlers\<rparr>"
  obtain p c1 where c1: "connect (relay_host demo_tool_host) ''c'' ''1'' no_options ?c = (p, c1)" by fastforce
  have script: "connect_script = Call (Connect ''c'' ''1'' no_options) # tl connect_script"
    by (simp add: connect_script_def)
  have p: "p = 0"
    using c1 by (auto simp: client_eval)
  have "run_actions (act (relay_host demo_tool_host)) (tl connect_script) c1 = Some (demo_open\<lparr>handlers := tool_handlers\<rparr>)"
    using demo_connected_run [of tool_handlers] by (subst (asm) script) (simp add: c1)
  moreover have q: "list_all quiet (log (demo_open\<lparr>handlers := tool_handlers\<rparr>))"
    by (simp add: demo_open_def)
  moreover have "list_all quiet (log c1)"
    using run_log [OF calculation(1)] q by auto
  then have "execute demo_tool_host connect_input demo_tool =
      demo_tool\<lparr>ctx_client := c1, ctx_calls := [Running], ctx_waiting := [(0, 0, AfterConnect ''c'' None)]\<rparr>"
    using c1 by (simp add: execute_def connect_input_parsed nonEmpty_field_def trim_plain plain_char_def await_client_def
        demo_tool_def tool_on_def demo_installed answer_def quiet_update no_options_def p)
  ultimately show ?thesis
    using quiet_run [of demo_tool_host "tl connect_script" "demo_tool\<lparr>ctx_client := c1, ctx_calls := [Running],
      ctx_waiting := [(0, 0, AfterConnect ''c'' None)]\<rparr>"]
    by (simp add: connect_tool_script_def demo_tool_opening_def)
qed

lemma demo_tool_opening_reachable: "tool_reachable demo_tool_host demo_tool_opening"
proof -
  have "run_actions (tool_act h) as t = Some u \<Longrightarrow> tool_reachable h t \<Longrightarrow> tool_reachable h u" for h as t u
  proof (induction as arbitrary: t)
    case (Cons a as)
    then obtain v where "tool_act h a t = Some v" "run_actions (tool_act h) as v = Some u"
      by (auto split: option.splits)
    with Cons show ?case by (blast intro: tool_reachable.acted)
  qed simp
  then show ?thesis using demo_tool_opened demo_tool_reachable by blast
qed

end
