(* ===== verification/Tool_Script.thy ===== *)
theory Tool_Script
  imports Tool_Invariant
begin

text \<open>
  The contract of the tool with the two objects it drives, as a script: which calls each of its actions makes
  on the client, and which operations it runs on the store. A run of the tool is a run of the client under
  the calls, and the store is what the operations make of it.
\<close>

section \<open>Calls on the client\<close>

text \<open>The operation an input asks for: its texts are taken trimmed where the tool chooses between two fields.\<close>

fun first_given :: "string option list \<Rightarrow> string option" where
  "first_given [] = None"
| "first_given (None # xs) = first_given xs"
| "first_given (Some s # xs) = (if blank s then first_given xs else Some (trim s))"

fun operation_call :: "tool_input \<Rightarrow> call option" where
  "operation_call (InConnect channel channelName pin dn di cv) =
     map_option (\<lambda>c. Connect c pin \<lparr>opt_deviceName = dn, opt_deviceId = di, opt_clientVersion = cv\<rparr>)
       (first_given [channel, channelName])"
| "operation_call InList = Some (ListMembers 5000)"
| "operation_call (InSend to m) = Some (Send to m 10000)"
| "operation_call (InAsk to m) = Some (Ask to m 10000)"
| "operation_call (InReply i r m) = map_option (\<lambda>k. Reply k m 10000) (first_given [r, i])"
| "operation_call InPending = None"
| "operation_call InStatus = Some (Status 5000)"
| "operation_call (InDisconnect code reason) = Some (Disconnect code reason)"
| "operation_call (InApprove i j) = map_option (\<lambda>k. Approve k 10000) (first_given [j, i])"
| "operation_call (InDeny i j) = map_option (\<lambda>k. Deny k 10000) (first_given [j, i])"

fun client_script :: "tool_action \<Rightarrow> action list" where
  "client_script (Execute v) =
     (case parseToolInput v of
        Inl e \<Rightarrow> []
      | Inr i \<Rightarrow> (case operation_call i of None \<Rightarrow> [] | Some a \<Rightarrow> [Call a]))"
| "client_script (ClientAct a) = [a]"
| "client_script (Continue i) = []"
| "client_script (CatchRejection i) = []"
| "client_script Dispose = map (\<lambda>(ty, k). Call (Off ty (hid_of k))) registrations"

lemma nonEmpty_given: "nonEmpty_field x = first_given [x]"
  by (cases x) (simp_all add: nonEmpty_field_def blank_def)

lemma given_two: "first_given [x, y] = nullish (first_given [x]) (first_given [y])"
  by (cases x; cases y) (simp_all add: nullish_def)

lemma await_client_client: "ctx_client (await_client h f k t) = snd (f (relay_host h) (ctx_client t))"
  by (simp add: await_client_def answer_def Let_def split: prod.split)

lemma run_input_client:
  "ctx_client (run_input h i t) =
    (case operation_call i of None \<Rightarrow> ctx_client t | Some a \<Rightarrow> run_call (relay_host h) a (ctx_client t))"
  by (cases i)
    (simp_all add: given_two flip: nonEmpty_given, simp_all add: await_client_client answer_def SEND_TIMEOUT_MS_def
      QUERY_TIMEOUT_MS_def requireJoinRequestId_def fail_def approveJoin_def denyJoin_def Let_def
      split: option.split prod.split)

lemma fold_off_run:
  "run_actions (act h) (map (\<lambda>(ty, k). Call (Off ty (hid_of k))) rs) c = Some (fold (\<lambda>(ty, k). off ty (hid_of k)) rs c)"
  by (induction rs arbitrary: c) (auto split: prod.split)

lemma client_script_step:
  "tool_act h a t = Some u \<Longrightarrow> run_actions (act (relay_host h)) (client_script a) (ctx_client t) = Some (ctx_client u)"
proof (cases a)
  case (Execute v)
  assume "tool_act h a t = Some u"
  with Execute show ?thesis
    by (auto simp: execute_def answer_def run_input_client split: sum.split option.split)
next
  case (Continue i)
  assume "tool_act h a t = Some u"
  with Continue show ?thesis
    by (auto simp: continue_def split: if_splits prod.splits dest: after_await_fields(2))
next
  case (CatchRejection i)
  assume "tool_act h a t = Some u"
  with CatchRejection show ?thesis by (auto elim: catch_rejection simp del: tool_act.simps)
next
  case Dispose
  assume "tool_act h a t = Some u"
  with Dispose show ?thesis by (auto simp: fold_off_run disposeHandlers_def)
qed (auto split: option.splits)

section \<open>Operations on the store\<close>

definition inbox_item :: "jsval \<Rightarrow> string option \<Rightarrow> string \<Rightarrow> pending_inbox_item" where
  "inbox_item event message receivedAt =
     \<lparr>item_id = js_nullish (get event ''id'') (JStr (event_type event @ '':'' @ receivedAt)),
      item_type = event_type event, item_from = get event ''from'', item_to = get event ''to'',
      item_channelId = get event ''channelId'', item_message = message, item_receivedAt = receivedAt,
      item_event = event\<rparr>"

lemma addInboxEvent_eq: "addInboxEvent e m r t = t\<lparr>ctx_pending := addInbox (inbox_item e m r) (ctx_pending t)\<rparr>"
  by (simp add: addInboxEvent_def inbox_item_def)

definition ask_item :: "jsval \<Rightarrow> string \<Rightarrow> string \<Rightarrow> pending_ask" where
  "ask_item event text receivedAt =
     \<lparr>ask_id = get event ''id'', ask_from = get event ''from'', ask_to = get event ''to'',
      ask_channelId = get event ''channelId'', ask_message = text, ask_receivedAt = receivedAt\<rparr>"

text \<open>What a message is taken for: an ask needs an id and a text, any other message a text.\<close>

definition ask_of :: "jsval \<Rightarrow> string option" where
  "ask_of e = (if (get e ''type'' = JStr ''message.ask'' \<or> get (get e ''payload'') ''kind'' = JStr ''ask'') \<and> get e ''id'' \<noteq> JUndef
     then as_string (get (get e ''payload'') ''text'') else None)"

definition statement_of :: "jsval \<Rightarrow> string option" where
  "statement_of e = (if get (get e ''payload'') ''kind'' = JStr ''ask'' then None else as_string (get (get e ''payload'') ''text''))"

lemma ask_of_text: "asks_text e = ask_of e"
  by (auto simp: asks_text_def ask_of_def Let_def)

lemma statement_of_text: "says_text e = statement_of e"
  by (simp add: says_text_def statement_of_def Let_def)

text \<open>A join request: its id, the device, its name and the channel, all present and not blank.\<close>

definition join_fields :: "jsval \<Rightarrow> jsval list" where
  "join_fields e = [get (get e ''payload'') ''joinRequestId'', get (get e ''payload'') ''deviceId'',
     get (get e ''payload'') ''deviceName'', get e ''channelId'']"

definition join_request :: "jsval \<Rightarrow> string option \<Rightarrow> string \<Rightarrow> pending_join_request option" where
  "join_request e channelName receivedAt =
     (case map as_string (join_fields e) of
        [Some q, Some d, Some dn, Some ch] \<Rightarrow>
          (if blank q \<or> blank d \<or> blank dn \<or> blank ch then None
           else Some \<lparr>jr_id = q, jr_joinRequestId = q, jr_deviceId = d, jr_deviceName = dn, jr_channelId = Some ch,
             jr_channelName = Some (nullish_or channelName ch), jr_receivedAt = receivedAt\<rparr>)
      | _ \<Rightarrow> None)"

fun filed :: "string option \<Rightarrow> string \<Rightarrow> tool_handler \<Rightarrow> jsval \<Rightarrow> pending_op list" where
  "filed channelName at AskHandler e =
     (case ask_of e of None \<Rightarrow> [] | Some text \<Rightarrow> [AddAsk (ask_item e text at), AddInbox (inbox_item e (Some text) at)])"
| "filed channelName at SendHandler e =
     (case statement_of e of None \<Rightarrow> [] | Some text \<Rightarrow> [AddInbox (inbox_item e (Some text) at)])"
| "filed channelName at ReplyHandler e =
     (case as_string (get (get e ''payload'') ''text'') of None \<Rightarrow> [] | Some text \<Rightarrow> [AddInbox (inbox_item e (Some text) at)])"
| "filed channelName at JoinHandler e =
     (case join_request e channelName at of None \<Rightarrow> [] | Some r \<Rightarrow> [AddJoinRequest r])"
| "filed channelName at k e = [AddInbox (inbox_item e None at)]"

fun filed_effect :: "string option \<Rightarrow> string \<Rightarrow> effect \<Rightarrow> pending_op list" where
  "filed_effect channelName at (ODispatch hid e) =
     (case handler_of hid of None \<Rightarrow> [] | Some k \<Rightarrow> filed channelName at k e)"
| "filed_effect channelName at x = []"

lemma validNonEmptyString_eq: "validNonEmptyString v = (case as_string v of Some s \<Rightarrow> if blank s then None else Some s | None \<Rightarrow> None)"
  by (cases v) (simp_all add: validNonEmptyString_def non_blank_string_def)

lemma notify_sender_pending [simp]: "ctx_pending (snd (notify_sender h a b e t)) = ctx_pending t"
  by (rule notify_sender_fields)

lemma joinHandler_eq:
  "joinHandler h e t =
    (case join_request e (ctx_channelName t) (time_text t) of
       None \<Rightarrow> (None, t)
     | Some r \<Rightarrow> notify h (join_message (jr_deviceName r) (the (jr_channelName r)) (jr_joinRequestId r)) e
         (t\<lparr>ctx_pending := addJoinRequest r (ctx_pending t)\<rparr>))"
  by (simp add: joinHandler_def join_request_def join_fields_def validNonEmptyString_eq Let_def split: option.split)

lemma handle_event_filed:
  "ctx_pending (snd (handle_event h k e t)) = fold pending_step (filed (ctx_channelName t) (time_text t) k e) (ctx_pending t)"
  by (cases k)
    (simp_all add: askHandler_def sendHandler_def replyHandler_def joinApprovedHandler_def joinDeniedHandler_def
      inboxHandler_def joinHandler_eq ask_of_text statement_of_text addInboxEvent_eq ask_item_def Let_def split: option.split)

lemma time_text_same: "ctx_client u = ctx_client t \<Longrightarrow> time_text u = time_text t"
  by (simp add: time_text_def)

lemma fold_effects_filed:
  "ctx_pending (fold (run_effect h) es t) =
    fold pending_step (concat (map (filed_effect (ctx_channelName t) (time_text t)) es)) (ctx_pending t)"
proof (induction es arbitrary: t)
  case (Cons x es)
  have "ctx_pending (run_effect h x t) = fold pending_step (filed_effect (ctx_channelName t) (time_text t) x) (ctx_pending t)"
    by (cases x) (simp_all add: handle_event_filed split: option.split)
  with Cons [of "run_effect h x t"] show ?case by (simp add: time_text_same [of "run_effect h x t" t])
qed simp

text \<open>The operations of an action: what the events it let the client dispatch leave, then what ends a call.\<close>

fun ended :: "tool_cont \<Rightarrow> pending_op list" where
  "ended (AfterConnect channel previous) = (if previous \<in> {None, Some channel} then [] else [Clear])"
| "ended (AfterReply q) = [DeleteAsk (JStr q)]"
| "ended (AfterApprove j) = [DeleteJoinRequest j]"
| "ended (AfterDeny j) = [DeleteJoinRequest j]"
| "ended k = []"

fun own_script :: "tool_host \<Rightarrow> tool_action \<Rightarrow> tool_context \<Rightarrow> pending_op list" where
  "own_script h (Execute v) t =
     (case parseToolInput v of
        Inr (InDisconnect code reason) \<Rightarrow>
          (if fst (disconnect (relay_host h) code reason (ctx_client t)) = None then [Clear] else [])
      | _ \<Rightarrow> [])"
| "own_script h (Continue i) t =
     (case ctx_waiting t ! i of (p, n, k) \<Rightarrow>
        (case promise_of (ctx_client t) p of Fulfilled v \<Rightarrow> ended k | _ \<Rightarrow> []))"
| "own_script h a t = []"

definition store_script :: "tool_host \<Rightarrow> tool_action \<Rightarrow> tool_context \<Rightarrow> tool_context \<Rightarrow> pending_op list" where
  "store_script h a t u =
     concat (map (filed_effect (ctx_channelName t) (time_text u))
       (drop (length (log (ctx_client t))) (log (ctx_client u)))) @ own_script h a t"

text \<open>The operations of a run, in order.\<close>

fun run_script :: "tool_host \<Rightarrow> tool_action list \<Rightarrow> tool_context \<Rightarrow> pending_op list" where
  "run_script h [] t = []"
| "run_script h (a # as) t =
     (case tool_act h a t of None \<Rightarrow> [] | Some u \<Rightarrow> store_script h a t u @ run_script h as u)"

lemma client_update_filed:
  "ctx_pending (client_update h c t) = fold pending_step (concat (map (filed_effect (ctx_channelName t) (iso_string (now c)))
     (drop (length (log (ctx_client t))) (log c)))) (ctx_pending t)"
  unfolding client_update_def by (subst fold_effects_filed) (simp add: time_text_def)

lemma await_client_filed:
  "ctx_pending (await_client h f k t) = fold pending_step (concat (map (filed_effect (ctx_channelName t) (time_text (await_client h f k t)))
     (drop (length (log (ctx_client t))) (log (ctx_client (await_client h f k t)))))) (ctx_pending t)"
  by (simp add: await_client_def answer_def client_update_filed time_text_def Let_def split: prod.split)

lemma run_input_filed:
  "ctx_pending (run_input h i t) = fold pending_step
     (concat (map (filed_effect (ctx_channelName t) (time_text (run_input h i t)))
       (drop (length (log (ctx_client t))) (log (ctx_client (run_input h i t))))) @
      (case i of InDisconnect code reason \<Rightarrow>
         (if fst (disconnect (relay_host h) code reason (ctx_client t)) = None then [Clear] else []) | _ \<Rightarrow> [])) (ctx_pending t)"
proof (cases i)
  case (InDisconnect code reason)
  then show ?thesis
    by (simp add: answer_def client_update_filed time_text_def Let_def split: prod.split option.split)
qed (simp_all add: answer_def flip: await_client_filed split: option.split sum.split)

lemma after_await_ended:
  assumes "tool_kind k v"
  shows "ctx_pending (snd (after_await k (Fulfilled v) t)) = fold pending_step (ended k) (ctx_pending t)"
  using assms
  by (cases k) (auto simp: connect_kind_def request_kind_def after_connect_def connected_def Let_def
      split: prod.split if_splits)

lemma store_script_step:
  assumes ok: "tool_ok h t" and a: "tool_act h a t = Some u"
  shows "ctx_pending u = fold pending_step (store_script h a t u) (ctx_pending t)"
proof (cases a)
  case (Execute v)
  show ?thesis
  proof (cases "parseToolInput v")
    case (Inl e)
    with Execute a show ?thesis by (auto simp: execute_def store_script_def answer_def)
  next
    case (Inr i)
    then have u: "u = run_input h i t" using Execute a by (simp add: execute_def)
    have "own_script h a t = (case i of InDisconnect code reason \<Rightarrow>
        (if fst (disconnect (relay_host h) code reason (ctx_client t)) = None then [Clear] else []) | _ \<Rightarrow> [])"
      by (cases i) (simp_all add: Execute Inr)
    then show ?thesis using run_input_filed [of h i t] unfolding store_script_def u by simp
  qed
next
  case (ClientAct b)
  with a show ?thesis
    by (auto simp: store_script_def client_update_filed time_text_def split: option.splits)
next
  case (Continue i)
  obtain p n k where w: "ctx_waiting t ! i = (p, n, k)" by (cases "ctx_waiting t ! i")
  from a Continue w have i: "i < length (ctx_waiting t)" "promise_of (ctx_client t) p \<noteq> Pending"
      and u: "u = continue (p, n, k) (promise_of (ctx_client t) p) (t\<lparr>ctx_waiting := remove_nth i (ctx_waiting t)\<rparr>)"
    by (auto split: if_splits)
  let ?r = "after_await k (promise_of (ctx_client t) p) (t\<lparr>ctx_waiting := remove_nth i (ctx_waiting t)\<rparr>)"
  have c: "ctx_client u = ctx_client t" and q: "ctx_pending u = ctx_pending (snd ?r)"
    unfolding u by (auto simp: continue_def split: prod.split dest: after_await_fields(2))
  from ok obtain ks where ks: "types ks (ctx_client t)" "waits_ok ks (ctx_calls t) (ctx_waiting t)"
    by (auto simp: tool_ok_def)
  have "only ks p (tool_kind k)" using waits_okD [OF ks(2)] w i(1) by (metis nth_mem)
  then have kind: "promise_of (ctx_client t) p = Fulfilled v \<Longrightarrow> tool_kind k v" for v
    using types_value [OF ks(1)] by blast
  show ?thesis
    using Continue c q i(2) w kind
    by (cases "promise_of (ctx_client t) p") (simp_all add: store_script_def after_await_ended)
next
  case (CatchRejection i)
  with a show ?thesis by (auto elim!: catch_rejection simp: store_script_def simp del: tool_act.simps)
next
  case Dispose
  have "log (fold (\<lambda>(ty, k). off ty (hid_of k)) rs c) = log c" for rs :: "(string \<times> tool_handler) list" and c
    by (induction rs arbitrary: c) (auto simp: off_def Let_def split: option.split prod.split)
  with Dispose a show ?thesis by (auto simp: store_script_def disposeHandlers_def)
qed

lemma scripts_run:
  assumes "tool_ok h t" and "run_actions (tool_act h) as t = Some u"
  shows "run_actions (act (relay_host h)) (concat (map client_script as)) (ctx_client t) = Some (ctx_client u)"
    and "ctx_pending u = fold pending_step (run_script h as t) (ctx_pending t)"
  using assms
proof (induction as arbitrary: t)
  case (Cons a as)
  {
    case 1
    then obtain v where v: "tool_act h a t = Some v" "run_actions (tool_act h) as v = Some u"
      by (auto split: option.splits)
    from Cons.IH(1) [OF tool_ok_act [OF 1(1) v(1)] v(2)] client_script_step [OF v(1)] show ?case
      by (simp add: run_actions_append)
  next
    case 2
    then obtain v where v: "tool_act h a t = Some v" "run_actions (tool_act h) as v = Some u"
      by (auto split: option.splits)
    from Cons.IH(2) [OF tool_ok_act [OF 2(1) v(1)] v(2)] store_script_step [OF 2(1) v(1)] v(1) show ?case
      by simp
  }
qed simp_all

end
