(* ===== verification/Tool_Properties.thy ===== *)
theory Tool_Properties
  imports Tool_Demo Tool_Script Client_Waits
begin

text \<open>
  What the tool promises its caller: no call is stranded, a call ends as the client's promise does and
  touches the store only when it succeeded, and the client and the store under the tool follow the script
  of its actions.
\<close>

section \<open>Calls\<close>

text \<open>C13. No call of the tool is stranded: a call that has not ended waits for a promise of the client, and that
  promise is settled or progresses: what it waits for, in the end, is an armed timer, a fetch in flight or the
  socket that is opening.\<close>

theorem call_not_stranded:
  assumes "tool_reachable h t" and "n < length (ctx_calls t)" and "ctx_calls t ! n = Running"
  shows "\<exists>p k. (p, n, k) \<in> set (ctx_waiting t) \<and> (promise_of (ctx_client t) p \<noteq> Pending \<or> progresses (ctx_client t) p)"
proof -
  from tool_reachable_ok [OF assms(1)] obtain ks where r: "reachable (relay_host h) (ctx_client t)"
      and ks: "types ks (ctx_client t)" "waits_ok ks (ctx_calls t) (ctx_waiting t)"
    by (auto simp: tool_ok_def)
  from ks(2) assms(2,3) obtain p k where w: "(p, n, k) \<in> set (ctx_waiting t)"
    by (auto simp: waits_ok_def)
  from waits_okD [OF ks(2) w] have "p < length ks" by (simp add: only_def)
  with ks(1) have "p < length (promises (ctx_client t))"
    by (auto simp: types_def typed_def values_typed_def)
  then have "promise_of (ctx_client t) p = Pending \<Longrightarrow> progresses (ctx_client t) p"
    using reachable_sound [OF r] client_graded.reachable_inv [OF r]
    by (auto intro!: pending_progresses simp: pending_def promise_of_def)
  with w show ?thesis by blast
qed

theorem call_not_stranded_witness:
  "\<exists>p k. (p, 0, k) \<in> set (ctx_waiting demo_tool_opening)"
  using call_not_stranded [OF demo_tool_opening_reachable, of 0] by (auto simp: demo_tool_opening_def)

text \<open>The effect of a call that succeeds on the store and the channel name.\<close>

fun store_after :: "tool_cont \<Rightarrow> pending_state \<Rightarrow> pending_state" where
  "store_after (AfterConnect ch prev) p = (if prev \<noteq> None \<and> prev \<noteq> Some ch then clear p else p)"
| "store_after (AfterReply q) p = snd (deleteAsk (JStr q) p)"
| "store_after (AfterApprove j) p = snd (deleteJoinRequest j p)"
| "store_after (AfterDeny j) p = snd (deleteJoinRequest j p)"
| "store_after k p = p"

fun channel_after :: "tool_cont \<Rightarrow> string option \<Rightarrow> string option" where
  "channel_after (AfterConnect ch prev) c = Some ch"
| "channel_after k c = c"

lemma after_await_ok:
  assumes "tool_kind k v"
  shows "\<exists>x u. after_await k (Fulfilled v) t = (Returned x, u) \<and> ctx_pending u = store_after k (ctx_pending t) \<and>
    ctx_channelName u = channel_after k (ctx_channelName t) \<and> ctx_calls u = ctx_calls t"
  using assms
  by (cases k) (auto simp: connect_kind_def request_kind_def after_connect_def connected_def Let_def split: prod.split)

text \<open>C6. A call ends as its promise does, and changes the store only when it succeeded. When the client's promise is
  rejected, the call throws that error and the store and the channel name are as before. When it is
  fulfilled, the value is the acknowledged response the action needs (\<open>tool_kind\<close>), the call returns, a reply
  removes exactly its ask, a decision exactly its join request, and a connect clears the store exactly if
  it left another channel.\<close>

theorem call_outcome:
  assumes "tool_reachable h t" and "i < length (ctx_waiting t)" and "ctx_waiting t ! i = (p, n, k)"
    and "tool_act h (Continue i) t = Some u"
  shows "case promise_of (ctx_client t) p of
      Rejected e \<Rightarrow> ctx_calls u ! n = Threw e \<and> ctx_pending u = ctx_pending t \<and> ctx_channelName u = ctx_channelName t
    | Fulfilled v \<Rightarrow> tool_kind k v \<and> (\<exists>x. ctx_calls u ! n = Returned x) \<and>
        ctx_pending u = store_after k (ctx_pending t) \<and> ctx_channelName u = channel_after k (ctx_channelName t)
    | Pending \<Rightarrow> False"
proof -
  from tool_reachable_ok [OF assms(1)] obtain ks where
      ks: "types ks (ctx_client t)" "waits_ok ks (ctx_calls t) (ctx_waiting t)"
    by (auto simp: tool_ok_def)
  have "(p, n, k) \<in> set (ctx_waiting t)" using assms(2,3) by (metis nth_mem)
  from waits_okD [OF ks(2) this] have n: "n < length (ctx_calls t)" "only ks p (tool_kind k)" by simp_all
  let ?t = "t\<lparr>ctx_waiting := remove_nth i (ctx_waiting t)\<rparr>"
  have u: "promise_of (ctx_client t) p \<noteq> Pending" "u = continue (p, n, k) (promise_of (ctx_client t) p) ?t"
    using assms by (auto split: if_splits)
  show ?thesis
  proof (cases "promise_of (ctx_client t) p")
    case (Fulfilled v)
    then have v: "tool_kind k v" using types_value [OF ks(1) n(2)] by blast
    from after_await_ok [OF v, of ?t] Fulfilled u(2) n(1) v show ?thesis
      by (auto simp: continue_def)
  next
    case (Rejected e)
    with u n(1) show ?thesis by (simp add: continue_def)
  qed (use u in simp)
qed

theorem call_outcome_witness:
  "\<exists>u x. tool_act demo_tool_host (Continue 0) demo_tool_opening = Some u \<and> ctx_calls u ! 0 = Returned x \<and>
     ctx_channelName u = Some ''c''"
proof -
  have f: "promise_of (ctx_client demo_tool_opening) 0 = Fulfilled (VConnect demo_connect_response)"
    by (simp add: demo_tool_opening_def demo_open_def promise_of_def)
  have w: "ctx_waiting demo_tool_opening = [(0, 0, AfterConnect ''c'' None)]"
    by (simp add: demo_tool_opening_def)
  then obtain u where u: "tool_act demo_tool_host (Continue 0) demo_tool_opening = Some u"
    using f by simp
  from call_outcome [OF demo_tool_opening_reachable _ _ u] f u w show ?thesis
    by auto
qed

text \<open>C14. The tool does to its client and its store exactly what its actions say, in every run. The client goes
  through the calls of the script: a valid input makes the one call it names, with the texts and the time limit of
  its action (none for pending, and an invalid input none), disposing unregisters the handlers, nothing
  else calls the client. So every state of the client under the tool is one it reaches by itself. The store is what
  the scripted operations make of it: the items of the events that were dispatched, a removal when a reply or a
  decision succeeded, a clearing when a connect left another channel or a disconnect returned, and nothing else.\<close>

theorem tool_client_refines:
  assumes "tool_reachable h t" and "run_actions (tool_act h) as t = Some u"
  shows "run_actions (act (relay_host h)) (concat (map client_script as)) (ctx_client t) = Some (ctx_client u) \<and>
    reachable (relay_host h) (ctx_client u) \<and>
    ctx_pending u = fold pending_step (run_script h as t) (ctx_pending t) \<and> pending_ok (ctx_pending u)"
proof -
  have ok: "tool_ok h t" using tool_reachable_ok [OF assms(1)] .
  moreover from this have "tool_ok h u" using tool_runs.run_inv [OF assms(2)] by blast
  ultimately show ?thesis using scripts_run [OF _ assms(2)] by (simp add: tool_ok_def)
qed

theorem tool_client_refines_witness:
  "run_actions (act (relay_host demo_tool_host)) connect_script (ctx_client demo_tool) = Some (ctx_client demo_tool_opening) \<and>
   reachable (relay_host demo_tool_host) (demo_open\<lparr>handlers := tool_handlers\<rparr>)"
proof -
  have "concat (map client_script connect_tool_script) = connect_script"
    using nonEmpty_given [of "Some ''c''"]
    by (simp add: connect_tool_script_def connect_input_parsed connect_script_def no_options_def comp_def blank_plain
        plain_char_def trim_plain)
  with tool_client_refines [OF demo_tool_reachable demo_tool_opened] show ?thesis
    by (simp add: demo_tool_opening_def)
qed

end
