(* ===== verification/Tool_Winddown.thy ===== *)
theory Tool_Winddown
  imports Client_Winddown Tool_Properties
begin

text \<open>
  The tool winds down with its client: after its disconnect action every call that is still running ends.
\<close>

inductive tool_winds :: "tool_host \<Rightarrow> tool_context \<Rightarrow> tool_context \<Rightarrow> bool" for h where
  client: "run_actions (tool_act h) (map ClientAct as) t = Some u \<Longrightarrow> winds (relay_host h) (ctx_client t) (ctx_client u) \<Longrightarrow>
     tool_winds h t u"
| continues: "tool_act h (Continue i) t = Some u \<Longrightarrow> tool_winds h t u"

lemma run_client_acts:
  "run_actions (tool_act h) (map ClientAct as) t = Some u \<Longrightarrow> ctx_waiting u = ctx_waiting t \<and> ctx_calls u = ctx_calls t"
  by (induction as arbitrary: t) (auto split: option.splits)

lemma client_acts_run:
  "run_actions (act (relay_host h)) as (ctx_client t) = Some c \<Longrightarrow>
    \<exists>u. run_actions (tool_act h) (map ClientAct as) t = Some u \<and> ctx_client u = c"
proof (induction as arbitrary: t)
  case (Cons a as)
  then obtain d where d: "act (relay_host h) a (ctx_client t) = Some d" "run_actions (act (relay_host h)) as d = Some c"
    by (auto split: option.splits)
  with Cons.IH [of "client_update h d t"] show ?case by simp
qed simp

lemma winds_run: "winds h c d \<Longrightarrow> \<exists>as. run_actions (act h) as c = Some d"
proof (induction rule: winds.cases)
  case (runs i c d)
  then show ?case by (intro exI [of _ "[Resume i]"]) (simp del: act.simps)
next
  case (ends c p res d)
  then show ?case by (intro exI [of _ "[FetchDone p res]"]) (simp del: act.simps)
qed blast

lemma tool_run_reachable: "run_actions (tool_act h) as t = Some u \<Longrightarrow> tool_reachable h t \<Longrightarrow> tool_reachable h u"
proof (induction as arbitrary: t)
  case (Cons a as)
  then obtain v where "tool_act h a t = Some v" "run_actions (tool_act h) as v = Some u"
    by (auto split: option.splits)
  with Cons show ?case by (blast intro: tool_reachable.acted)
qed simp

lemma tool_client_reachable: "tool_reachable h t \<Longrightarrow> reachable (relay_host h) (ctx_client t)"
  using tool_reachable_ok by (auto simp: tool_ok_def)

text \<open>What the client has left to do, and the calls that wait.\<close>

definition tool_work :: "tool_context \<Rightarrow> nat" where
  "tool_work t = work (ctx_client t) + length (ctx_waiting t)"

lemma length_remove_nth: "i < length xs \<Longrightarrow> length (remove_nth i xs) < length xs"
  by (simp add: remove_nth_def)

lemma continue_fields: "ctx_client (continue w res t) = ctx_client t" "ctx_waiting (continue w res t) = ctx_waiting t"
  by (cases w; cases "after_await (snd (snd w)) res t"; simp add: continue_def after_await_fields)+

lemma tool_winds_work:
  assumes r: "tool_reachable h t" and g: "gone (ctx_client t)" and w: "tool_winds h t u"
  shows "tool_reachable h u \<and> gone (ctx_client u) \<and> tool_work u < tool_work t"
  using w
proof cases
  case (client as)
  then show ?thesis
    using r winds_work [OF tool_client_reachable [OF r] g] run_client_acts [OF client(1)] tool_run_reachable
    by (fastforce simp: tool_work_def)
next
  case (continues i)
  then show ?thesis
    using r g tool_reachable.acted [OF r continues] length_remove_nth [of i "ctx_waiting t"]
    by (auto simp: tool_work_def continue_fields split: if_splits)
qed

interpretation tool_winding: measured_steps "tool_winds h" "\<lambda>t. tool_reachable h t \<and> gone (ctx_client t)" tool_work for h
  by unfold_locales (use tool_winds_work in blast)

lemma tool_stuck_ended:
  assumes r: "tool_reachable h t" and g: "gone (ctx_client t)" and stuck: "\<And>u. \<not> tool_winds h t u"
  shows "wound_down (ctx_client t) \<and> list_all (\<lambda>x. x \<noteq> Running) (ctx_calls t)"
proof -
  have "\<not> winds (relay_host h) (ctx_client t) d" for d
    using winds_run [of "relay_host h" "ctx_client t" d] client_acts_run [of h _ t d] stuck tool_winds.client by metis
  then have w: "wound_down (ctx_client t)" by (rule stuck_wound_down [OF tool_client_reachable [OF r] g])
  from tool_reachable_ok [OF r] obtain ks where ks: "types ks (ctx_client t)" "waits_ok ks (ctx_calls t) (ctx_waiting t)"
    by (auto simp: tool_ok_def)
  have "ctx_waiting t = []"
  proof (rule ccontr)
    assume "ctx_waiting t \<noteq> []"
    then have i: "0 < length (ctx_waiting t)" by simp
    obtain p n k where x: "ctx_waiting t ! 0 = (p, n, k)" by (cases "ctx_waiting t ! 0")
    with i have "(p, n, k) \<in> set (ctx_waiting t)" by (metis nth_mem)
    from waits_okD [OF ks(2) this] have "p < length ks" by (simp add: only_def)
    with ks(1) have "p < length (promises (ctx_client t))" by (auto simp: types_def typed_def values_typed_def)
    with w have "promise_of (ctx_client t) p \<noteq> Pending" by (simp add: wound_down_def list_all_length promise_of_def)
    with i x have "\<exists>u. tool_act h (Continue 0) t = Some u" by simp
    with stuck tool_winds.continues show False by blast
  qed
  with ks(2) w show ?thesis by (auto simp: waits_ok_def list_all_length)
qed

text \<open>C4. A tool that disconnects ends all its calls. From the moment its disconnect action has run, whatever timers fire,
  fetches are answered, continuations of the client run and calls are continued, and in whatever order, at most as many such
  steps happen as the tool has timers, waiting calls and twice the continuations; and as long as a call is running
  another one is possible. So no call that was running is left waiting.\<close>

theorem tool_disconnect_ends_calls:
  assumes "tool_reachable h s" and "parseToolInput v = Inr (InDisconnect code reason)" and "execute h v s = t"
    and "(tool_winds h ^^ n) t u"
  shows "n \<le> length (timers (ctx_client t)) + 2 * length (conts (ctx_client t)) + length (ctx_waiting t) \<and>
    ((wound_down (ctx_client u) \<and> list_all (\<lambda>x. x \<noteq> Running) (ctx_calls u)) \<or> (\<exists>w. tool_winds h u w))"
proof -
  have r: "tool_reachable h t" using assms(1,3) tool_reachable.acted [of h s "Execute v" t] by simp
  obtain e c where c: "disconnect (relay_host h) code reason (ctx_client s) = (e, c)" by fastforce
  then have "gone c" using disconnect_gone [OF reachable_sound [OF tool_client_reachable [OF assms(1)]]] by (metis snd_conv)
  moreover have "ctx_client t = c"
    using assms(2,3) c by (auto simp: execute_def answer_def Let_def split: option.splits)
  ultimately have g: "gone (ctx_client t)" by simp
  from r g have u: "tool_reachable h u \<and> gone (ctx_client u)" "tool_work u + n \<le> tool_work t"
    using tool_winding.steps_bounded [OF assms(4)] by blast+
  have "n \<le> tool_work t" using u by linarith
  moreover have "(wound_down (ctx_client u) \<and> list_all (\<lambda>x. x \<noteq> Running) (ctx_calls u)) \<or> (\<exists>w. tool_winds h u w)"
    using u tool_stuck_ended [of h u] by blast
  ultimately show ?thesis using work_le [of "ctx_client t"] by (simp add: tool_work_def)
qed

text \<open>The tool whose connect has not returned yet disconnects; the call is continued and ends.\<close>

definition disconnect_input :: jsval where
  "disconnect_input = JObj [(''action'', JStr ''disconnect'')]"

theorem tool_disconnect_ends_calls_witness:
  "\<exists>t u. execute demo_tool_host disconnect_input demo_tool_opening = t \<and> tool_winds demo_tool_host t u \<and>
     ((wound_down (ctx_client u) \<and> list_all (\<lambda>x. x \<noteq> Running) (ctx_calls u)) \<or> (\<exists>w. tool_winds demo_tool_host u w))"
proof -
  have parsed: "parseToolInput disconnect_input = Inr (InDisconnect None None)"
    by (simp add: parseToolInput_spec disconnect_input_def is_record_def is_object_def is_array_def given_def)
  obtain t where t: "execute demo_tool_host disconnect_input demo_tool_opening = t" by blast
  have "ctx_waiting t = ctx_waiting demo_tool_opening"
    using parsed t by (auto simp: execute_def answer_def Let_def split: prod.splits option.splits)
  moreover have "ctx_client t = snd (disconnect (relay_host demo_tool_host) None None (ctx_client demo_tool_opening))"
    using parsed t by (auto simp: execute_def answer_def Let_def split: prod.splits option.splits)
  then have "promise_of (ctx_client t) 0 \<noteq> Pending"
    by (simp add: demo_tool_opening_def disconnect_def Let_def clearReconnectTimer_upd closeCurrentSocket_def
        stopHeartbeat_upd rejectResponseWaiters_def ws_close_upd cleanup_upd promise_of_def demo_open_def new_client_def
        split: option.splits)
  ultimately obtain u where "tool_act demo_tool_host (Continue 0) t = Some u"
    by (simp add: demo_tool_opening_def)
  then have w: "tool_winds demo_tool_host t u" by (rule tool_winds.continues)
  then have "(tool_winds demo_tool_host ^^ 1) t u" by (simp add: relcompp_apply)
  from tool_disconnect_ends_calls [OF demo_tool_opening_reachable parsed t this] t w show ?thesis by blast
qed

end
