(* ===== verification/Client_Behaviour.thy ===== *)
theory Client_Behaviour
  imports Client_Demo Json_Roundtrip
begin

text \<open>
  The behaviour of the client's handlers and checks: event dispatch, join approval, a lost connection,
  the health check, and runs that show where the code departs from its specification.
\<close>

section \<open>Event dispatch\<close>

lemma handlers_of_on:
  "handlers_of (on ty hid c) ty' = (if ty' = ty \<and> hid \<notin> set (handlers_of c ty) then handlers_of c ty @ [hid] else handlers_of c ty')"
  by (simp add: handlers_of_def on_def Let_def)

lemma handlers_of_off:
  "handlers_of (off ty hid c) ty' = (if ty' = ty then filter (\<lambda>x. x \<noteq> hid) (handlers_of c ty) else handlers_of c ty')"
  by (auto simp: handlers_of_def off_def Let_def split: option.split)

text \<open>Registering a handler is idempotent and keeps the order of registration; removing it restores the
  handlers of its type exactly when it was new, and other types are untouched.\<close>

theorem on_off_roundtrip:
  "handlers_of (on ty hid (on ty hid c)) = handlers_of (on ty hid c) \<and>
   (handlers_of (off ty hid (on ty hid c)) = handlers_of c \<longleftrightarrow> hid \<notin> set (handlers_of c ty)) \<and>
   (handlers_of (on ty hid c))(ty := hs) = (handlers_of c)(ty := hs) \<and>
   (handlers_of (off ty hid c))(ty := hs) = (handlers_of c)(ty := hs)"
proof -
  have "filter (\<lambda>x. x \<noteq> hid) xs = xs \<longleftrightarrow> hid \<notin> set xs" for xs
    by (simp add: filter_id_conv) blast
  then show ?thesis
    by (auto simp: fun_eq_iff handlers_of_on handlers_of_off)
qed

text \<open>What a frame with an event does to the client: its state first, then the handlers, whose work only adds to the log.\<close>

definition taken_in :: "jsval \<Rightarrow> relay_client \<Rightarrow> relay_client" where
  "taken_in e c = record_reply_target e (resolveResponseWaiter e (applyStateEvent e (recordRelayActivity c)))"

lemma taken_in_keeps:
  "now (taken_in e c) = now c" "handlers (taken_in e c) = handlers c" "log (taken_in e c) = log c"
  by (simp_all add: taken_in_def upd applyStateEvent_def resolveResponseWaiter_def resolve_waiter_def drop_waiter_def
      record_reply_target_def clearTimeout_def settle_def Let_def split: option.split)

lemma taken_in_handlers: "handlers_of (taken_in e c) = handlers_of c"
  by (intro ext) (simp add: handlers_of_def taken_in_keeps)

definition frame_effects :: "client_host \<Rightarrow> jsval \<Rightarrow> string \<Rightarrow> relay_client \<Rightarrow> effect list" where
  "frame_effects h e ty c = concat (map (handler_effects h (taken_in e c) ty e) (handlers_of c ty)) @
     concat (map (handler_effects h (taken_in e c) ''*'' e) (handlers_of c ''*''))"

lemma received:
  assumes "socket c = Some s" and "listening c s" and "ws_settled (sockets c ! s)"
    and "json_parse txt = Some e" and "get e ''type'' = JStr ty"
  shows "act h (SockMessage s (JStr txt)) c = Some ((taken_in e c)\<lparr>log := log c @ frame_effects h e ty c\<rparr>)"
proof -
  have m: "messageData (JStr txt) = JStr txt" by (simp add: messageData_def is_object_def)
  have n: "e \<noteq> JNull" using assms(5) by (auto simp: get_def)
  have "emit h ''*'' e (emit h ty e (taken_in e c)) = (taken_in e c)\<lparr>log := log c @ frame_effects h e ty c\<rparr>"
    by (simp add: emit_upd taken_in_handlers taken_in_keeps frame_effects_def)
  then show ?thesis
    using assms m n by (simp add: messageHandler_def handleSocketMessage_def dataToString_def uncaught_def taken_in_def)
qed

text \<open>C34. A throwing handler disturbs nobody. When a frame with an event arrives, of whatever type, error events
  included, then whatever the handlers throw, every handler of that type runs once with the event, in the order of
  registration, and every handler of all types after them. A handler that throws is reported to the handlers of
  error events right after it ran, unless it is one of these itself, and nothing is reported otherwise. Nothing
  escapes, and the client is left as if no handler had thrown, but for these reports.\<close>

theorem dispatch_isolated:
  assumes "socket c = Some s" and "listening c s" and "ws_settled (sockets c ! s)"
    and "json_parse txt = Some e" and "get e ''type'' = JStr ty"
  shows "\<exists>d d' reports. act h (SockMessage s (JStr txt)) c = Some d \<and>
    log d = log c @ concat (map (\<lambda>hid. ODispatch hid e # reports ty hid) (handlers_of c ty)) @
      concat (map (\<lambda>hid. ODispatch hid e # reports ''*'' hid) (handlers_of c ''*'')) \<and>
    (\<forall>t hid. reports t hid = [] \<or> (\<exists>err r. t \<noteq> ''error'' \<and> handler_throws h hid e = Some err \<and>
       reports t hid = map (\<lambda>x. ODispatch x r) (handlers_of c ''error'') \<and>
       get r ''type'' = JStr ''error'' \<and> get (get r ''payload'') ''code'' = JStr ''handler_error'' \<and>
       get (get r ''payload'') ''message'' = JStr (errorMessage err) \<and>
       get (get r ''payload'') ''handlerEventType'' = JStr t)) \<and>
    (\<forall>t hid. t \<noteq> ''error'' \<and> handler_throws h hid e \<noteq> None \<and> handlers_of c ''error'' \<noteq> [] \<longrightarrow> reports t hid \<noteq> []) \<and>
    act (h\<lparr>handler_throws := (\<lambda>_ _. None)\<rparr>) (SockMessage s (JStr txt)) c = Some d' \<and> d = d'\<lparr>log := log d\<rparr>"
proof -
  let ?r = "\<lambda>t hid. tl (handler_effects h (taken_in e c) t e hid)"
  let ?d = "(taken_in e c)\<lparr>log := log c @ frame_effects h e ty c\<rparr>"
  let ?h = "h\<lparr>handler_throws := (\<lambda>_ _. None)\<rparr>"
  have eff: "handler_effects h (taken_in e c) t e = (\<lambda>hid. ODispatch hid e # ?r t hid)" for t
    by (intro ext) (simp add: handler_effects_def)
  have log: "log ?d = log c @ concat (map (\<lambda>hid. ODispatch hid e # ?r ty hid) (handlers_of c ty)) @
      concat (map (\<lambda>hid. ODispatch hid e # ?r ''*'' hid) (handlers_of c ''*''))"
    by (simp add: frame_effects_def flip: eff)
  have reports: "\<forall>t hid. ?r t hid = [] \<or> (\<exists>err r. t \<noteq> ''error'' \<and> handler_throws h hid e = Some err \<and>
       ?r t hid = map (\<lambda>x. ODispatch x r) (handlers_of c ''error'') \<and>
       get r ''type'' = JStr ''error'' \<and> get (get r ''payload'') ''code'' = JStr ''handler_error'' \<and>
       get (get r ''payload'') ''message'' = JStr (errorMessage err) \<and>
       get (get r ''payload'') ''handlerEventType'' = JStr t)"
    by (auto simp: handler_effects_def taken_in_handlers error_event_def js_spread_def get_JObj split: option.split)
  have reported: "\<forall>t hid. t \<noteq> ''error'' \<and> handler_throws h hid e \<noteq> None \<and> handlers_of c ''error'' \<noteq> [] \<longrightarrow> ?r t hid \<noteq> []"
    by (auto simp: handler_effects_def taken_in_handlers)
  have same: "?d = ((taken_in e c)\<lparr>log := log c @ frame_effects ?h e ty c\<rparr>)\<lparr>log := log ?d\<rparr>" by simp
  show ?thesis
    by (rule exI [of _ ?d], rule exI [of _ "(taken_in e c)\<lparr>log := log c @ frame_effects ?h e ty c\<rparr>"], rule exI [of _ ?r])
      (intro conjI received [OF assms] log reports reported same)
qed

text \<open>An error event from the relay, and two handlers of error events of which the first throws: both run, and nothing
  is reported.\<close>

definition demo_error :: jsval where
  "demo_error = JObj [(''type'', JStr ''error''), (''payload'', JObj [(''code'', JStr ''bad_request'')])]"

theorem dispatch_isolated_witness:
  "\<exists>d. act (demo_host\<lparr>handler_throws := (\<lambda>hid e. if hid = 3 then Some JNull else None)\<rparr>)
       (SockMessage 0 (JStr (json_stringify demo_error))) (demo_open\<lparr>handlers := [(''error'', [3, 4])]\<rparr>) = Some d \<and>
     log d = log demo_open @ [ODispatch 3 demo_error, ODispatch 4 demo_error]"
proof -
  let ?h = "demo_host\<lparr>handler_throws := (\<lambda>hid e. if hid = 3 then Some JNull else None)\<rparr>"
  let ?c = "demo_open\<lparr>handlers := [(''error'', [3, 4])]\<rparr>"
  have a: "socket ?c = Some 0" "listening ?c 0" "ws_settled (sockets ?c ! 0)"
    by (simp_all add: demo_open_def listening_def)
  have p: "json_parse (json_stringify demo_error) = Some demo_error"
    using json_roundtrip [of demo_error] by (simp add: demo_error_def)
  have t: "get demo_error ''type'' = JStr ''error''" by (simp add: demo_error_def)
  have h: "handlers_of ?c ''error'' = [3, 4]" "handlers_of ?c ''*'' = []" by (simp_all add: handlers_of_def)
  obtain d reports where d: "act ?h (SockMessage 0 (JStr (json_stringify demo_error))) ?c = Some d"
      "log d = log ?c @ concat (map (\<lambda>hid. ODispatch hid demo_error # reports ''error'' hid) [3, 4]) @
         concat (map (\<lambda>hid. ODispatch hid demo_error # reports ''*'' hid) [])"
      and r: "\<And>hid. reports ''error'' hid = []"
    using dispatch_isolated [OF a p t, of ?h] unfolding h by (elim exE conjE) blast
  from d(2) have "log d = log demo_open @ [ODispatch 3 demo_error, ODispatch 4 demo_error]" by (simp add: r)
  with d(1) show ?thesis by blast
qed

section \<open>Join approval\<close>

text \<open>An approval makes the pending member a connected one: the status is connected, the request is no longer
  pending, the token is the new one if the event carries a non-blank one and the old one otherwise.
  Every other event leaves the state alone.\<close>

theorem approval_applied:
  "client_state (applyStateEvent event c) =
    (if get event ''type'' = JStr (wire JoinApproved)
     then (client_state c)\<lparr>st_status := Some ''connected'', st_joinRequestId := None,
        st_token := (case get (get event ''payload'') ''token'' of
           JStr t \<Rightarrow> (if blank t then st_token (client_state c) else Some t) | _ \<Rightarrow> st_token (client_state c))\<rparr>
     else client_state c)"
  by (auto simp: applyStateEvent_def Let_def non_blank_string_def split: jsval.split)

section \<open>A lost connection\<close>

lemma settled_fold_Rejected:
  assumes "distinct (map fst ws)" and "(k, w) \<in> set ws" and "w_promise w < length ps" and "ps ! w_promise w = Pending"
  shows "\<exists>j v. (j, v) \<in> set ws \<and> w_promise v = w_promise w \<and>
    fold (\<lambda>(k, w). settled (w_promise w) (Rejected (waiter_error m k w))) ws ps ! w_promise w = Rejected (waiter_error m j v)"
  using assms
proof (induction ws arbitrary: ps)
  case (Cons e ws)
  obtain k' w' where e: "e = (k', w')" by (cases e)
  have keep: "fold (\<lambda>(k, w). settled (w_promise w) (Rejected (waiter_error m k w))) xs qs ! p = qs ! p"
    if "qs ! p \<noteq> Pending" for xs qs p
    using that
  proof (induction xs arbitrary: qs)
    case (Cons x xs)
    have "settled a b qs ! p = qs ! p" for a b
      using Cons.prems by (auto simp: settled_def nth_list_update)
    with Cons show ?case by (cases x) auto
  qed simp
  show ?case
  proof (cases "w_promise w' = w_promise w")
    case True
    let ?qs = "settled (w_promise w) (Rejected (waiter_error m k' w')) ps"
    have q: "?qs ! w_promise w = Rejected (waiter_error m k' w')"
      using Cons.prems(3,4) by (simp add: settled_def)
    then have "fold (\<lambda>(k, w). settled (w_promise w) (Rejected (waiter_error m k w))) ws ?qs ! w_promise w = Rejected (waiter_error m k' w')"
      using keep [of ?qs "w_promise w" ws] by simp
    with True e show ?thesis by (auto intro!: exI [of _ k'] exI [of _ w'])
  next
    case False
    with Cons.prems e have "(k, w) \<in> set ws" by auto
    moreover have "settled (w_promise w') x ps ! w_promise w = ps ! w_promise w" for x
      using False by (simp add: settled_def)
    ultimately show ?thesis
      using Cons.IH [of "settled (w_promise w') (Rejected (waiter_error m k' w')) ps"] Cons.prems e by auto
  qed
qed simp

lemma loop_head_keeps:
  "socket (loop_head r a g c) = socket c" "responseWaiters (loop_head r a g c) = responseWaiters c"
  "p < length (promises c) \<Longrightarrow> p \<noteq> r \<Longrightarrow> promise_of (loop_head r a g c) p = promise_of c p"
  by (simp_all add: loop_head_def schedule_attempt_def waitForReconnectDelay_def newPromise_def setTimeout_def await_def
      emitError_upd resolve_unit_def settle_def settled_def promise_of_def nth_append Let_def)

lemma reconnect_keeps:
  "socket (snd (reconnect c)) = socket c" "responseWaiters (snd (reconnect c)) = responseWaiters c"
  by (simp_all add: reconnect_def newPromise_def await_def loop_head_keeps Let_def split: option.split)

lemma promise_of_same [simp]:
  "promise_of (d\<lparr>reconnectPromise := x\<rparr>) p = promise_of d p" "promise_of (await q k d) p = promise_of d p"
  by (simp_all add: promise_of_def await_def)

lemma reconnect_keeps_promise:
  assumes p: "p < length (promises c)"
  shows "promise_of (snd (reconnect c)) p = promise_of c p"
proof -
  have old: "promise_of (c\<lparr>promises := promises c @ [v]\<rparr>) p = promise_of c p" for v
    using p by (simp add: promise_of_def nth_append)
  have "promise_of (loop_head (length (promises c)) a g (c\<lparr>reconnectGeneration := i, promises := promises c @ [v]\<rparr>)) p
      = promise_of c p" for a g v i
    using p by (subst loop_head_keeps(3)) (simp_all add: promise_of_def nth_append)
  then have "promise_of (await q k ((loop_head (length (promises c)) a g
        (c\<lparr>reconnectGeneration := i, promises := promises c @ [v]\<rparr>))\<lparr>reconnectPromise := x\<rparr>)) p = promise_of c p" for q k a g v i x
    by simp
  with old show ?thesis
    by (cases "reconnectPromise c"; cases "lastConnectArgs c"; cases "explicitDisconnect c")
      (simp_all add: reconnect_def newPromise_def Let_def)
qed

lemma length_settled_fold: "length (fold (\<lambda>(k, w). settled (f k w) (g k w)) ws ps) = length ps"
  by (induction ws arbitrary: ps) auto

definition closed_error :: "jsval \<Rightarrow> bool" where
  "closed_error e = (get e ''message'' = JStr closed_message)"

lemma rejectResponseWaiters_rejects:
  assumes "waiters_ok (responseWaiters c) (timers c)" and "(k, w) \<in> set (responseWaiters c)"
    and "p = w_promise w" and "p \<in> pending (promises c)"
  shows "\<exists>e. promise_of (rejectResponseWaiters closed_message c) p = Rejected e \<and> closed_error e"
proof -
  have "distinct (map fst (responseWaiters c))"
    using assms(1) by (simp add: waiters_ok_def distinct_keys_def)
  from settled_fold_Rejected [OF this assms(2), of "promises c" closed_message] assms(3,4)
  show ?thesis
    by (auto simp: promise_of_def rejectResponseWaiters_upd pending_def closed_error_def length_settled_fold)
      (auto simp: waiter_error_def)
qed

text \<open>C19. When an opened connection is lost, no operation waits on for a response that cannot come: there is no
  current socket and no waiter left, and every response that was awaited is rejected with the message that
  the connection was closed; the rejection survives the start of the reconnect loop.\<close>

theorem lost_connection_rejects:
  assumes "reachable h c" and "socket c = Some s" and "ws_settled (sockets c ! s)"
    and "jm_get (responseWaiters c) k = Some w" and "w_promise w \<in> pending (promises c)"
  shows "let d = closeHandler s v c in socket d = None \<and> responseWaiters d = [] \<and>
     (\<exists>e. promise_of d (w_promise w) = Rejected e \<and> closed_error e)"
proof -
  let ?c3 = "(\<lambda>st code m ds. cleanup s (stopHeartbeat ((emitError code m ds (c\<lparr>client_state := st\<rparr>))\<lparr>socket := None\<rparr>)))"
  have c3: "sound {} (?c3 st code m ds)" "responseWaiters (?c3 st code m ds) = responseWaiters c"
      "promises (?c3 st code m ds) = promises c" "socket (?c3 st code m ds) = None" for st code m ds
    by (rule sound_closed, use client_sound.reachable_inv [OF assms(1)] assms(2,3) in \<open>simp_all add: emitError_upd\<close>)
      (simp_all add: emitError_upd cleanup_upd stopHeartbeat_upd)
  let ?r = "\<lambda>st code m ds. rejectResponseWaiters closed_message (?c3 st code m ds)"
  have "\<exists>e. promise_of (?r st code m ds) (w_promise w) = Rejected e \<and> closed_error e" for st code m ds
    using rejectResponseWaiters_rejects [of "?c3 st code m ds" k w "w_promise w"] c3 jm_get_Some_in [OF assms(4)] assms(5)
    by (simp add: sound_def)
  moreover from this have "\<exists>e. promise_of (snd (reconnect (?r st code m ds))) (w_promise w) = Rejected e \<and> closed_error e" for st code m ds
    using assms(5) by (subst reconnect_keeps_promise) (simp_all add: c3 rejectResponseWaiters_upd length_settled_fold pending_def)
  moreover have "responseWaiters (?r st code m ds) = []" "socket (?r st code m ds) = None" for st code m ds
    by (simp_all add: rejectResponseWaiters_upd c3)
  ultimately show ?thesis
    using assms(2,3)
    by (simp add: closeHandler_def Let_def scheduleReconnect_def reconnect_keeps)
qed

theorem lost_connection_rejects_witness:
  "\<exists>e. promise_of (closeHandler 0 JUndef demo_sent) 3 = Rejected e \<and> closed_error e"
proof -
  have "socket demo_sent = Some 0" "ws_settled (sockets demo_sent ! 0)"
    "jm_get (responseWaiters demo_sent) (JStr ''0'') = Some demo_waiter" "w_promise demo_waiter \<in> pending (promises demo_sent)"
    by (simp_all add: demo_sent_def demo_open_def demo_waiter_def pending_def)
  from lost_connection_rejects [OF demo_sent_reachable this, of JUndef] show ?thesis
    by (simp add: Let_def demo_waiter_def)
qed

section \<open>The health check\<close>

lemma no_frames_written:
  assumes "\<And>k. emits k 0 c d"
  shows "\<exists>es. log d = log c @ es \<and> list_all no_frame es"
proof -
  obtain es where es: "log d = log c @ es" using assms [of probe_key] by (auto simp: emits_def)
  have "no_frame x" if x: "x \<in> set es" for x
  proof (cases x)
    case (OSend s ev tx)
    from assms [of "frame_key ev"] es have "filter (sends_key (frame_key ev)) es = []" by (auto simp: emits_def)
    with x OSend show ?thesis by (auto simp: filter_empty_conv)
  qed simp_all
  with es show ?thesis by (auto simp: list_all_iff)
qed

definition probe_event :: jsval where
  "probe_event = JObj [(''type'', JStr (wire StatusRequest))]"

lemma requestStatus_probe: "requestStatus h ms c = requestResponse h probe_event (wire StatusResponse) ms None c"
  by (simp add: requestStatus_def probe_event_def)

lemma socket_open_promises [simp]: "socket_open (c\<lparr>promises := ps\<rparr>) = socket_open c"
  by (simp add: socket_open_def split: option.split)

lemma sendEvent_promises [simp]:
  "sendEvent h event (c\<lparr>promises := ps\<rparr>) = (fst (sendEvent h event c), (snd (sendEvent h event c))\<lparr>promises := ps\<rparr>)"
  by (simp add: sendEvent_def emitLog_def Let_def split: option.split)

text \<open>The check that starts on an open connection: it writes the probe and waits for the answer.\<close>

lemma probe_written:
  assumes "fst (sendEvent h probe_event c) = Inr out" and "socket_open c"
  shows "let d = start_health_check h r c; q = length (promises c) in
    log d = log c @ [OSend (the (socket c)) out (json_stringify out)] \<and> frame_key out = probe_key \<and>
    promises d = promises c @ [Pending] \<and> conts d = conts c @ [(q, HealthStatus r (healthGeneration c))] \<and>
    (\<exists>w. jm_get (responseWaiters d) (get out ''id'') = Some w \<and> w_promise w = q)"
proof -
  obtain s where s: "socket c = Some s" using assms(2) by (auto simp: socket_open_def split: option.splits)
  obtain d where d: "sendEvent h probe_event c = (Inr out, d)" using assms(1) by (cases "sendEvent h probe_event c") simp
  from sendEvent_written [OF assms(1)] emits_sendEvent [of probe_key probe_event c h] d have "get out ''id'' \<noteq> JUndef"
    by (auto simp: emits_def)
  moreover from d have "log d = log c @ [OSend s out (json_stringify out)]" "frame_key out = probe_key"
      "promises d = promises c" "conts d = conts c" "healthGeneration d = healthGeneration c"
    by (auto simp: sendEvent_def s Let_def emitLog_def frame_key_outbound probe_key_def probe_event_def split: if_splits)
  ultimately show ?thesis
    using d assms(2) s
    by (auto simp: start_health_check_def requestStatus_probe requestResponse_def newPromise_def
        setTimeout_def await_def Let_def)
qed

text \<open>The check without a connection reconnects, or joins the reconnect that is under way.\<close>

lemma reconnect_promise:
  assumes "lastConnectArgs c \<noteq> None" and "\<not> explicitDisconnect c" and "reconnect c = (q, d)"
  shows "reconnectPromise d = Some q"
  using assms by (auto simp: reconnect_def Let_def newPromise_def await_def split: option.splits)

lemma reconnect_fields: "healthGeneration (snd (reconnect c)) = healthGeneration c"
  by (simp add: reconnect_def newPromise_def Let_def await_def loop_head_def schedule_attempt_def waitForReconnectDelay_def
      setTimeout_def emitError_upd resolve_unit_def settle_def split: option.split)

text \<open>C33. An operation on a connection that is missing, stale or under a health check, a status request included,
  writes no frame of its own: it is queued behind the health check, and its promise stays open. The check is the one
  under way, if there is one, and then nothing is written. Otherwise it is a new one: on an open socket it
  writes exactly the probe and waits for its answer, if the probe can be written, and without an open socket it
  writes nothing and waits for the reconnect, which is under way unless the client never connected or was
  disconnected.\<close>

theorem operation_deferred:
  assumes "healthCheckPromise c \<noteq> None \<or> \<not> socket_open c \<or> stale c"
  shows "\<exists>r d p es. afterHealthy h rq c = (r, d) \<and> promise_of d r = Pending \<and>
    healthCheckPromise d = Some p \<and> (p, RunOperation r rq) \<in> set (conts d) \<and> log d = log c @ es \<and>
    (if healthCheckPromise c \<noteq> None then healthCheckPromise c = Some p \<and> es = []
     else if socket_open c then
       (case fst (sendEvent h probe_event c) of
          Inl e \<Rightarrow> list_all no_frame es
        | Inr out \<Rightarrow> es = [OSend (the (socket c)) out (json_stringify out)] \<and> frame_key out = probe_key \<and>
            (\<exists>q w. (q, HealthStatus p (healthGeneration c)) \<in> set (conts d) \<and> promise_of d q = Pending \<and>
               jm_get (responseWaiters d) (get out ''id'') = Some w \<and> w_promise w = q))
     else list_all no_frame es \<and> (\<exists>q. (q, HealthReconnected p) \<in> set (conts d) \<and>
       (lastConnectArgs c \<noteq> None \<and> \<not> explicitDisconnect c \<longrightarrow> reconnectPromise d = Some q)))"
proof (cases "healthCheckPromise c")
  case (Some p)
  then show ?thesis
    by (auto simp: afterHealthy_def ensureHealthy_def newPromise_def await_def promise_of_def)
next
  case None
  let ?p = "length (promises c)" and ?c1 = "c\<lparr>promises := promises c @ [Pending]\<rparr>"
  let ?c2 = "start_health_check h ?p ?c1"
  let ?r = "length (promises ?c2)"
  let ?d = "await ?p (RunOperation ?r rq) (snd (newPromise Pending (await ?p HealthFinally (?c2\<lparr>healthCheckPromise := Some ?p\<rparr>))))"
  have d: "afterHealthy h rq c = (?r, ?d)"
    using None assms by (auto simp: afterHealthy_def ensureHealthy_def newPromise_def Let_def await_def)
  have basic: "promise_of ?d ?r = Pending" "healthCheckPromise ?d = Some ?p" "(?p, RunOperation ?r rq) \<in> set (conts ?d)"
      "log ?d = log ?c2" "set (conts ?c2) \<subseteq> set (conts ?d)" "responseWaiters ?d = responseWaiters ?c2"
      "reconnectPromise ?d = reconnectPromise ?c2" "q < ?r \<Longrightarrow> promise_of ?d q = promise_of ?c2 q" for q
    by (auto simp: await_def newPromise_def promise_of_def nth_append)
  have probe: "fst (sendEvent h probe_event ?c1) = fst (sendEvent h probe_event c)" by simp
  show ?thesis
  proof (cases "socket_open c")
    case True
    then have open1: "socket_open ?c1" by simp
    show ?thesis
    proof (cases "fst (sendEvent h probe_event c)")
      case (Inl e)
      obtain c3 where c3: "sendEvent h probe_event ?c1 = (Inl e, c3)"
        using Inl probe by (cases "sendEvent h probe_event ?c1") (simp del: sendEvent_promises)
      then have "?c2 = health_failed ?p (healthGeneration c) e c3"
        using open1 by (simp add: start_health_check_def requestStatus_probe requestResponse_def Let_def del: sendEvent_promises)
      moreover have "emits k 0 c c3" for k
        using c3 sendEvent_unwritten [OF Inl] sendEvent_conts [of h probe_event c] by (intro emits_same) auto
      ultimately have "emits k 0 c ?c2" for k by (metis emits_health_failed)
      then obtain es where "log ?c2 = log c @ es" "list_all no_frame es" using no_frames_written by blast
      with None True Inl d basic show ?thesis by auto
    next
      case (Inr out)
      from probe_written [of h ?c1 out ?p] probe Inr open1
      show ?thesis
        using None True d basic by (fastforce simp: Let_def promise_of_def nth_append)
    qed
  next
    case False
    obtain q c3 where q: "reconnect ?c1 = (q, c3)" by fastforce
    have c2: "?c2 = await q (HealthReconnected ?p) c3"
      using False q by (simp add: start_health_check_def health_reconnect_def)
    have "emits k 0 c (snd (reconnect ?c1))" for k by (rule emits_reconnect) (simp add: emits_same)
    then obtain es where "log c3 = log c @ es" "list_all no_frame es" using no_frames_written [of c c3] q by auto
    moreover have "reconnectPromise c3 = Some q" if "lastConnectArgs c \<noteq> None" "\<not> explicitDisconnect c"
      using reconnect_promise [OF _ _ q] that by simp
    ultimately show ?thesis
      using None False d basic c2 by (auto simp: await_def)
  qed
qed

theorem operation_deferred_witness:
  "\<exists>r d p q. afterHealthy demo_host (plain_request StatusRequest StatusResponse 100) (demo_open\<lparr>now := 25000\<rparr>) = (r, d) \<and>
     (p, RunOperation r (plain_request StatusRequest StatusResponse 100)) \<in> set (conts d) \<and>
     (q, HealthStatus p 1) \<in> set (conts d) \<and> healthCheckPromise d = Some p \<and> promise_of d q = Pending"
proof -
  let ?c = "demo_open\<lparr>now := 25000\<rparr>"
  have "stale ?c"
    by (simp add: stale_def demo_open_def new_client_def HEARTBEAT_INTERVAL_MS_def)
  moreover have "socket_open ?c" "healthCheckPromise ?c = None" "healthGeneration ?c = 1"
    by (simp_all add: socket_open_def demo_open_def new_client_def WEBSOCKET_OPEN_def)
  moreover obtain out where "fst (sendEvent demo_host probe_event ?c) = Inr out"
    by (simp add: sendEvent_def probe_event_def demo_open_def demo_host_def demo_state_def new_client_def WEBSOCKET_OPEN_def
        MAX_FRAME_def json_eval js_spread_def js_nullish_def nat_str_eval Let_def)
  ultimately show ?thesis
    using operation_deferred [of ?c demo_host "plain_request StatusRequest StatusResponse 100"] by auto
qed

section \<open>Departures from the specification\<close>

text \<open>C36. A departure from the tolerance of malformed frames: the frame \<open>null\<close> is valid JSON; the type test reads a
  property of it, outside the \<open>try\<close> around the parser, and the exception leaves the listener. Nothing else
  happens to the client.\<close>

theorem null_frame_uncaught:
  assumes "listening c s" and "ws_settled (sockets c ! s)" and "socket c = Some s"
  shows "act h (SockMessage s (JStr ''null'')) c = Some (emitLog (OUncaught type_error) c)"
proof -
  have "json_parse ''null'' = Some JNull"
    by (simp add: json_parse_def parse_simps parse_literal_def skip_ws_def json_ws_def)
  with assms show ?thesis
    by (simp add: messageHandler_def messageData_def is_object_def handleSocketMessage_def dataToString_def uncaught_def)
qed

theorem null_frame_uncaught_witness:
  "act demo_host (SockMessage 0 (JStr ''null'')) demo_open = Some (emitLog (OUncaught type_error) demo_open)"
proof -
  have "listening demo_open 0" "ws_settled (sockets demo_open ! 0)" "socket demo_open = Some 0"
    by (simp_all add: demo_open_def listening_def)
  then show ?thesis by (rule null_frame_uncaught)
qed

end
