(* ===== verification/Tool_Events.thy ===== *)
theory Tool_Events
  imports Tool_Properties Client_Behaviour
begin

text \<open>
  The tool's side of relay events: how its handlers come and go, what one inbound message leaves in the
  store and in the notifications, and that a notification callback cannot disturb either.
\<close>

section \<open>Registering and disposing\<close>

text \<open>
  The interface the tool uses to receive events: subscribing adds a handler to an event type once,
  unsubscribing removes it from that type.
\<close>

locale event_source =
  fixes sub :: "string \<Rightarrow> nat \<Rightarrow> 'c \<Rightarrow> 'c"
    and unsub :: "string \<Rightarrow> nat \<Rightarrow> 'c \<Rightarrow> 'c"
    and subs :: "'c \<Rightarrow> string \<Rightarrow> nat list"
  assumes subs_sub: "subs (sub ty x c) ty' = (if ty' = ty \<and> x \<notin> set (subs c ty) then subs c ty @ [x] else subs c ty')"
    and subs_unsub: "subs (unsub ty x c) ty' = (if ty' = ty then filter (\<lambda>y. y \<noteq> x) (subs c ty) else subs c ty')"
begin

definition sub_all :: "(string \<times> nat) list \<Rightarrow> 'c \<Rightarrow> 'c" where
  "sub_all = fold (\<lambda>(ty, x). sub ty x)"

definition unsub_all :: "(string \<times> nat) list \<Rightarrow> 'c \<Rightarrow> 'c" where
  "unsub_all = fold (\<lambda>(ty, x). unsub ty x)"

lemma subs_sub_all: "\<exists>ys. subs (sub_all rs c) ty = subs c ty @ ys \<and> (\<forall>y \<in> set ys. (ty, y) \<in> set rs)"
proof (induction rs arbitrary: c)
  case (Cons r rs)
  obtain ty' x where r: "r = (ty', x)" by fastforce
  obtain ys where "subs (sub_all rs (sub ty' x c)) ty = subs (sub ty' x c) ty @ ys" "\<forall>y \<in> set ys. (ty, y) \<in> set rs"
    using Cons by blast
  then show ?case by (cases "ty = ty' \<and> x \<notin> set (subs c ty')") (auto simp: r sub_all_def subs_sub)
qed (simp add: sub_all_def)

lemma subs_unsub_all: "subs (unsub_all rs c) ty = filter (\<lambda>y. (ty, y) \<notin> set rs) (subs c ty)"
proof (induction rs arbitrary: c)
  case (Cons r rs)
  obtain ty' x where r: "r = (ty', x)" by fastforce
  have "subs (unsub_all (r # rs) c) ty = filter (\<lambda>y. (ty, y) \<notin> set rs) (subs (unsub ty' x c) ty)"
    using Cons [of "unsub ty' x c"] by (simp add: r unsub_all_def)
  then show ?case by (auto simp: r subs_unsub intro: filter_cong)
qed (simp add: unsub_all_def)

lemma unsub_sub_all:
  assumes "\<And>ty x. (ty, x) \<in> set rs \<Longrightarrow> x \<notin> set (subs c ty)"
  shows "subs (unsub_all rs (sub_all rs c)) = subs c"
proof
  fix ty
  obtain ys where ys: "subs (sub_all rs c) ty = subs c ty @ ys" "\<forall>y \<in> set ys. (ty, y) \<in> set rs"
    using subs_sub_all by blast
  then have "filter (\<lambda>y. (ty, y) \<notin> set rs) ys = []" by (simp add: filter_empty_conv)
  moreover have "filter (\<lambda>y. (ty, y) \<notin> set rs) (subs c ty) = subs c ty"
    using assms by (auto simp: filter_id_conv)
  ultimately show "subs (unsub_all rs (sub_all rs c)) ty = subs c ty"
    by (simp add: subs_unsub_all ys(1))
qed

end

interpretation client_events: event_source on off handlers_of
  by unfold_locales (simp_all add: handlers_of_on handlers_of_off)

definition registered :: "(string \<times> nat) list" where
  "registered = map (\<lambda>(ty, k). (ty, hid_of k)) registrations"

lemma install_sub_all: "installRelayEventHandlers = client_events.sub_all registered"
  by (simp add: installRelayEventHandlers_def client_events.sub_all_def registered_def registrations_def)

lemma dispose_unsub_all: "disposeHandlers = client_events.unsub_all registered"
  by (simp add: disposeHandlers_def client_events.unsub_all_def registered_def registrations_def)

text \<open>C29. Disposing undoes the registration: on a client that knows none of the tool's handlers, installing them and
  disposing leaves the handlers of every event type as they were, and disposing at any time leaves none
  of the tool's handlers at the event types it registers for.\<close>

theorem dispose_roundtrip:
  assumes "list_all (\<lambda>(ty, k). hid_of k \<notin> set (handlers_of c ty)) registrations"
  shows "handlers_of (disposeHandlers (installRelayEventHandlers c)) = handlers_of c \<and>
    list_all (\<lambda>(ty, k). hid_of k \<notin> set (handlers_of (disposeHandlers d) ty)) registrations"
proof
  show "handlers_of (disposeHandlers (installRelayEventHandlers c)) = handlers_of c"
    unfolding install_sub_all dispose_unsub_all
    by (rule client_events.unsub_sub_all) (use assms in \<open>auto simp: registered_def list_all_iff\<close>)
  show "list_all (\<lambda>(ty, k). hid_of k \<notin> set (handlers_of (disposeHandlers d) ty)) registrations"
    by (auto simp: dispose_unsub_all client_events.subs_unsub_all registered_def list_all_iff)
qed

theorem dispose_roundtrip_witness:
  "handlers_of (disposeHandlers (installRelayEventHandlers demo_open)) ''message.send'' = []"
  using dispose_roundtrip [of demo_open demo_open]
  by (simp add: registrations_def handlers_of_def demo_open_def new_client_def)

section \<open>Inbound frames\<close>

definition is_tool :: "nat \<Rightarrow> bool" where
  "is_tool hid = (handler_of hid \<noteq> None)"

text \<open>The tool's handlers are registered for a type, in their order, whoever else listens besides.\<close>

definition attached :: "relay_client \<Rightarrow> string \<Rightarrow> bool" where
  "attached c ty = (filter is_tool (handlers_of c ty) = map (\<lambda>r. hid_of (snd r)) (filter (\<lambda>r. fst r = ty) registrations))"

text \<open>
  The tool hears an event on a socket: it is the open current one, the tool's handlers are still
  registered, and the handlers of others do not throw on the event.
\<close>

definition hears :: "tool_host \<Rightarrow> tool_context \<Rightarrow> nat \<Rightarrow> jsval \<Rightarrow> string \<Rightarrow> bool" where
  "hears h t s e ty =
     (socket (ctx_client t) = Some s \<and> listening (ctx_client t) s \<and> ws_settled (sockets (ctx_client t) ! s) \<and>
      attached (ctx_client t) ty \<and> attached (ctx_client t) ''*'' \<and>
      list_all (\<lambda>hid. is_tool hid \<or> handler_throws (relay h) hid e = None)
        (handlers_of (ctx_client t) ty @ handlers_of (ctx_client t) ''*''))"

definition handlers_for :: "string \<Rightarrow> tool_handler list" where
  "handlers_for ty = map snd (filter (\<lambda>r. fst r = ty) registrations)"

lemma no_star: "handlers_for ''*'' = []"
  by (simp add: handlers_for_def registrations_def)

lemma attached_handlers: "attached c ty \<Longrightarrow> filter is_tool (handlers_of c ty) = map hid_of (handlers_for ty)"
  by (simp add: attached_def handlers_for_def comp_def)

lemma fold_dispatched:
  "fold (run_effect h) (map (\<lambda>hid. ODispatch hid e) hs) t =
    fold (\<lambda>k u. snd (handle_event h k e u)) (map (the \<circ> handler_of) (filter is_tool hs)) t"
  by (induction hs arbitrary: t) (auto simp: is_tool_def)

text \<open>A frame the tool hears runs the handlers it registered for the type, on the client that has taken the event in.\<close>

lemma frame_taken:
  assumes h: "hears h t s e ty" and e: "json_parse txt = Some e" "get e ''type'' = JStr ty"
    and k: "\<And>k. k \<in> set (handlers_for ty) \<Longrightarrow> thrown k e = None"
  shows "\<exists>l. tool_act h (ClientAct (SockMessage s (JStr txt))) t =
    Some (fold (\<lambda>k u. snd (handle_event h k e u)) (handlers_for ty)
      (t\<lparr>ctx_client := (taken_in e (ctx_client t))\<lparr>log := l\<rparr>\<rparr>))"
proof -
  let ?c = "ctx_client t" and ?rh = "relay_host h"
  let ?hs = "handlers_of ?c ty @ handlers_of ?c ''*''"
  let ?d = "(taken_in e ?c)\<lparr>log := log ?c @ frame_effects ?rh e ty ?c\<rparr>"
  have tools: "filter is_tool ?hs = map hid_of (handlers_for ty)"
    using h attached_handlers [of ?c ty] attached_handlers [of ?c "''*''"] by (simp add: hears_def no_star)
  have silent: "handler_throws ?rh hid e = None" if hid: "hid \<in> set ?hs" for hid
  proof (cases "is_tool hid")
    case True
    with hid tools have "hid \<in> set (map hid_of (handlers_for ty))" by (simp flip: tools)
    with k show ?thesis by (auto simp: relay_host_def)
  next
    case False
    with h hid have "handler_throws (relay h) hid e = None" unfolding hears_def list_all_iff by blast
    with False show ?thesis by (simp add: relay_host_def is_tool_def)
  qed
  have "concat (map (handler_effects ?rh c0 ty' e) hs) = map (\<lambda>hid. ODispatch hid e) hs" if "set hs \<subseteq> set ?hs" for hs ty' c0
    using that silent by (induction hs) (simp_all add: handler_effects_def)
  then have effects: "frame_effects ?rh e ty ?c = map (\<lambda>hid. ODispatch hid e) ?hs"
    by (simp add: frame_effects_def)
  have "act ?rh (SockMessage s (JStr txt)) ?c = Some ?d"
    using h e by (intro received) (simp_all add: hears_def)
  moreover have "client_update h ?d t = fold (\<lambda>k u. snd (handle_event h k e u)) (handlers_for ty) (t\<lparr>ctx_client := ?d\<rparr>)"
    unfolding client_update_def by (simp add: effects fold_dispatched tools comp_def del: filter_append map_append)
  ultimately show ?thesis by (intro exI [of _ "log ?c @ frame_effects ?rh e ty ?c"]) (simp del: act.simps)
qed

section \<open>What the handlers tell the user\<close>

fun is_notified :: "notice \<Rightarrow> bool" where
  "is_notified (Notified m e) = True"
| "is_notified _ = False"

text \<open>Some notices were added, and these are the messages among them.\<close>

definition told :: "jsval \<Rightarrow> tool_context \<Rightarrow> tool_context \<Rightarrow> string list \<Rightarrow> bool" where
  "told e t u ms = (\<exists>ns. ctx_notes u = ctx_notes t @ ns \<and> filter is_notified ns = map (\<lambda>m. Notified m e) ms)"

lemma told_none [simp]: "told e t t []"
  by (simp add: told_def)

lemma told_trans: "told e t u ms \<Longrightarrow> told e u v ns \<Longrightarrow> told e t v (ms @ ns)"
  by (fastforce simp: told_def)

lemma told_fields [simp]:
  "told e (t\<lparr>ctx_client := c\<rparr>) u ms = told e t u ms" "told e (t\<lparr>ctx_pending := p\<rparr>) u ms = told e t u ms"
  by (simp_all add: told_def)

lemma notify_told: "onNotify h = Some f \<Longrightarrow> told e t (snd (notify h m e t)) [m]"
  by (auto simp: told_def notify_def reportNotifyError_def caught_def Let_def split: callback_outcome.split option.split)

lemma notify_sender_told:
  "onNotify h = Some f \<Longrightarrow> sender_text e = Some who \<Longrightarrow> told e t (snd (notify_sender h a b e t)) [a @ who @ b]"
  by (simp add: notify_sender_def notify_told)

fun said :: "string option \<Rightarrow> string \<Rightarrow> jsval \<Rightarrow> tool_handler \<Rightarrow> string list" where
  "said channelName who e AskHandler = (case ask_of e of None \<Rightarrow> [] | Some text \<Rightarrow> [''Device '' @ who @ '' asks: '' @ text])"
| "said channelName who e SendHandler = (case statement_of e of None \<Rightarrow> [] | Some text \<Rightarrow> [''Device '' @ who @ '' says: '' @ text])"
| "said channelName who e ReplyHandler =
     (case as_string (get (get e ''payload'') ''text'') of None \<Rightarrow> [] | Some text \<Rightarrow> [''Device '' @ who @ '' replied: '' @ text])"
| "said channelName who e JoinApprovedHandler = [''Join approved by '' @ who @ ''.'']"
| "said channelName who e JoinDeniedHandler = [''Join denied by '' @ who @ ''.'']"
| "said channelName who e JoinHandler =
     (case join_request e channelName [] of None \<Rightarrow> []
      | Some r \<Rightarrow> [join_message (jr_deviceName r) (the (jr_channelName r)) (jr_joinRequestId r)])"
| "said channelName who e k = []"

lemma join_request_time: "join_request e ch at = map_option (\<lambda>r. r\<lparr>jr_receivedAt := at\<rparr>) (join_request e ch [])"
  by (simp add: join_request_def join_fields_def split: option.split)

lemma handle_event_told:
  assumes f: "onNotify h = Some f" and who: "sender_text e = Some who"
  shows "told e t (snd (handle_event h k e t)) (said (ctx_channelName t) who e k)"
proof -
  have n: "ms = [m] \<Longrightarrow> told e t (snd (notify h m e (t\<lparr>ctx_pending := p\<rparr>))) ms" for m p ms
    using notify_told [OF f, of e "t\<lparr>ctx_pending := p\<rparr>" m] by simp
  have s: "ms = [a @ who @ b] \<Longrightarrow> told e t (snd (notify_sender h a b e (t\<lparr>ctx_pending := p\<rparr>))) ms" for a b p ms
    using notify_sender_told [OF f who, of "t\<lparr>ctx_pending := p\<rparr>" a b] by simp
  show ?thesis
    by (cases k)
      (simp_all add: askHandler_def sendHandler_def replyHandler_def joinApprovedHandler_def joinDeniedHandler_def
        inboxHandler_def ask_of_text statement_of_text addInboxEvent_eq joinHandler_eq join_request_time [of e _ "time_text t"]
        n s Let_def told_def [of e t "t\<lparr>ctx_pending := p\<rparr>" for p] split: option.split)
qed

lemma fold_handlers_told:
  assumes "onNotify h = Some f" and "sender_text e = Some who"
  shows "told e t (fold (\<lambda>k u. snd (handle_event h k e u)) ks t) (concat (map (said (ctx_channelName t) who e) ks))"
proof (induction ks arbitrary: t)
  case (Cons k ks)
  from told_trans [OF handle_event_told [OF assms] Cons [of "snd (handle_event h k e t)"]] show ?case by simp
qed simp

lemma fold_handlers_fields:
  "ctx_client (fold (\<lambda>k u. snd (handle_event h k e u)) ks t) = ctx_client t"
  "ctx_pending (fold (\<lambda>k u. snd (handle_event h k e u)) ks t) =
     fold pending_step (concat (map (\<lambda>k. filed (ctx_channelName t) (time_text t) k e) ks)) (ctx_pending t)"
proof (induction ks arbitrary: t)
  case (Cons k ks)
  {
    case 1
    show ?case using Cons(1) by simp
  next
    case 2
    show ?case using Cons(2) [of "snd (handle_event h k e t)"]
      by (simp add: handle_event_filed time_text_same [of "snd (handle_event h k e t)" t])
  }
qed simp_all

text \<open>All a frame does: to the store, to the client, to the user.\<close>

lemma frame_heard:
  assumes h: "hears h t s e ty" and e: "json_parse txt = Some e" "get e ''type'' = JStr ty"
    and k: "sender_text e \<noteq> None \<or> ty = ''join.request''"
  obtains u l where "tool_act h (ClientAct (SockMessage s (JStr txt))) t = Some u"
    "ctx_client u = (taken_in e (ctx_client t))\<lparr>log := l\<rparr>"
    "ctx_pending u = fold pending_step (concat (map (\<lambda>k. filed (ctx_channelName t) (iso_string (now (ctx_client t))) k e)
       (handlers_for ty))) (ctx_pending t)"
    "\<And>f who. onNotify h = Some f \<Longrightarrow> sender_text e = Some who \<Longrightarrow>
       told e t u (concat (map (said (ctx_channelName t) who e) (handlers_for ty)))"
    "\<exists>ns. ctx_notes u = ctx_notes t @ ns"
proof -
  have "thrown k e = None" if "k \<in> set (handlers_for ty)" for k
    using assms(4) that by (cases k) (auto simp: handlers_for_def registrations_def)
  then obtain l where l: "tool_act h (ClientAct (SockMessage s (JStr txt))) t =
      Some (fold (\<lambda>k u. snd (handle_event h k e u)) (handlers_for ty) (t\<lparr>ctx_client := (taken_in e (ctx_client t))\<lparr>log := l\<rparr>\<rparr>))"
    using frame_taken [OF h e] by blast
  let ?t = "t\<lparr>ctx_client := (taken_in e (ctx_client t))\<lparr>log := l\<rparr>\<rparr>"
  have "told e t (fold (\<lambda>k u. snd (handle_event h k e u)) (handlers_for ty) ?t)
      (concat (map (said (ctx_channelName t) who e) (handlers_for ty)))"
    if "onNotify h = Some f" "sender_text e = Some who" for f who
    using fold_handlers_told [OF that, of ?t] by simp
  moreover have "\<exists>ns. ctx_notes (fold (\<lambda>k u. snd (handle_event h k e u)) ks v) = ctx_notes v @ ns" for ks v
  proof (induction ks arbitrary: v)
    case (Cons k ks)
    have "\<exists>ns. ctx_notes (snd (notify h m e (v\<lparr>ctx_pending := p\<rparr>))) = ctx_notes v @ ns" for m p
      by (auto simp: notify_def reportNotifyError_def caught_def Let_def split: callback_outcome.split option.split)
    then have "\<exists>ns. ctx_notes (snd (handle_event h k e v)) = ctx_notes v @ ns"
      by (cases k) (auto simp: handler_defs notify_sender_def addInboxEvent_def split: option.split)
    with Cons [of "snd (handle_event h k e v)"] show ?case by fastforce
  qed simp
  moreover have "ctx_client (fold (\<lambda>k u. snd (handle_event h k e u)) (handlers_for ty) ?t) = (taken_in e (ctx_client t))\<lparr>log := l\<rparr>"
    by (subst fold_handlers_fields) simp
  moreover have "ctx_pending (fold (\<lambda>k u. snd (handle_event h k e u)) (handlers_for ty) ?t) =
      fold pending_step (concat (map (\<lambda>k. filed (ctx_channelName t) (iso_string (now (ctx_client t))) k e) (handlers_for ty))) (ctx_pending t)"
    by (subst fold_handlers_fields) (simp add: time_text_def taken_in_keeps)
  moreover have "\<exists>ns. ctx_notes (fold (\<lambda>k u. snd (handle_event h k e u)) (handlers_for ty) ?t) = ctx_notes t @ ns"
    using calculation(2) [of "handlers_for ty" ?t] by simp
  ultimately show thesis by (intro that [OF l])
qed

text \<open>The tool that has just connected hears what its socket brings.\<close>

lemma demo_handlers_of:
  "handlers_of (ctx_client demo_tool_opening) = handlers_of (installRelayEventHandlers (new_client demo_config None 0))"
  by (intro ext) (simp add: demo_tool_opening_def handlers_of_def tool_handlers_def)

lemma handlers_of_new: "handlers_of (new_client cfg delay t) ty = []"
  by (simp add: handlers_of_def new_client_def)

lemma handlers_of_install:
  assumes "handlers_of c ''message.send'' = []" and "handlers_of c ''*'' = []"
  shows "handlers_of (installRelayEventHandlers c) ''message.send'' = [0, 1]"
    and "handlers_of (installRelayEventHandlers c) ''*'' = []"
  using assms by (simp_all add: installRelayEventHandlers_def registrations_def handlers_of_on)

lemma handler_of_simps [simp]:
  "handler_of 0 = Some AskHandler" "handler_of (Suc 0) = Some SendHandler" "handler_of 8 = Some JoinHandler"
  by (simp_all add: handler_of_def all_handlers_def)

lemma demo_attached:
  "handlers_of (ctx_client demo_tool_opening) ''message.send'' = [0, 1]"
  "handlers_of (ctx_client demo_tool_opening) ''join.request'' = [8]"
  "handlers_of (ctx_client demo_tool_opening) ''*'' = []"
  by (simp_all add: demo_handlers_of installRelayEventHandlers_def registrations_def handlers_of_on handlers_of_new)

lemma demo_listens:
  "socket (ctx_client demo_tool_opening) = Some 0" "listening (ctx_client demo_tool_opening) 0"
  "ws_settled (sockets (ctx_client demo_tool_opening) ! 0)"
  by (simp_all add: demo_tool_opening_def demo_open_def listening_def)

lemma demo_hears:
  "hears h demo_tool_opening 0 e ''message.send''" "hears h demo_tool_opening 0 e ''join.request''"
  by (simp_all add: hears_def demo_listens attached_def demo_attached registrations_def is_tool_def)

section \<open>One inbound message\<close>

lemma record_reply_target_records:
  assumes "get e ''id'' = JStr i" and "get e ''from'' = JStr who" and "st_deviceId (client_state c) \<noteq> Some who"
  shows "jm_get (replyTargets (taken_in e c)) (JStr i) = Some (JStr who)"
proof -
  have "st_deviceId (client_state (resolveResponseWaiter e (applyStateEvent e (recordRelayActivity c)))) = st_deviceId (client_state c)"
    by (simp add: upd applyStateEvent_def resolveResponseWaiter_def resolve_waiter_def drop_waiter_def clearTimeout_def
        settle_def Let_def split: option.split)
  with assms show ?thesis
    by (simp add: taken_in_def record_reply_target_def opt_str_def split: option.split)
qed

text \<open>C12. A message that reaches a tool is taken exactly once, whichever of its two handlers for \<open>message.send\<close>
  or the one for \<open>message.ask\<close> takes it. The frame of such a message with a text, an id and a sender, on a
  connection the tool hears (\<open>hears\<close>: its handlers are registered, and those of others do not throw), leaves
  one inbox item under its id, one notification that names the sender and the text, and, when it asks, an ask
  under its id; the other asks and the join requests stay. Unless it comes from the device itself, the message can
  be replied to: a reply to its id goes out to its sender.\<close>

theorem inbound_message:
  assumes h: "hears h t s e ty" and ty: "ty \<in> {''message.send'', ''message.ask''}"
    and e: "json_parse txt = Some e" "get e ''type'' = JStr ty" "get (get e ''payload'') ''text'' = JStr text"
      "get e ''from'' = JStr who" "get e ''id'' = JStr i"
    and f: "onNotify h = Some f"
  shows "\<exists>u ns. tool_act h (ClientAct (SockMessage s (JStr txt))) t = Some u \<and>
    (let asks_for = (ty = ''message.ask'' \<or> get (get e ''payload'') ''kind'' = JStr ''ask'');
         at = iso_string (now (ctx_client t)) in
      asks (ctx_pending u) = (if asks_for then asks (addAsk (ask_item e text at) (ctx_pending t)) else asks (ctx_pending t)) \<and>
      inbox (ctx_pending u) = inbox (addInbox (inbox_item e (Some text) at) (ctx_pending t)) \<and>
      joinRequests (ctx_pending u) = joinRequests (ctx_pending t) \<and>
      ctx_notes u = ctx_notes t @ ns \<and>
      filter is_notified ns = [Notified (''Device '' @ who @ (if asks_for then '' asks: '' else '' says: '') @ text) e]) \<and>
    (st_deviceId (client_state (ctx_client t)) \<noteq> Some who \<longrightarrow>
      reply rh i m timeout (ctx_client u) = afterHealthy rh (message_request
        (message_event MessageReply (JStr who) [(''replyTo'', JStr i)] m ''reply'') timeout) (ctx_client u))"
proof -
  have who: "sender_text e = Some who" by (simp add: sender_text_def js_nullish_def e)
  obtain u l where u: "tool_act h (ClientAct (SockMessage s (JStr txt))) t = Some u"
      "ctx_client u = (taken_in e (ctx_client t))\<lparr>log := l\<rparr>"
      "ctx_pending u = fold pending_step (concat (map (\<lambda>k. filed (ctx_channelName t) (iso_string (now (ctx_client t))) k e)
         (handlers_for ty))) (ctx_pending t)"
      "told e t u (concat (map (said (ctx_channelName t) who e) (handlers_for ty)))"
    using frame_heard [OF h e(1,2)] who f by (metis option.distinct(1))
  have ks: "handlers_for ty = (if ty = ''message.ask'' then [AskHandler] else [AskHandler, SendHandler])"
    using ty by (auto simp: handlers_for_def registrations_def)
  have texts: "ask_of e = (if ty = ''message.ask'' \<or> get (get e ''payload'') ''kind'' = JStr ''ask'' then Some text else None)"
      "statement_of e = (if get (get e ''payload'') ''kind'' = JStr ''ask'' then None else Some text)"
    by (auto simp: ask_of_def statement_of_def e)
  have "reply rh i m timeout (ctx_client u) = afterHealthy rh (message_request
        (message_event MessageReply (JStr who) [(''replyTo'', JStr i)] m ''reply'') timeout) (ctx_client u)"
    if "st_deviceId (client_state (ctx_client t)) \<noteq> Some who"
    using record_reply_target_records [OF e(5,4) that] by (simp add: reply_def u(2))
  moreover obtain ns where "ctx_notes u = ctx_notes t @ ns"
      "filter is_notified ns = map (\<lambda>m. Notified m e) (concat (map (said (ctx_channelName t) who e) (handlers_for ty)))"
    using u(4) by (auto simp: told_def)
  ultimately show ?thesis
    using u(1,3) by (auto simp: ks texts Let_def addInbox_def addAsk_def simp del: tool_act.simps)
qed

text \<open>The message arrives at the tool that has just connected.\<close>

definition demo_ask :: jsval where
  "demo_ask = JObj [(''type'', JStr ''message.send''), (''id'', JStr ''m1''), (''from'', JStr ''b''),
     (''payload'', JObj [(''text'', JStr ''hi''), (''kind'', JStr ''ask'')])]"

lemma demo_ask_parsed: "json_parse (json_stringify demo_ask) = Some demo_ask"
  using json_roundtrip [of demo_ask] by (simp add: demo_ask_def)

lemma demo_ask_fields:
  "get demo_ask ''type'' = JStr ''message.send''" "get (get demo_ask ''payload'') ''text'' = JStr ''hi''"
  "get demo_ask ''from'' = JStr ''b''" "get demo_ask ''id'' = JStr ''m1''" "get (get demo_ask ''payload'') ''kind'' = JStr ''ask''"
  by (simp_all add: demo_ask_def)

theorem inbound_message_witness:
  "\<exists>u. tool_act demo_tool_host (ClientAct (SockMessage 0 (JStr (json_stringify demo_ask)))) demo_tool_opening = Some u \<and>
     getAsk (ctx_pending u) (JStr ''m1'') \<noteq> None \<and>
     reply demo_host ''m1'' ''yes'' 100 (ctx_client u) = afterHealthy demo_host (message_request
        (message_event MessageReply (JStr ''b'') [(''replyTo'', JStr ''m1'')] ''yes'' ''reply'') 100) (ctx_client u)"
proof -
  have h: "hears demo_tool_host demo_tool_opening 0 demo_ask ''message.send''" by (rule demo_hears)
  have f: "onNotify demo_tool_host = Some (\<lambda>m e. Returns)" by (simp add: demo_tool_host_def)
  have d: "st_deviceId (client_state (ctx_client demo_tool_opening)) \<noteq> Some ''b''"
    by (simp add: demo_tool_opening_def demo_open_def demo_state_def)
  let ?at = "iso_string (now (ctx_client demo_tool_opening))"
  obtain u where "tool_act demo_tool_host (ClientAct (SockMessage 0 (JStr (json_stringify demo_ask)))) demo_tool_opening = Some u"
      "asks (ctx_pending u) = asks (addAsk (ask_item demo_ask ''hi'' ?at) (ctx_pending demo_tool_opening))"
      "reply demo_host ''m1'' ''yes'' 100 (ctx_client u) = afterHealthy demo_host (message_request
        (message_event MessageReply (JStr ''b'') [(''replyTo'', JStr ''m1'')] ''yes'' ''reply'') 100) (ctx_client u)"
    using inbound_message [OF h _ demo_ask_parsed demo_ask_fields(1-4) f, of demo_host "''yes''" 100] d
    by (auto simp: Let_def demo_ask_fields(5) simp del: tool_act.simps)
  moreover from this(2) have "getAsk (ctx_pending u) (JStr ''m1'') \<noteq> None"
    by (simp add: getAsk_def addAsk_def ask_item_def demo_ask_fields(4))
  ultimately show ?thesis by blast
qed

section \<open>One join request\<close>

text \<open>C28. A join request that reaches a tool is recorded and announced when it can be decided, and ignored otherwise.
  When its frame has an id, a device, a device name and a channel, all texts that are not blank, the store has a request
  under that id with exactly these and the name of the channel the tool connected to, every other join
  request stays, and the user gets one notification that names the device and the id to decide with.
  When one of the four is missing, blank or no text, the store is as it was and nobody is told anything. The inbox
  and the asks stay in any case.\<close>

theorem join_request_recorded:
  assumes h: "hears h t s e ''join.request''" and e: "json_parse txt = Some e" "get e ''type'' = JStr ''join.request''"
    and f: "onNotify h = Some f"
  shows "\<exists>u ns. tool_act h (ClientAct (SockMessage s (JStr txt))) t = Some u \<and> ctx_notes u = ctx_notes t @ ns \<and>
    asks (ctx_pending u) = asks (ctx_pending t) \<and> inbox (ctx_pending u) = inbox (ctx_pending t) \<and>
    (\<forall>q d dn ch. join_fields e = [JStr q, JStr d, JStr dn, JStr ch] \<and> \<not> blank q \<and> \<not> blank d \<and> \<not> blank dn \<and> \<not> blank ch \<longrightarrow>
       getJoinRequest (ctx_pending u) q = Some \<lparr>jr_id = q, jr_joinRequestId = q, jr_deviceId = d, jr_deviceName = dn,
         jr_channelId = Some ch, jr_channelName = Some (nullish_or (ctx_channelName t) ch),
         jr_receivedAt = iso_string (now (ctx_client t))\<rparr> \<and>
       (\<forall>j. j \<noteq> q \<longrightarrow> getJoinRequest (ctx_pending u) j = getJoinRequest (ctx_pending t) j) \<and>
       filter is_notified ns = [Notified (join_message dn (nullish_or (ctx_channelName t) ch) q) e]) \<and>
    (list_ex (\<lambda>v. case v of JStr x \<Rightarrow> blank x | _ \<Rightarrow> True) (join_fields e) \<longrightarrow>
       ctx_pending u = ctx_pending t \<and> filter is_notified ns = [])"
proof -
  have ks: "handlers_for ''join.request'' = [JoinHandler]" by (simp add: handlers_for_def registrations_def)
  obtain l where l: "tool_act h (ClientAct (SockMessage s (JStr txt))) t =
      Some (snd (joinHandler h e (t\<lparr>ctx_client := (taken_in e (ctx_client t))\<lparr>log := l\<rparr>\<rparr>)))"
    using frame_taken [OF h e] by (auto simp: ks)
  let ?t = "t\<lparr>ctx_client := (taken_in e (ctx_client t))\<lparr>log := l\<rparr>\<rparr>"
  have at: "time_text ?t = iso_string (now (ctx_client t))" by (simp add: time_text_def taken_in_keeps)
  show ?thesis
  proof (cases "join_request e (ctx_channelName t) (iso_string (now (ctx_client t)))")
    case None
    then have n: "\<not> (join_fields e = [JStr q, JStr d, JStr dn, JStr ch] \<and> \<not> blank q \<and> \<not> blank d \<and> \<not> blank dn \<and> \<not> blank ch)"
      for q d dn ch by (auto simp: join_request_def split: if_splits)
    have "snd (joinHandler h e ?t) = ?t" using None at by (simp add: joinHandler_eq)
    with l n show ?thesis by (intro exI [of _ ?t] exI [of _ "[]"]) (simp del: tool_act.simps)
  next
    case (Some r)
    then obtain q d dn ch where r: "join_fields e = [JStr q, JStr d, JStr dn, JStr ch]"
        "\<not> blank q" "\<not> blank d" "\<not> blank dn" "\<not> blank ch"
        "r = \<lparr>jr_id = q, jr_joinRequestId = q, jr_deviceId = d, jr_deviceName = dn, jr_channelId = Some ch,
           jr_channelName = Some (nullish_or (ctx_channelName t) ch), jr_receivedAt = iso_string (now (ctx_client t))\<rparr>"
      by (auto simp: join_request_def join_fields_def split: option.splits if_splits)
    let ?u = "snd (joinHandler h e ?t)" and ?m = "join_message dn (nullish_or (ctx_channelName t) ch) q"
    have u: "?u = snd (notify h ?m e (?t\<lparr>ctx_pending := addJoinRequest r (ctx_pending t)\<rparr>))"
      using Some at r(6) by (simp add: joinHandler_eq)
    obtain ns where "ctx_notes ?u = ctx_notes t @ ns" "filter is_notified ns = [Notified ?m e]"
      using notify_told [OF f, of e "?t\<lparr>ctx_pending := addJoinRequest r (ctx_pending t)\<rparr>" ?m] u by (auto simp: told_def)
    moreover have "ctx_pending ?u = addJoinRequest r (ctx_pending t)" by (simp add: u)
    ultimately show ?thesis
      using l r by (intro exI [of _ ?u] exI [of _ ns]) (auto simp: addJoinRequest_def getJoinRequest_def simp del: tool_act.simps)
  qed
qed

definition demo_join :: jsval where
  "demo_join = JObj [(''type'', JStr ''join.request''), (''channelId'', JStr ''c1''),
     (''payload'', JObj [(''joinRequestId'', JStr ''q''), (''deviceId'', JStr ''b''), (''deviceName'', JStr ''n'')])]"

theorem join_request_recorded_witness:
  "\<exists>u. tool_act demo_tool_host (ClientAct (SockMessage 0 (JStr (json_stringify demo_join)))) demo_tool_opening = Some u \<and>
     map_option jr_deviceName (getJoinRequest (ctx_pending u) ''q'') = Some ''n''"
proof -
  have p: "json_parse (json_stringify demo_join) = Some demo_join"
    using json_roundtrip [of demo_join] by (simp add: demo_join_def)
  have t: "get demo_join ''type'' = JStr ''join.request''" by (simp add: demo_join_def)
  have j: "join_fields demo_join = [JStr ''q'', JStr ''b'', JStr ''n'', JStr ''c1'']"
      "\<not> blank ''q''" "\<not> blank ''b''" "\<not> blank ''n''" "\<not> blank ''c1''"
    by (simp_all add: join_fields_def demo_join_def blank_plain plain_char_def)
  have f: "onNotify demo_tool_host = Some (\<lambda>m e. Returns)" by (simp add: demo_tool_host_def)
  have h: "hears demo_tool_host demo_tool_opening 0 demo_join ''join.request''" by (rule demo_hears)
  from join_request_recorded [OF h p t f] j show ?thesis by (fastforce simp del: tool_act.simps)
qed

end
