(* ===== verification/Tool_Callbacks.thy ===== *)
theory Tool_Callbacks
  imports Tool_Events
begin

text \<open>
  The user's callbacks cannot disturb the tool: a run with callbacks, whatever they do, is a run of the tool
  without any, once the notices and the rejections still to be caught are left out of the picture.
\<close>

section \<open>The tool without callbacks\<close>

definition muted :: "tool_host \<Rightarrow> tool_host" where
  "muted h = h\<lparr>onNotify := None, onNotifyError := None\<rparr>"

definition stripped :: "tool_context \<Rightarrow> tool_context" where
  "stripped t = t\<lparr>ctx_notes := [], ctx_rejections := []\<rparr>"

lemma stripped_fields [simp]:
  "ctx_client (stripped t) = ctx_client t" "ctx_pending (stripped t) = ctx_pending t"
  "ctx_channelName (stripped t) = ctx_channelName t" "ctx_calls (stripped t) = ctx_calls t"
  "ctx_waiting (stripped t) = ctx_waiting t" "time_text (stripped t) = time_text t"
  by (simp_all add: stripped_def time_text_def)

lemma stripped_eq:
  "stripped t = u \<longleftrightarrow> ctx_client t = ctx_client u \<and> ctx_pending t = ctx_pending u \<and> ctx_channelName t = ctx_channelName u \<and>
     ctx_calls t = ctx_calls u \<and> ctx_waiting t = ctx_waiting u \<and> ctx_notes u = [] \<and> ctx_rejections u = []"
  by (cases t; cases u) (auto simp: stripped_def)

lemma muted_relay [simp]: "relay (muted h) = relay h"
  by (simp add: muted_def)

lemma muted_relay_host [simp]: "relay_host (muted h) = relay_host h"
  by (simp only: relay_host_def muted_relay)

lemma muted_notify [simp]: "notify (muted h) m e t = (None, t)"
  by (simp add: notify_def muted_def)

lemma muted_sender: "snd (notify_sender (muted h) a b e t) = t"
  by (simp add: notify_sender_def split: option.split)

lemma muted_handler_notes:
  "ctx_notes (snd (handle_event (muted h) k e t)) = ctx_notes t \<and>
   ctx_rejections (snd (handle_event (muted h) k e t)) = ctx_rejections t"
  by (cases k) (simp_all add: handler_defs muted_sender addInboxEvent_def split: option.split)

lemma stripped_handle: "stripped (snd (handle_event h k e t)) = snd (handle_event (muted h) k e (stripped t))"
  unfolding stripped_eq
  by (simp add: muted_handler_notes handle_event_filed) (simp add: stripped_def)

lemma stripped_effect: "stripped (run_effect h x t) = run_effect (muted h) x (stripped t)"
  by (cases x) (simp_all add: stripped_handle split: option.split)

lemma stripped_effects: "stripped (fold (run_effect h) xs t) = fold (run_effect (muted h)) xs (stripped t)"
  by (induction xs arbitrary: t) (simp_all add: stripped_effect)

lemma stripped_client: "(stripped t)\<lparr>ctx_client := c\<rparr> = stripped (t\<lparr>ctx_client := c\<rparr>)"
  by (simp add: stripped_def)

lemma stripped_update: "client_update (muted h) c (stripped t) = stripped (client_update h c t)"
  by (simp add: client_update_def stripped_effects stripped_client)

lemma stripped_answer: "answer x (stripped t) = stripped (answer x t)"
  by (simp add: answer_def stripped_def)

lemma stripped_waiting: "(stripped t)\<lparr>ctx_waiting := w\<rparr> = stripped (t\<lparr>ctx_waiting := w\<rparr>)"
  "(stripped t)\<lparr>ctx_pending := p\<rparr> = stripped (t\<lparr>ctx_pending := p\<rparr>)"
  "(stripped t)\<lparr>ctx_calls := cs\<rparr> = stripped (t\<lparr>ctx_calls := cs\<rparr>)"
  "(stripped t)\<lparr>ctx_channelName := ch\<rparr> = stripped (t\<lparr>ctx_channelName := ch\<rparr>)"
  by (simp_all add: stripped_def)

lemmas stripped_steps = stripped_update stripped_answer stripped_waiting stripped_client

lemma stripped_await: "await_client (muted h) f k (stripped t) = stripped (await_client h f k t)"
  by (simp add: await_client_def stripped_steps Let_def split: prod.split)

lemma stripped_input: "run_input (muted h) i (stripped t) = stripped (run_input h i t)"
  by (cases i) (simp_all add: stripped_await stripped_steps Let_def split: option.split prod.split sum.split)

lemma stripped_execute: "execute (muted h) v (stripped t) = stripped (execute h v t)"
  by (simp add: execute_def stripped_input stripped_answer split: sum.split)

lemma stripped_response:
  "after_response k r (stripped t) = map_option (\<lambda>(x, u). (x, stripped u)) (after_response k r t)"
  by (cases k) (simp_all add: delivery_def stripped_steps Let_def)

lemma stripped_connect:
  "after_connect ch prev r (stripped t) = (case after_connect ch prev r t of (x, u) \<Rightarrow> (x, stripped u))"
  by (simp add: after_connect_def connected_def stripped_steps Let_def)

lemma stripped_after: "after_await k res (stripped t) = (case after_await k res t of (x, u) \<Rightarrow> (x, stripped u))"
  by (cases "(k, res, t)" rule: after_await.cases)
    (simp_all add: stripped_response stripped_connect split: option.split prod.split)

lemma stripped_continue: "continue w res (stripped t) = stripped (continue w res t)"
  by (simp add: continue_def stripped_after stripped_steps split: prod.split)

fun is_catch :: "tool_action \<Rightarrow> bool" where
  "is_catch (CatchRejection i) = True"
| "is_catch a = False"

lemma stripped_act:
  assumes "tool_act h a t = Some u"
  shows "if is_catch a then stripped u = stripped t else tool_act (muted h) a (stripped t) = Some (stripped u)"
proof (cases a)
  case (CatchRejection i)
  with assms obtain err m e where "u = snd (reportNotifyError h err m e (t\<lparr>ctx_rejections := remove_nth i (ctx_rejections t)\<rparr>))"
    by (auto elim: catch_rejection simp del: tool_act.simps)
  then have "stripped u = stripped t" unfolding stripped_eq by simp (simp add: stripped_def)
  with CatchRejection show ?thesis by simp
qed (use assms in \<open>auto simp: stripped_execute stripped_continue stripped_steps split: option.splits if_splits\<close>)

lemma stripped_run:
  "run_actions (tool_act h) as t = Some u \<Longrightarrow>
   run_actions (tool_act (muted h)) (filter (\<lambda>a. \<not> is_catch a) as) (stripped t) = Some (stripped u)"
proof (induction as arbitrary: t)
  case (Cons a as)
  then obtain v where v: "tool_act h a t = Some v" "run_actions (tool_act h) as v = Some u"
    by (auto split: option.splits)
  from stripped_act [OF v(1)] Cons.IH [OF v(2)] show ?case by (auto split: if_splits)
qed simp

section \<open>Errors of the callbacks\<close>

fun unhandled :: "notice \<Rightarrow> bool" where
  "unhandled (Unhandled x) = True"
| "unhandled n = False"

definition all_handled :: "tool_context \<Rightarrow> bool" where
  "all_handled t = list_all (\<lambda>n. \<not> unhandled n) (ctx_notes t)"

lemma all_handled_fields [simp]:
  "all_handled (t\<lparr>ctx_client := c\<rparr>) = all_handled t" "all_handled (t\<lparr>ctx_pending := p\<rparr>) = all_handled t"
  "all_handled (t\<lparr>ctx_rejections := r\<rparr>) = all_handled t" "all_handled (t\<lparr>ctx_calls := cs\<rparr>) = all_handled t"
  "all_handled (t\<lparr>ctx_waiting := w\<rparr>) = all_handled t" "all_handled (t\<lparr>ctx_channelName := ch\<rparr>) = all_handled t"
  by (simp_all add: all_handled_def)

lemma report_handled [simp]: "all_handled (snd (reportNotifyError h x m e t)) = all_handled t"
  by (auto simp: all_handled_def reportNotifyError_def caught_def Let_def split: option.split callback_outcome.split)

lemma notify_handled [simp]: "all_handled (snd (notify h m e t)) = all_handled t"
proof (cases "onNotify h")
  case (Some f)
  let ?t = "t\<lparr>ctx_notes := ctx_notes t @ [Notified m e]\<rparr>"
  have "all_handled ?t = all_handled t" by (simp add: all_handled_def)
  with Some show ?thesis
    by (cases "f m e") (simp_all add: notify_def caught_def Let_def)
qed (simp add: notify_def)

lemma handle_event_handled [simp]: "all_handled (snd (handle_event h k e t)) = all_handled t"
  by (cases k) (simp_all add: handler_defs notify_sender_def addInboxEvent_def split: option.split)

lemma client_update_handled [simp]: "all_handled (client_update h c t) = all_handled t"
proof -
  have "all_handled (run_effect h x t) = all_handled t" for x t
    by (cases x) (simp_all split: option.split)
  then have "all_handled (fold (run_effect h) xs t) = all_handled t" for xs t
    by (induction xs arbitrary: t) simp_all
  then show ?thesis by (simp add: client_update_def)
qed

lemma run_input_handled [simp]: "all_handled (run_input h i t) = all_handled t"
  by (cases i) (simp_all add: await_client_def answer_def Let_def split: option.split prod.split sum.split)

lemma continue_handled [simp]: "all_handled (continue w res t) = all_handled t"
  by (cases w) (auto simp: all_handled_def continue_def split: prod.split dest: after_await_fields(5))

lemma act_handled: "all_handled t \<Longrightarrow> tool_act h a t = Some u \<Longrightarrow> all_handled u"
proof (cases a)
  case (CatchRejection i)
  assume "all_handled t" and "tool_act h a t = Some u"
  with CatchRejection show ?thesis by (auto elim!: catch_rejection simp del: tool_act.simps)
qed (auto simp: execute_def answer_def split: sum.splits option.splits if_splits)

interpretation handled_runs: invariant_system "tool_act h" all_handled for h
  by unfold_locales (rule act_handled)

text \<open>C27. Notification callbacks are isolated. Whatever the two callbacks do in a run, return, throw or reject, the error
  callback included, the run is one of the same tool without callbacks: apart from the notices and the rejections that
  wait for their \<open>catch\<close>, every call, the client, the store and the channel name come out the same. What a
  handler throws into the client does not depend on them either, notifying itself never throws, and no error of a
  callback is left unhandled.\<close>

theorem notify_isolated:
  assumes "run_actions (tool_act h) as t = Some u" and "all_handled t"
  shows "run_actions (tool_act (h\<lparr>onNotify := None, onNotifyError := None\<rparr>)) (filter (\<lambda>a. \<not> is_catch a) as) (stripped t) =
      Some (stripped u) \<and>
    (\<forall>k e v. fst (handle_event h k e v) = fst (handle_event (h\<lparr>onNotify := None, onNotifyError := None\<rparr>) k e v)) \<and>
    (\<forall>m e v. fst (notify h m e v) = None) \<and> all_handled u"
  using stripped_run [OF assms(1)] handled_runs.run_inv [OF assms]
  by (simp add: handle_event_throws muted_def)

text \<open>Both callbacks throw, and the message is taken as without them.\<close>

definition loud_host :: tool_host where
  "loud_host = demo_tool_host\<lparr>onNotify := Some (\<lambda>m e. Throws JNull), onNotifyError := Some (\<lambda>x m e. Throws JNull)\<rparr>"

theorem notify_isolated_witness:
  "\<exists>u. run_actions (tool_act loud_host) [ClientAct (SockMessage 0 (JStr (json_stringify demo_ask)))] demo_tool_opening = Some u \<and>
     run_actions (tool_act (loud_host\<lparr>onNotify := None, onNotifyError := None\<rparr>))
       [ClientAct (SockMessage 0 (JStr (json_stringify demo_ask)))] (stripped demo_tool_opening) = Some (stripped u) \<and>
     getAsk (ctx_pending (stripped u)) (JStr ''m1'') \<noteq> None"
proof -
  have f: "onNotify loud_host = Some (\<lambda>m e. Throws JNull)" by (simp add: loud_host_def)
  have "sender_text demo_ask = Some ''b''" by (simp add: sender_text_def js_nullish_def demo_ask_fields)
  then obtain u where u: "tool_act loud_host (ClientAct (SockMessage 0 (JStr (json_stringify demo_ask)))) demo_tool_opening = Some u"
      and p: "ctx_pending u = fold pending_step (concat (map (\<lambda>k. filed (ctx_channelName demo_tool_opening)
        (iso_string (now (ctx_client demo_tool_opening))) k demo_ask) (handlers_for ''message.send''))) (ctx_pending demo_tool_opening)"
    using frame_heard [OF demo_hears(1) demo_ask_parsed demo_ask_fields(1), of loud_host] by (metis option.distinct(1))
  have "getAsk (ctx_pending u) (JStr ''m1'') \<noteq> None"
    by (simp add: p handlers_for_def registrations_def ask_of_def statement_of_def demo_ask_fields getAsk_def addAsk_def addInbox_def
        ask_item_def)
  moreover have run: "run_actions (tool_act loud_host) [ClientAct (SockMessage 0 (JStr (json_stringify demo_ask)))] demo_tool_opening = Some u"
    using u by (simp del: tool_act.simps)
  moreover have "all_handled demo_tool_opening"
    by (simp add: all_handled_def demo_tool_opening_def demo_tool_def tool_on_def)
  note notify_isolated [OF run this]
  ultimately show ?thesis by (simp del: tool_act.simps)
qed

end
