(* ===== verification/Listeners.thy ===== *)
theory Listeners
  imports Client_Sound
begin

text \<open>
  The listeners of a socket (\<open>addSocketListener\<close>, \<open>combineCleanups\<close> and their use in \<open>openSocket\<close>,
  \<open>extension/src/client/relay-client.ts\<close>). A socket offers the methods of an \<open>EventTarget\<close>, those of an
  \<open>EventEmitter\<close>, or only some of them. The client's model keeps one flag, \<open>ws_listening\<close>, for all of this; here is why
  the flag is enough.
\<close>

section \<open>Sockets and their methods\<close>

datatype ws_event = OpenEvent | MessageEvent | CloseEvent | ErrorEvent

text \<open>Which of the optional methods of \<open>WebSocketLike\<close> are there.\<close>

record listener_api =
  has_addEventListener :: bool
  has_removeEventListener :: bool
  has_on :: bool
  has_off :: bool
  has_removeListener :: bool

text \<open>Calls of these methods with a handler; a handler is the number of its closure.\<close>

datatype listener_call =
    AddEventListener ws_event nat
  | RemoveEventListener ws_event nat
  | AddOn ws_event nat
  | RemoveOff ws_event nat
  | RemoveListener ws_event nat

text \<open>
  The listeners a socket holds, in the order they run. An \<open>EventTarget\<close> ignores a listener it has already, an
  \<open>EventEmitter\<close> adds it once more and removes the one added last.
\<close>

fun remove_last :: "'a \<Rightarrow> 'a list \<Rightarrow> 'a list" where
  "remove_last x [] = []"
| "remove_last x (y # ys) = (if x \<in> set ys then y # remove_last x ys else if x = y then ys else y # ys)"

fun listener_step :: "listener_call \<Rightarrow> (ws_event \<times> nat) list \<Rightarrow> (ws_event \<times> nat) list" where
  "listener_step (AddEventListener ev x) ls = (if (ev, x) \<in> set ls then ls else ls @ [(ev, x)])"
| "listener_step (RemoveEventListener ev x) ls = removeAll (ev, x) ls"
| "listener_step (AddOn ev x) ls = ls @ [(ev, x)]"
| "listener_step (RemoveOff ev x) ls = remove_last (ev, x) ls"
| "listener_step (RemoveListener ev x) ls = remove_last (ev, x) ls"

section \<open>The code\<close>

text \<open>A registration makes a call and returns a closure; the closure is the calls it makes when it runs.\<close>

definition addSocketListener :: "listener_api \<Rightarrow> ws_event \<Rightarrow> nat \<Rightarrow> listener_call list \<times> listener_call list" where
  "addSocketListener api ev x =
     (if has_addEventListener api then
        ([AddEventListener ev x], if has_removeEventListener api then [RemoveEventListener ev x] else [])
      else if has_on api then
        ([AddOn ev x],
         if has_off api then [RemoveOff ev x] else if has_removeListener api then [RemoveListener ev x] else [])
      else ([], []))"

text \<open>The combined closure with its variable \<open>called\<close>.\<close>

definition combineCleanups :: "listener_call list list \<Rightarrow> bool \<Rightarrow> listener_call list \<times> bool" where
  "combineCleanups cleanups called = (if called then ([], called) else (concat cleanups, True))"

text \<open>What \<open>openSocket\<close> registers, in order; \<open>x\<close> numbers the four closures of a socket.\<close>

definition socket_listeners :: "nat \<Rightarrow> (ws_event \<times> nat) list" where
  "socket_listeners x = [(OpenEvent, x), (MessageEvent, x + 1), (CloseEvent, x + 2), (ErrorEvent, x + 3)]"

definition attach_calls :: "listener_api \<Rightarrow> nat \<Rightarrow> listener_call list" where
  "attach_calls api x = concat (map (\<lambda>(ev, y). fst (addSocketListener api ev y)) (socket_listeners x))"

definition removeListeners :: "listener_api \<Rightarrow> nat \<Rightarrow> bool \<Rightarrow> listener_call list \<times> bool" where
  "removeListeners api x = combineCleanups (map (\<lambda>(ev, y). snd (addSocketListener api ev y)) (socket_listeners x))"

section \<open>Registration and removal\<close>

definition can_listen :: "listener_api \<Rightarrow> bool" where
  "can_listen api = (has_addEventListener api \<or> has_on api)"

definition can_remove :: "listener_api \<Rightarrow> bool" where
  "can_remove api = (if has_addEventListener api then has_removeEventListener api
     else has_on api \<longrightarrow> has_off api \<or> has_removeListener api)"

lemma remove_last_append: "x \<notin> set ys \<Longrightarrow> remove_last x (xs @ x # ys) = xs @ ys"
  by (induction xs) auto

lemma attach_fold:
  assumes "distinct rs" and "set rs \<inter> set ls = {}"
  shows "fold listener_step (concat (map (\<lambda>(ev, y). fst (addSocketListener api ev y)) rs)) ls =
    (if can_listen api then ls @ rs else ls)"
  using assms
proof (induction rs arbitrary: ls)
  case (Cons r rs)
  obtain ev y where r: "r = (ev, y)" by fastforce
  from Cons show ?case
    by (cases "can_listen api") (auto simp: r addSocketListener_def can_listen_def)
qed simp

lemma cleanup_fold:
  assumes "distinct rs" and "set rs \<inter> set ls = {}" and "can_listen api" and "can_remove api"
  shows "fold listener_step (concat (map (\<lambda>(ev, y). snd (addSocketListener api ev y)) rs)) (ls @ rs) = ls"
  using assms
proof (induction rs)
  case (Cons r rs)
  obtain ev y where r: "r = (ev, y)" by fastforce
  have "removeAll r (ls @ r # rs) = ls @ rs" using Cons.prems(1,2) by auto
  moreover have "remove_last r (ls @ r # rs) = ls @ rs" using Cons.prems(1) by (intro remove_last_append) simp
  ultimately show ?case
    using Cons by (auto simp: r addSocketListener_def can_listen_def can_remove_def)
qed simp

lemma no_removal: "\<not> can_remove api \<Longrightarrow> snd (addSocketListener api ev y) = []"
  by (auto simp: addSocketListener_def can_remove_def split: if_splits)

lemma socket_listeners_distinct: "distinct (socket_listeners x)"
  by (simp add: socket_listeners_def)

lemma attach_all:
  "set (socket_listeners x) \<inter> set ls = {} \<Longrightarrow>
    fold listener_step (attach_calls api x) ls = (if can_listen api then ls @ socket_listeners x else ls)"
  unfolding attach_calls_def by (rule attach_fold [OF socket_listeners_distinct])

text \<open>
  On a socket without a method to remove listeners the handlers stay. They do no harm: a socket that the client does not
  listen to any more is not its current one, and the handlers of such a socket do nothing. So the flag may say
  that they are gone.
\<close>

lemma deaf_socket_inert:
  assumes "reachable h c" and "s < length (sockets c)" and "\<not> listening c s"
  shows "openHandler s c = c" and "messageHandler h s v c = (None, c)" and "closeHandler s v c = c" and "errorHandler s v c = c"
proof -
  have "socket_ok (socket c) (socketCleanup c) (pendingOpenReject c) (sockets c)"
    using reachable_sound [OF assms(1)] by (simp add: sound_def)
  then have "socket c \<noteq> Some s" using assms(2,3) by (auto simp: socket_ok_def listening_def)
  then show "openHandler s c = c" "messageHandler h s v c = (None, c)" "closeHandler s v c = c" "errorHandler s v c = c"
    by (simp_all add: openHandler_def messageHandler_def closeHandler_def errorHandler_def)
qed

section \<open>Properties\<close>

text \<open>C38. Listeners come off as they went on. On every kind of socket that can take listeners, opening registers the four
  handlers, each for its own event and once, behind those that were there; the cleanup, if the socket has a method to
  remove listeners, leaves exactly those that were there before, and running it again calls nothing.\<close>

theorem listeners_roundtrip:
  assumes "set (socket_listeners x) \<inter> set ls = {}" and "can_listen api"
  shows "fold listener_step (attach_calls api x) ls = ls @ socket_listeners x \<and>
    fold listener_step (fst (removeListeners api x False)) (ls @ socket_listeners x) =
      (if can_remove api then ls else ls @ socket_listeners x) \<and>
    removeListeners api x (snd (removeListeners api x False)) = ([], True)"
  using attach_all [OF assms(1), of api] assms(2) cleanup_fold [OF socket_listeners_distinct assms]
  by (cases "can_remove api") (simp_all add: removeListeners_def combineCleanups_def no_removal socket_listeners_def)

definition node_api :: listener_api where
  "node_api = \<lparr>has_addEventListener = False, has_removeEventListener = False, has_on = True, has_off = False,
     has_removeListener = True\<rparr>"

theorem listeners_roundtrip_witness:
  "fold listener_step (fst (removeListeners node_api 0 False)) ((CloseEvent, 9) # socket_listeners 0) = [(CloseEvent, 9)]"
  using listeners_roundtrip [of 0 "[(CloseEvent, 9)]" node_api]
  by (simp add: socket_listeners_def can_listen_def can_remove_def node_api_def)

end
