(* ===== verification/Json_Pretty.thy ===== *)
theory Json_Pretty
  imports Protocol Json_Roundtrip
begin

text \<open>
  \<open>JSON.stringify(value, null, 2)\<close>, the text of a tool result (\<open>extension/src/index.ts\<close>), and
  that \<open>JSON.parse\<close> reads it back.
\<close>

section \<open>The indented text\<close>

definition newline :: "string \<Rightarrow> string" where
  "newline indent = CHR 0x0A # indent"

definition bracket :: "char \<Rightarrow> char \<Rightarrow> string \<Rightarrow> string list \<Rightarrow> string" where
  "bracket a z indent parts =
     (if parts = [] then [a, z]
      else a # newline (indent @ ''  '') @ join_with (CHR '','' # newline (indent @ ''  '')) parts @ newline indent @ [z])"

fun pretty_val :: "string \<Rightarrow> jsval \<Rightarrow> string option"
  and pretty_elems :: "string \<Rightarrow> jsval list \<Rightarrow> string list"
  and pretty_members :: "string \<Rightarrow> (string \<times> jsval) list \<Rightarrow> string list" where
  "pretty_val i JUndef = None"
| "pretty_val i JNull = Some ''null''"
| "pretty_val i (JBool b) = Some (if b then ''true'' else ''false'')"
| "pretty_val i (JNum n) = Some (json_num n)"
| "pretty_val i (JStr s) = Some (json_quote s)"
| "pretty_val i (JArr xs) = Some (bracket CHR ''['' CHR '']'' i (pretty_elems (i @ ''  '') xs))"
| "pretty_val i (JObj kvs) = Some (bracket CHR ''{'' CHR ''}'' i (pretty_members (i @ ''  '') kvs))"
| "pretty_val i (JError m kvs) = Some (bracket CHR ''{'' CHR ''}'' i (pretty_members (i @ ''  '') kvs))"
| "pretty_val i (JBytes b) = Some (bracket CHR ''{'' CHR ''}'' i
     (map (\<lambda>(n, c). json_quote (nat_str n) @ '': '' @ nat_str (of_char c)) (zip [0..<length b] b)))"
| "pretty_val i (JFun n) = None"
| "pretty_elems i [] = []"
| "pretty_elems i (x # xs) = (case pretty_val i x of None \<Rightarrow> ''null'' | Some s \<Rightarrow> s) # pretty_elems i xs"
| "pretty_members i [] = []"
| "pretty_members i ((k, x) # kvs) =
     (case pretty_val i x of
        None \<Rightarrow> pretty_members i kvs
      | Some s \<Rightarrow> (json_quote k @ '': '' @ s) # pretty_members i kvs)"

definition json_pretty :: "jsval \<Rightarrow> string" where
  "json_pretty v = (case pretty_val [] v of None \<Rightarrow> ''undefined'' | Some s \<Rightarrow> s)"

section \<open>Blank space in a JSON text\<close>

abbreviation spaces :: "string \<Rightarrow> bool" where
  "spaces w \<equiv> list_all json_ws w"

lemma skip_spaces [simp]: "spaces w \<Longrightarrow> skip_ws (w @ s) = skip_ws s"
  by (induction w) (simp_all add: skip_ws_def)

lemma json_ws_blank [simp]: "json_ws CHR 0x0A" "json_ws CHR '' ''"
  by (simp_all add: json_ws_def)

lemma newline_spaces [simp]: "spaces i \<Longrightarrow> spaces (newline i)"
  by (simp add: newline_def)

lemma parse_value_spaces: "spaces w \<Longrightarrow> parse_value (w @ s) = parse_value s"
  by (subst (1 2) parse_value.simps) simp

lemma parse_members_spaces: "spaces w \<Longrightarrow> parse_members (w @ s) = parse_members s"
  by (subst (1 2) parse_members.simps) simp

lemma parse_elems_spaces: "spaces w \<Longrightarrow> parse_elems s = Some x \<Longrightarrow> parse_elems (w @ s) = Some x"
  by (subst parse_elems.simps, subst (asm) parse_elems.simps)
    (auto simp: parse_value_spaces split: option.splits if_splits list.splits)

lemma elems_step:
  assumes "parse_value (s @ r) = Some (v, r)" and "s \<noteq> []" and "skip_ws r = c # t"
  shows "parse_elems (s @ r) =
    (if c = CHR '']'' then Some ([v], t)
     else if c = CHR '','' then map_option (\<lambda>(xs, u). (v # xs, u)) (parse_elems t) else None)"
  using assms by (subst parse_elems.simps) simp

lemma members_step:
  assumes "parse_value (s @ r) = Some (v, r)" and "skip_ws r = c # t" and "no_surrogate k"
  shows "parse_members ((json_quote k @ '': '' @ s) @ r) =
    (if c = CHR ''}'' then Some ([(k, v)], t)
     else if c = CHR '','' then map_option (\<lambda>(kvs, u). ((k, v) # kvs, u)) (parse_members t) else None)"
proof -
  have "parse_value (CHR '' '' # s @ r) = Some (v, r)" using parse_value_spaces [of "'' ''" "s @ r"] assms(1) by simp
  then show ?thesis
    using assms(2,3) by (subst parse_members.simps) (simp add: json_quote_def parse_quoted skip_ws_id)
qed

section \<open>Reading it back\<close>

lemma pretty_val_None: "json_ok x \<Longrightarrow> pretty_val i x = None \<longleftrightarrow> x = JUndef"
  by (cases x) auto

lemma pretty_head:
  assumes "json_ok v" and "pretty_val i v = Some t"
  shows "\<exists>c r. t = c # r \<and> value_start c"
proof (cases v)
  case (JArr xs)
  with assms(2) show ?thesis by (auto simp: bracket_def)
next
  case (JObj kvs)
  with assms(2) show ?thesis by (auto simp: bracket_def)
qed (use assms json_val_head [of v t] in simp_all)

lemma pretty_members_empty: "members_ok kvs \<Longrightarrow> pretty_members i kvs = [] \<longleftrightarrow> norm_members kvs = []"
proof (induction kvs)
  case (Cons e kvs)
  then show ?case by (cases e; cases "snd e") (auto split: option.split)
qed simp

definition pretty_text :: "string \<Rightarrow> jsval \<Rightarrow> string" where
  "pretty_text i x = (case pretty_val i x of None \<Rightarrow> ''null'' | Some s \<Rightarrow> s)"

lemma pretty_text_head: "json_ok x \<Longrightarrow> \<exists>c r. pretty_text i x = c # r \<and> value_start c"
  using pretty_head [of x i] by (cases "pretty_val i x") (simp_all add: pretty_text_def)

lemma join_with_Cons: "join_with sep (s # ss) = s @ (if ss = [] then [] else sep @ join_with sep ss)"
  by (cases ss) simp_all

lemma join_head:
  "elems_ok xs \<Longrightarrow> xs \<noteq> [] \<Longrightarrow> \<exists>c r. join_with sep (pretty_elems i xs) = c # r \<and> value_start c"
  by (cases xs) (auto simp: join_with_Cons pretty_text_def [symmetric] dest!: pretty_text_head [of _ i])

lemma join_members_head:
  "members_ok kvs \<Longrightarrow> norm_members kvs \<noteq> [] \<Longrightarrow> \<exists>r. join_with sep (pretty_members i kvs) = CHR 0x22 # r"
proof (induction kvs)
  case (Cons e kvs)
  obtain k x where e: "e = (k, x)" by fastforce
  with Cons show ?case
    by (cases "pretty_val i x") (auto simp: join_with_Cons json_quote_def pretty_val_None)
qed simp

lemma stop_newline [simp]: "stop (newline i @ r)"
  by (simp add: stop_def newline_def)

lemma pretty_roundtrip:
  "json_ok v \<Longrightarrow> pretty_val i v = Some t \<Longrightarrow> spaces i \<Longrightarrow> stop r \<Longrightarrow> parse_value (t @ r) = Some (json_norm v, r)"
  "elems_ok xs \<Longrightarrow> xs \<noteq> [] \<Longrightarrow> spaces j \<Longrightarrow> spaces e \<Longrightarrow>
     parse_elems (join_with (CHR '','' # newline j) (pretty_elems j xs) @ newline e @ CHR '']'' # r) = Some (norm_elems xs, r)"
  "members_ok kvs \<Longrightarrow> norm_members kvs \<noteq> [] \<Longrightarrow> spaces j \<Longrightarrow> spaces e \<Longrightarrow>
     parse_members (join_with (CHR '','' # newline j) (pretty_members j kvs) @ newline e @ CHR ''}'' # r) = Some (norm_members kvs, r)"
proof (induction i v and j xs and j kvs arbitrary: t r and e r and e r rule: pretty_val_pretty_elems_pretty_members.induct)
  case 2
  then show ?case by (subst parse_value.simps) (auto simp: skip_ws_id parse_literal_def)
next
  case (3 i b)
  then show ?case by (subst parse_value.simps) (auto simp: skip_ws_id parse_literal_def)
next
  case (4 i n)
  then show ?case by (auto simp: parse_value_int)
next
  case (5 i s)
  then show ?case by (auto simp: parse_value_string)
next
  case (6 i xs)
  show ?case
  proof (cases "xs = []")
    case True
    with 6 have "t @ r = CHR ''['' # CHR '']'' # r" by (auto simp: bracket_def)
    with True show ?thesis by (subst parse_value.simps) (simp add: skip_ws_id)
  next
    case False
    let ?j = "i @ ''  ''"
    let ?u = "join_with (CHR '','' # newline ?j) (pretty_elems ?j xs)"
    from 6 have ok: "elems_ok xs" "spaces i" "spaces ?j" by simp_all
    then obtain c w where c: "?u = c # w" "value_start c" using join_head False by blast
    have p: "pretty_elems ?j xs \<noteq> []" using False by (cases xs) simp_all
    with 6(3) have t: "t @ r = CHR ''['' # newline ?j @ ?u @ newline i @ CHR '']'' # r" by (auto simp: bracket_def)
    from 6(1) [OF ok(1) False ok(3,2), of r] ok(3)
    have "parse_elems (newline ?j @ ?u @ newline i @ CHR '']'' # r) = Some (norm_elems xs, r)"
      by (rule_tac parse_elems_spaces) simp_all
    moreover have "take 1 (skip_ws (newline ?j @ ?u @ newline i @ CHR '']'' # r)) \<noteq> '']''"
      using c ok(3) by (simp add: skip_ws_id value_start_def)
    ultimately show ?thesis
      unfolding t by (subst parse_value.simps) (simp add: skip_ws_id)
  qed
next
  case (7 i kvs)
  show ?case
  proof (cases "norm_members kvs = []")
    case True
    with 7 pretty_members_empty [of kvs] have "t @ r = CHR ''{'' # CHR ''}'' # r" by (auto simp: bracket_def)
    with True show ?thesis by (subst parse_value.simps) (simp add: skip_ws_id)
  next
    case False
    let ?j = "i @ ''  ''"
    let ?u = "join_with (CHR '','' # newline ?j) (pretty_members ?j kvs)"
    from 7 have ok: "members_ok kvs" "distinct (map fst kvs)" "spaces i" "spaces ?j" by simp_all
    then obtain w where c: "?u = CHR 0x22 # w" using join_members_head False by blast
    with 7(3) False pretty_members_empty [OF ok(1)]
    have t: "t @ r = CHR ''{'' # newline ?j @ ?u @ newline i @ CHR ''}'' # r" by (auto simp: bracket_def)
    from 7(1) [OF ok(1) False ok(4,3), of r] ok(4)
    have "parse_members (newline ?j @ ?u @ newline i @ CHR ''}'' # r) = Some (norm_members kvs, r)"
      by (simp add: parse_members_spaces)
    moreover have "take 1 (skip_ws (newline ?j @ ?u @ newline i @ CHR ''}'' # r)) \<noteq> ''}''"
      using c ok(4) by (simp add: skip_ws_id)
    moreover have "fold (\<lambda>(k, x). AList.update k x) (norm_members kvs) [] = norm_members kvs"
      using fold_update [OF norm_members_distinct [OF ok(2)], of "[]"] by simp
    ultimately show ?thesis
      unfolding t by (subst parse_value.simps) (simp add: skip_ws_id)
  qed
next
  case (12 j x xs)
  let ?rest = "newline e @ CHR '']'' # r"
  let ?more = "join_with (CHR '','' # newline j) (pretty_elems j xs) @ ?rest"
  let ?r = "if xs = [] then ?rest else CHR '','' # newline j @ ?more"
  let ?v = "if x = JUndef then JNull else json_norm x"
  have x: "json_ok x" "elems_ok xs" "spaces j" "spaces e" using 12 by simp_all
  have "parse_value (pretty_text j x @ ?r) = Some (?v, ?r)"
  proof (cases "pretty_val j x")
    case None
    with x have "x = JUndef" by (simp add: pretty_val_None)
    then show ?thesis by (subst parse_value.simps) (simp add: pretty_text_def skip_ws_id parse_literal_def)
  next
    case (Some t)
    with x 12(1) [of t ?r] show ?thesis by (auto simp: pretty_text_def)
  qed
  moreover have "pretty_text j x \<noteq> []" using pretty_text_head [OF x(1)] by (metis list.distinct(1))
  moreover have "skip_ws ?r = (if xs = [] then CHR '']'' # r else CHR '','' # newline j @ ?more)"
    using x by (simp add: skip_ws_id)
  ultimately have s: "parse_elems (pretty_text j x @ ?r) = (if xs = [] then Some ([?v], r)
      else map_option (\<lambda>(ys, u). (?v # ys, u)) (parse_elems (newline j @ ?more)))"
    by (cases "xs = []") (simp_all add: elems_step)
  have e: "pretty_elems j xs = [] \<longleftrightarrow> xs = []" by (cases xs) simp_all
  show ?case
  proof (cases "xs = []")
    case False
    then have "parse_elems (newline j @ ?more) = Some (norm_elems xs, r)"
      using 12(2) [OF x(2) _ x(3,4)] x(3) by (rule_tac parse_elems_spaces) simp_all
    with s False show ?thesis by (simp add: join_with_Cons pretty_text_def [symmetric] e)
  qed (use s in \<open>simp add: pretty_text_def\<close>)
next
  case (14 j k x kvs)
  let ?rest = "newline e @ CHR ''}'' # r"
  let ?more = "join_with (CHR '','' # newline j) (pretty_members j kvs) @ ?rest"
  have x: "no_surrogate k" "json_ok x" "members_ok kvs" "spaces j" "spaces e" using 14 by simp_all
  show ?case
  proof (cases "pretty_val j x")
    case None
    with x have "x = JUndef" by (simp add: pretty_val_None)
    with 14 show ?thesis by simp
  next
    case (Some t)
    let ?r = "if norm_members kvs = [] then ?rest else CHR '','' # newline j @ ?more"
    from Some x have u: "x \<noteq> JUndef" by auto
    have "parse_value (t @ ?r) = Some (json_norm x, ?r)" using 14(1) [OF x(2) Some x(4), of ?r] x by simp
    moreover have "skip_ws ?r = (if norm_members kvs = [] then CHR ''}'' # r else CHR '','' # newline j @ ?more)"
      using x by (simp add: skip_ws_id)
    ultimately have s: "parse_members ((json_quote k @ '': '' @ t) @ ?r) =
        (if norm_members kvs = [] then Some ([(k, json_norm x)], r)
         else map_option (\<lambda>(ys, u). ((k, json_norm x) # ys, u)) (parse_members (newline j @ ?more)))"
      using x(1) by (cases "norm_members kvs = []") (simp_all add: members_step del: append.simps append_assoc)
    show ?thesis
    proof (cases "norm_members kvs = []")
      case False
      then have "parse_members (newline j @ ?more) = Some (norm_members kvs, r)"
        using 14(3) [OF Some x(3) _ x(4,5)] x(4) by (simp add: parse_members_spaces)
      with s False u Some pretty_members_empty [OF x(3)] show ?thesis by (simp add: join_with_Cons)
    qed (use s u Some pretty_members_empty [OF x(3)] in simp)
  qed
qed simp_all

lemma json_pretty_roundtrip:
  assumes "json_ok v" and "v \<noteq> JUndef"
  shows "json_parse (json_pretty v) = Some (json_norm v)"
proof -
  obtain t where t: "pretty_val [] v = Some t" using pretty_val_None [OF assms(1)] assms(2) by auto
  with pretty_roundtrip(1) [OF assms(1) t, of "[]"] show ?thesis
    by (simp add: json_parse_def json_pretty_def skip_ws_def)
qed

end
