(* ===== verification/Extension.thy ===== *)
theory Extension
  imports Tool_Events Json_Pretty
begin

text \<open>
  The entry of the extension (\<open>extension/src/index.ts\<close>): the value of a tool result and its text, the
  tool as Pi sees it, its registration with an API of unknown shape, and the notifications it sends to
  Pi. An API is a JavaScript value whose functions are numbers; \<open>api_call\<close> says how a call of one
  ends, and every call the extension makes is in a list of calls.
\<close>

section \<open>Tool results as values\<close>

text \<open>Members that are undefined are in the value; they leave no trace in its text.\<close>

fun transport_text :: "transport \<Rightarrow> string" where
  "transport_text Connected = ''connected''"
| "transport_text Stale = ''stale''"
| "transport_text Reconnecting = ''reconnecting''"
| "transport_text Disconnected = ''disconnected''"

definition state_value :: "relay_client_state \<Rightarrow> jsval" where
  "state_value s = JObj
     [(''token'', opt_str (st_token s)), (''channelId'', opt_str (st_channelId s)),
      (''deviceId'', opt_str (st_deviceId s)), (''status'', opt_str (st_status s)),
      (''joinRequestId'', opt_str (st_joinRequestId s)), (''wsUrl'', opt_str (st_wsUrl s)),
      (''transportStatus'', opt_str (map_option transport_text (st_transportStatus s))),
      (''lastRelayActivityAt'', opt_str (st_lastRelayActivityAt s)),
      (''lastDisconnectedAt'', opt_str (st_lastDisconnectedAt s)),
      (''lastCloseCode'', case st_lastCloseCode s of None \<Rightarrow> JUndef | Some n \<Rightarrow> JNum n),
      (''lastCloseReason'', opt_str (st_lastCloseReason s)),
      (''reconnectAttempt'', case st_reconnectAttempt s of None \<Rightarrow> JUndef | Some n \<Rightarrow> js_int (int n))]"

definition response_value :: "connect_response \<Rightarrow> jsval" where
  "response_value r = JObj
     ([(''status'', JStr (cr_status r)), (''channelId'', JStr (cr_channelId r)), (''deviceId'', JStr (cr_deviceId r)),
       (''token'', JStr (cr_token r)), (''wsUrl'', JStr (cr_wsUrl r))] @ opt_member ''joinRequestId'' (cr_joinRequestId r))"

definition ask_value :: "pending_ask \<Rightarrow> jsval" where
  "ask_value a = JObj
     [(''id'', ask_id a), (''from'', ask_from a), (''to'', ask_to a), (''channelId'', ask_channelId a),
      (''message'', JStr (ask_message a)), (''receivedAt'', JStr (ask_receivedAt a))]"

definition join_request_value :: "pending_join_request \<Rightarrow> jsval" where
  "join_request_value j = JObj
     [(''id'', JStr (jr_id j)), (''joinRequestId'', JStr (jr_joinRequestId j)), (''deviceId'', JStr (jr_deviceId j)),
      (''deviceName'', JStr (jr_deviceName j)), (''channelId'', opt_str (jr_channelId j)),
      (''channelName'', opt_str (jr_channelName j)), (''receivedAt'', JStr (jr_receivedAt j))]"

definition inbox_value :: "pending_inbox_item \<Rightarrow> jsval" where
  "inbox_value i = JObj
     [(''id'', item_id i), (''type'', JStr (item_type i)), (''from'', item_from i), (''to'', item_to i),
      (''channelId'', item_channelId i), (''message'', opt_str (item_message i)),
      (''receivedAt'', JStr (item_receivedAt i)), (''event'', item_event i)]"

definition snapshot_value :: "pending_snapshot \<Rightarrow> jsval" where
  "snapshot_value s = JObj
     [(''asks'', JArr (map ask_value (snap_asks s))),
      (''joinRequests'', JArr (map join_request_value (snap_joinRequests s))),
      (''inbox'', JArr (map inbox_value (snap_inbox s)))]"

fun result_value :: "tool_result \<Rightarrow> jsval" where
  "result_value (ConnectResult r st) = JObj
     [(''ok'', JBool True), (''action'', JStr ''connect''), (''response'', response_value r), (''connection'', state_value st)]"
| "result_value (ListResult req res owner members st) = JObj
     [(''ok'', JBool True), (''action'', JStr ''list''), (''event'', req), (''responseEvent'', res),
      (''ownerId'', owner), (''members'', members), (''connection'', state_value st)]"
| "result_value (StatusResult req res payload st) = JObj
     [(''ok'', JBool True), (''action'', JStr ''status''), (''event'', req), (''responseEvent'', res),
      (''status'', payload), (''connection'', state_value st)]"
| "result_value (DeliveryResult action req res payload st) = JObj
     [(''ok'', JBool True), (''action'', JStr action), (''event'', req), (''requestEvent'', req),
      (''responseEvent'', res), (''payload'', payload), (''connection'', state_value st)]"
| "result_value (PendingResult s) = JObj
     [(''ok'', JBool True), (''action'', JStr ''pending''), (''pending'', snapshot_value s)]"
| "result_value (DisconnectResult st) = JObj
     [(''ok'', JBool True), (''action'', JStr ''disconnect''), (''connection'', state_value st)]"

definition formatToolResult :: "tool_result \<Rightarrow> jsval" where
  "formatToolResult r = JObj
     [(''content'', JArr [JObj [(''type'', JStr ''text''), (''text'', JStr (json_pretty (result_value r)))]]),
      (''details'', result_value r)]"

section \<open>The tool for Pi\<close>

definition string_type :: jsval where "string_type = JObj [(''type'', JStr ''string'')]"

definition action_help :: string where
  "action_help = ''Action: connect, list, send, ask, reply, pending, status, disconnect, approve_join, or deny_join''"

text \<open>The argument is the number of the function \<open>execute\<close> of the object that is built.\<close>

definition toPiTool :: "nat \<Rightarrow> jsval" where
  "toPiTool n = JObj
     [(''name'', JStr tool_name), (''label'', JStr ''Remote Intercom''), (''description'', JStr tool_description),
      (''promptSnippet'', JStr
         ''Connect remote pi sessions through a relay channel; supports connect, list, send, ask, reply, pending, status, and join approval.''),
      (''promptGuidelines'', JArr
         [JStr ''Use remote_intercom when the user asks to connect pi sessions through the remote intercom relay.'',
          JStr ''Use remote_intercom approve_join or deny_join when a remote join request notification includes a joinRequestId.'']),
      (''parameters'', JObj
         [(''type'', JStr ''object''),
          (''properties'', JObj
             ((''action'', JObj [(''type'', JStr ''string''), (''description'', JStr action_help)])
              # map (\<lambda>k. (k, string_type))
                  [''channel'', ''channelName'', ''pin'', ''deviceName'', ''deviceId'', ''clientVersion'', ''to'',
                   ''message'', ''id'', ''replyTo'', ''joinRequestId'']
              @ [(''code'', JObj [(''type'', JStr ''number'')]), (''reason'', string_type)])),
          (''required'', JArr [JStr ''action'']), (''additionalProperties'', JBool False)]),
      (''execute'', JFun n)]"

text \<open>What Pi gets from \<open>execute\<close>: the call of the tool, and its outcome once it has ended.\<close>

datatype pi_outcome = PiRunning | PiReturned jsval | PiThrew jsval

definition pi_execute :: "tool_host \<Rightarrow> string \<Rightarrow> jsval \<Rightarrow> tool_context \<Rightarrow> tool_context" where
  "pi_execute h toolCallId params t = execute h params t"

fun pi_answer :: "tool_outcome \<Rightarrow> pi_outcome" where
  "pi_answer Running = PiRunning"
| "pi_answer (Returned r) = PiReturned (formatToolResult r)"
| "pi_answer (Threw e) = PiThrew e"

section \<open>The API\<close>

type_synonym api_call = "nat \<Rightarrow> jsval list \<Rightarrow> callback_outcome"
type_synonym calls = "(nat \<times> jsval list) list"

text \<open>A promise that is returned is not awaited.\<close>

fun dropped :: "callback_outcome \<Rightarrow> callback_outcome" where
  "dropped (Throws e) = Throws e"
| "dropped x = Returns"

definition call_function :: "api_call \<Rightarrow> nat \<Rightarrow> jsval list \<Rightarrow> callback_outcome \<times> calls" where
  "call_function call f args = (dropped (call f args), [(f, args)])"

definition registerWithUnknownApi :: "api_call \<Rightarrow> jsval \<Rightarrow> jsval \<Rightarrow> callback_outcome \<times> calls" where
  "registerWithUnknownApi call api piTool =
     (case api of
        JFun f \<Rightarrow> call_function call f [piTool]
      | _ \<Rightarrow>
          if \<not> is_object api then (Returns, [])
          else
            (case js_nullish (js_nullish (js_nullish (get api ''registerTool'') (get api ''register'')) (get api ''tool''))
                    (get api ''addTool'') of
               JUndef \<Rightarrow> (Returns, [])
             | JNull \<Rightarrow> (Returns, [])
             | JFun f \<Rightarrow> call_function call f [piTool]
             | register \<Rightarrow>
                 (case get register ''call'' of
                    JFun f \<Rightarrow> call_function call f [api, piTool]
                  | _ \<Rightarrow> (Throws type_error, []))))"

fun is_function :: "jsval \<Rightarrow> bool" where
  "is_function (JFun n) = True"
| "is_function v = False"

definition isExtensionAPI :: "jsval \<Rightarrow> bool" where
  "isExtensionAPI v = (is_object v \<and> is_function (get v ''registerTool''))"

definition pi_message :: "string \<Rightarrow> jsval" where
  "pi_message message = JObj
     [(''customType'', JStr ''remote-intercom''), (''content'', JStr message), (''display'', JBool True),
      (''details'', JObj [(''source'', JStr ''remote-intercom'')])]"

definition pi_delivery :: jsval where
  "pi_delivery = JObj [(''triggerTurn'', JBool True), (''deliverAs'', JStr ''steer'')]"

definition sendPiNotification :: "api_call \<Rightarrow> jsval \<Rightarrow> string \<Rightarrow> callback_outcome \<times> calls" where
  "sendPiNotification call api message =
     (case get api ''sendMessage'' of
        JUndef \<Rightarrow> (Returns, [])
      | JNull \<Rightarrow> (Returns, [])
      | JFun f \<Rightarrow> call_function call f [pi_message message, pi_delivery]
      | _ \<Rightarrow> (Throws type_error, []))"

text \<open>The calls to Pi that the notifications of a tool were.\<close>

fun pi_calls :: "api_call \<Rightarrow> jsval \<Rightarrow> notice list \<Rightarrow> calls" where
  "pi_calls call api [] = []"
| "pi_calls call api (Notified m e # ns) = snd (sendPiNotification call api m) @ pi_calls call api ns"
| "pi_calls call api (NotifyFailed err m e # ns) = pi_calls call api ns"
| "pi_calls call api (Unhandled x # ns) = pi_calls call api ns"

section \<open>The extension\<close>

record extension_options =
  eo_client :: "relay_client option"
  eo_pending :: "pending_state option"
  eo_config :: "relay_client_config option"
  eo_relay :: client_host
  eo_reconnectDelayMs :: "nat option"
  eo_onNotify :: "(string \<Rightarrow> jsval \<Rightarrow> callback_outcome) option"
  eo_onNotifyError :: "(jsval \<Rightarrow> string \<Rightarrow> jsval \<Rightarrow> callback_outcome) option"

definition default_options :: "client_host \<Rightarrow> extension_options" where
  "default_options rh = \<lparr>eo_client = None, eo_pending = None, eo_config = None, eo_relay = rh,
     eo_reconnectDelayMs = None, eo_onNotify = None, eo_onNotifyError = None\<rparr>"

definition createRemoteIntercomExtension ::
  "node_host \<Rightarrow> nat \<Rightarrow> extension_options \<Rightarrow> jsval + tool_host \<times> tool_context" where
  "createRemoteIntercomExtension nh t options =
     bindE (case eo_client options of
              Some c \<Rightarrow> Inr c
            | None \<Rightarrow> construct_client nh (nullish_or (eo_config options) empty_config) (eo_reconnectDelayMs options) t)
       (\<lambda>client.
          bindE (createRemoteIntercomTool nh t (Some client) (Some (nullish_or (eo_pending options) createPendingState)))
            (\<lambda>tool. Inr (\<lparr>relay = eo_relay options, onNotify = eo_onNotify options,
                           onNotifyError = eo_onNotifyError options\<rparr>, tool)))"

definition activate :: "api_call \<Rightarrow> jsval \<Rightarrow> callback_outcome \<times> calls" where
  "activate call api = (if api = JUndef then (Returns, []) else registerWithUnknownApi call api (toPiTool 0))"

text \<open>
  The default export is called with an API or with options. A value that is neither an API nor options
  carries none of them, and \<open>null\<close> has no properties to read.
\<close>

datatype extension_input = Options extension_options | Value jsval

fun input_options :: "api_call \<Rightarrow> client_host \<Rightarrow> extension_input \<Rightarrow> jsval + extension_options" where
  "input_options call rh (Options opts) = Inr opts"
| "input_options call rh (Value v) =
     (if isExtensionAPI v
      then Inr ((default_options rh)\<lparr>eo_onNotify := Some (\<lambda>message event. fst (sendPiNotification call v message))\<rparr>)
      else if v = JNull then Inl type_error else Inr (default_options rh))"

fun activate_input :: "api_call \<Rightarrow> extension_input \<Rightarrow> callback_outcome \<times> calls" where
  "activate_input call (Options opts) = (Returns, [])"
| "activate_input call (Value v) = (if isExtensionAPI v then activate call v else (Returns, []))"

definition remoteIntercomExtension ::
  "api_call \<Rightarrow> node_host \<Rightarrow> client_host \<Rightarrow> nat \<Rightarrow> extension_input \<Rightarrow> (jsval + tool_host \<times> tool_context) \<times> calls" where
  "remoteIntercomExtension call nh rh t input =
     (case bindE (input_options call rh input) (createRemoteIntercomExtension nh t) of
        Inl e \<Rightarrow> (Inl e, [])
      | Inr extension \<Rightarrow>
          (case activate_input call input of
             (Throws e, cs) \<Rightarrow> (Inl e, cs)
           | (_, cs) \<Rightarrow> (Inr extension, cs)))"

end
