(* ===== verification/Extension_Properties.thy ===== *)
theory Extension_Properties
  imports Extension
begin

text \<open>
  What the entry of the extension promises Pi: it registers the tool once, a message from the relay
  becomes one message to Pi, and the text of a result is the result.
\<close>

section \<open>Results\<close>

text \<open>C25. The text Pi shows for a result is the result: it is JSON that parses to the details, up to members that
  are undefined, whenever the texts in it have no lone surrogates and its numbers are integers.\<close>

theorem tool_text_faithful:
  assumes "json_ok (result_value r)"
  shows "\<exists>txt. formatToolResult r =
      JObj [(''content'', JArr [JObj [(''type'', JStr ''text''), (''text'', JStr txt)]]), (''details'', result_value r)] \<and>
    json_parse txt = Some (json_norm (result_value r))"
proof -
  have "result_value r \<noteq> JUndef" by (cases r) simp_all
  with assms have "json_parse (json_pretty (result_value r)) = Some (json_norm (result_value r))"
    by (rule json_pretty_roundtrip)
  then show ?thesis by (simp add: formatToolResult_def)
qed

definition demo_connected :: tool_result where
  "demo_connected = ConnectResult demo_connect_response (connectionState demo_open)"

text \<open>Times are plain texts.\<close>

lemma no_surrogate_plain: "CHR 0xED \<notin> set s \<Longrightarrow> no_surrogate s"
  by (induction s) auto

lemma plain_nat_str: "CHR 0xED \<notin> set (nat_str n)"
proof
  assume "CHR 0xED \<in> set (nat_str n)"
  then obtain d where "d \<in> set (digits10 n)" "digit_char d = CHR 0xED" by (auto simp: nat_str_def)
  with of_char_digit(1) [of d] digits10_lt [of d n] show False by simp
qed

lemma no_surrogate_iso [simp]: "no_surrogate (iso_string t)"
  by (rule no_surrogate_plain)
    (auto simp: iso_string_def pad_def plain_nat_str Let_def split: prod.split)

lemma connected_value: "json_ok (result_value demo_connected)"
  by (simp add: demo_connected_def response_value_def state_value_def opt_member_def demo_connect_response_def
      connectionState_def connectState_def demo_open_def demo_state_def currentStatus_def get_channelId_def
      get_deviceId_def Let_def opt_str_def)

theorem tool_text_faithful_witness:
  "\<exists>v. json_parse (json_pretty (result_value demo_connected)) = Some v \<and> get v ''action'' = JStr ''connect''"
  using tool_text_faithful [OF connected_value] by (auto simp: formatToolResult_def demo_connected_def)

text \<open>The token of the channel is part of what a connect shows.\<close>

lemma connect_shows_token:
  assumes "json_ok (result_value (ConnectResult r st))"
  shows "\<exists>v. json_parse (json_pretty (result_value (ConnectResult r st))) = Some v \<and>
    get (get v ''response'') ''token'' = JStr (cr_token r)"
  using json_pretty_roundtrip [OF assms] by (simp add: response_value_def)

section \<open>Registration\<close>

definition pi_host :: "api_call \<Rightarrow> jsval \<Rightarrow> client_host \<Rightarrow> tool_host" where
  "pi_host call api rh = \<lparr>relay = rh, onNotify = Some (\<lambda>m e. fst (sendPiNotification call api m)), onNotifyError = None\<rparr>"

text \<open>C26. The extension registers its tool exactly once, with the function \<open>registerTool\<close> of an API, after the client
  and the handlers are in place; what that call throws is thrown on, and without a usable configuration
  nothing is registered. The tool is then one on a new client and an empty store.\<close>

theorem api_registration:
  assumes "isExtensionAPI api" and "get api ''registerTool'' = JFun f"
  shows "case normalizeConfig nh empty_config of
      Inl e \<Rightarrow> remoteIntercomExtension call nh rh t (Value api) = (Inl e, [])
    | Inr cfg \<Rightarrow>
        (let tool = tool_on (new_client cfg None t) createPendingState in
         tool_reachable (pi_host call api rh) tool \<and>
         remoteIntercomExtension call nh rh t (Value api) =
           (case call f [toPiTool 0] of Throws e \<Rightarrow> Inl e | _ \<Rightarrow> Inr (pi_host call api rh, tool), [(f, [toPiTool 0])]))"
proof (cases "normalizeConfig nh empty_config")
  case (Inl e)
  then show ?thesis
    using assms(1) by (simp add: remoteIntercomExtension_def createRemoteIntercomExtension_def default_options_def construct_client_def)
next
  case (Inr cfg)
  let ?tool = "tool_on (new_client cfg None t) createPendingState"
  have "createRemoteIntercomExtension nh t ((default_options rh)\<lparr>eo_onNotify := Some (\<lambda>m e. fst (sendPiNotification call api m))\<rparr>) =
      Inr (pi_host call api rh, ?tool)"
    using Inr by (simp add: createRemoteIntercomExtension_def default_options_def construct_client_def
        createRemoteIntercomTool_def pi_host_def)
  moreover have "api \<noteq> JUndef" "is_object api" using assms(1) by (auto simp: isExtensionAPI_def is_object_def)
  moreover from this have "activate call api = call_function call f [toPiTool 0]"
    using assms(2) by (cases api) (simp_all add: activate_def registerWithUnknownApi_def js_nullish_def is_object_def)
  moreover have "tool_reachable (pi_host call api rh) ?tool"
    by (rule tool_reachable.created [OF reachable.start]) simp
  ultimately show ?thesis
    using Inr assms(1) by (cases "call f [toPiTool 0]") (simp_all add: remoteIntercomExtension_def call_function_def Let_def)
qed

definition demo_api :: jsval where
  "demo_api = JObj [(''registerTool'', JFun 7), (''sendMessage'', JFun 8)]"

theorem api_registration_witness:
  "\<exists>tool. remoteIntercomExtension (\<lambda>f args. Returns) bare_host demo_host 0 (Value demo_api) =
     (Inr (pi_host (\<lambda>f args. Returns) demo_api demo_host, tool), [(7, [toPiTool 0])])"
proof -
  have a: "isExtensionAPI demo_api" "get demo_api ''registerTool'' = JFun 7"
    by (simp_all add: isExtensionAPI_def demo_api_def is_object_def)
  from api_registration [OF a, where nh = bare_host and call = "\<lambda>f args. Returns" and rh = demo_host and t = 0] show ?thesis
    by (simp add: bare_host_config Let_def)
qed

section \<open>Notifications\<close>

lemma pi_calls_append [simp]: "pi_calls call api (ms @ ns) = pi_calls call api ms @ pi_calls call api ns"
  by (induction call api ms rule: pi_calls.induct) simp_all

lemma pi_calls_notified: "pi_calls call api ns = pi_calls call api (filter is_notified ns)"
  by (induction call api ns rule: pi_calls.induct) simp_all

text \<open>What the user is told of an event, by its type.\<close>

definition announcement :: "string option \<Rightarrow> string \<Rightarrow> jsval \<Rightarrow> string option" where
  "announcement channelName who e =
     (let ty = get e ''type''; text = as_string (get (get e ''payload'') ''text'');
          asking = (ty = JStr ''message.ask'' \<or> get (get e ''payload'') ''kind'' = JStr ''ask'') in
      if ty = JStr ''message.reply'' then map_option (\<lambda>m. ''Device '' @ who @ '' replied: '' @ m) text
      else if ty \<in> {JStr ''message.send'', JStr ''message.ask''} then
        (if \<not> asking then map_option (\<lambda>m. ''Device '' @ who @ '' says: '' @ m) text
         else if get e ''id'' = JUndef then None
         else map_option (\<lambda>m. ''Device '' @ who @ '' asks: '' @ m) text)
      else if ty = JStr ''join.approved'' then Some (''Join approved by '' @ who @ ''.'')
      else if ty = JStr ''join.denied'' then Some (''Join denied by '' @ who @ ''.'')
      else if ty = JStr ''join.request'' then
        map_option (\<lambda>r. join_message (jr_deviceName r) (the (jr_channelName r)) (jr_joinRequestId r)) (join_request e channelName [])
      else None)"

lemma handlers_for_type:
  "handlers_for ''message.send'' = [AskHandler, SendHandler]" "handlers_for ''message.ask'' = [AskHandler]"
  "handlers_for ''message.reply'' = [ReplyHandler]" "handlers_for ''join.approved'' = [JoinApprovedHandler]"
  "handlers_for ''join.denied'' = [JoinDeniedHandler]" "handlers_for ''owner.changed'' = [OwnerHandler]"
  "handlers_for ''presence.changed'' = [PresenceHandler]" "handlers_for ''error'' = [ErrorHandler]"
  "handlers_for ''join.request'' = [JoinHandler]"
  by (simp_all add: handlers_for_def registrations_def)

lemma registered_types: "set (map fst registrations) = {''message.send'', ''message.ask'', ''message.reply'', ''join.approved'',
    ''join.denied'', ''owner.changed'', ''presence.changed'', ''error'', ''join.request''}"
  by (simp add: registrations_def)

lemma unregistered: "ty \<notin> set (map fst registrations) \<Longrightarrow> handlers_for ty = []"
  by (auto simp: handlers_for_def filter_empty_conv)

lemma registered_said:
  assumes t: "get e ''type'' = JStr ty"
  shows "concat (map (said ch who e) (handlers_for ty)) = (case announcement ch who e of None \<Rightarrow> [] | Some m \<Rightarrow> [m])"
proof (cases "ty \<in> set (map fst registrations)")
  case False
  then have "announcement ch who e = None"
    unfolding registered_types using t by (simp add: announcement_def Let_def)
  with unregistered [OF False] show ?thesis by simp
next
  case True
  note said = handlers_for_type announcement_def ask_of_def statement_of_def Let_def
  from True have "ty = ''message.send'' \<or> ty = ''message.ask'' \<or> ty = ''message.reply'' \<or> ty = ''join.approved'' \<or> ty = ''join.denied''
      \<or> ty = ''owner.changed'' \<or> ty = ''presence.changed'' \<or> ty = ''error'' \<or> ty = ''join.request''"
    by (simp only: registered_types insert_iff empty_iff simp_thms)
  then show ?thesis
  proof (elim disjE)
    assume "ty = ''message.send''"
    with t show ?thesis
      by (cases "get (get e ''payload'') ''kind'' = JStr ''ask''"; cases "get e ''id'' = JUndef";
          cases "as_string (get (get e ''payload'') ''text'')") (simp_all add: said)
  next
    assume "ty = ''message.ask''"
    with t show ?thesis
      by (cases "get e ''id'' = JUndef"; cases "as_string (get (get e ''payload'') ''text'')") (simp_all add: said)
  next
    assume "ty = ''message.reply''"
    with t show ?thesis by (cases "as_string (get (get e ''payload'') ''text'')") (simp_all add: said)
  next
    assume "ty = ''join.request''"
    with t show ?thesis by (cases "join_request e ch []") (simp_all add: said)
  qed (use t in \<open>simp_all add: said\<close>)
qed

text \<open>C7. From the wire to Pi: a frame that the tool hears, of any type, whose sender can be written as text, becomes at most
  one message to Pi, and exactly the one its event calls for: a message that says, asks or replies names its sender and holds
  its text, an approval and a denial name who decided, a join request that can be decided names the device and the id to decide
  with. A message without a text, an ask without an id and an event of any other type, a broadcast too, become none.
  The message triggers a turn, and it is sent however that call ends.\<close>

theorem message_reaches_pi:
  assumes h: "hears (pi_host call api rh) t s e ty" and e: "json_parse txt = Some e" "get e ''type'' = JStr ty"
    and who: "sender_text e = Some who" and api: "get api ''sendMessage'' = JFun f"
  shows "\<exists>u. tool_act (pi_host call api rh) (ClientAct (SockMessage s (JStr txt))) t = Some u \<and>
    pi_calls call api (ctx_notes u) = pi_calls call api (ctx_notes t) @
      (case announcement (ctx_channelName t) who e of None \<Rightarrow> [] | Some m \<Rightarrow> [(f, [pi_message m, pi_delivery])])"
proof -
  have n: "onNotify (pi_host call api rh) = Some (\<lambda>m e. fst (sendPiNotification call api m))" by (simp add: pi_host_def)
  obtain u where u: "tool_act (pi_host call api rh) (ClientAct (SockMessage s (JStr txt))) t = Some u"
      and told: "told e t u (concat (map (said (ctx_channelName t) who e) (handlers_for ty)))"
    using frame_heard [OF h e] who n by (metis option.distinct(1))
  obtain ns where ns: "ctx_notes u = ctx_notes t @ ns" "filter is_notified ns =
      map (\<lambda>m. Notified m e) (case announcement (ctx_channelName t) who e of None \<Rightarrow> [] | Some m \<Rightarrow> [m])"
    using told by (auto simp: told_def registered_said [OF e(2)])
  have "pi_calls call api ns = (case announcement (ctx_channelName t) who e of None \<Rightarrow> [] | Some m \<Rightarrow> [(f, [pi_message m, pi_delivery])])"
    using api by (subst pi_calls_notified) (simp add: ns(2) sendPiNotification_def call_function_def split: option.split)
  with u ns(1) show ?thesis by (auto simp del: tool_act.simps)
qed

theorem message_reaches_pi_witness:
  "\<exists>u. tool_act (pi_host (\<lambda>f args. Throws JNull) demo_api demo_host)
       (ClientAct (SockMessage 0 (JStr (json_stringify demo_ask)))) demo_tool_opening = Some u \<and>
     pi_calls (\<lambda>f args. Throws JNull) demo_api (ctx_notes u) = [(8, [pi_message ''Device b asks: hi'', pi_delivery])]"
proof -
  have a: "get demo_api ''sendMessage'' = JFun 8" by (simp add: demo_api_def)
  have n: "ctx_notes demo_tool_opening = []" by (simp add: demo_tool_opening_def demo_tool_def tool_on_def)
  have w: "sender_text demo_ask = Some ''b''" by (simp add: sender_text_def js_nullish_def demo_ask_fields)
  have m: "announcement c ''b'' demo_ask = Some ''Device b asks: hi''" for c
    by (simp add: announcement_def demo_ask_fields Let_def)
  from message_reaches_pi [OF demo_hears(1) demo_ask_parsed demo_ask_fields(1) w a, of "\<lambda>f args. Throws JNull" demo_host] show ?thesis
    by (simp add: n m del: tool_act.simps)
qed

text \<open>A promise of Pi that is rejected is reported to no one.\<close>

lemma pi_rejection_lost:
  assumes "get api ''sendMessage'' = JFun f" and "call f [pi_message m, pi_delivery] = Rejects err"
  shows "notify (pi_host call api rh) m e t = (None, t\<lparr>ctx_notes := ctx_notes t @ [Notified m e]\<rparr>)"
  using assms by (simp add: notify_def caught_def pi_host_def sendPiNotification_def call_function_def)

end
