(* ===== verification/Divergences.thy ===== *)
theory Divergences
  imports Extension_Properties Client_Race
begin

text \<open>
  Places where the code does something else than its documents or its other half expect. The
  departures of the client itself are in \<open>Client_Race\<close> and \<open>Client_Behaviour\<close>.
\<close>

section \<open>A close code the socket rejects\<close>

lemma foreign_effects:
  "list_all (\<lambda>x. \<forall>k e. x \<noteq> ODispatch k e) es \<Longrightarrow> fold (run_effect h) es t = t"
proof (induction es)
  case (Cons x es)
  then show ?case by (cases x) auto
qed simp

lemma disconnect_log:
  "\<exists>es. log (snd (disconnect h code reason c)) = log c @ es \<and> list_all (\<lambda>x. \<forall>k e. x \<noteq> ODispatch k e) es"
  by (auto simp: disconnect_def closeCurrentSocket_log same_simps Let_def split: option.split)

lemma disconnect_rejected:
  assumes "socket c = Some s" and "pendingOpenReject c = None" and "close_throws h n reason = Some e"
  shows "fst (disconnect h (Some n) reason c) = Some e \<and> socket (snd (disconnect h (Some n) reason c)) = None \<and>
    st_transportStatus (client_state (snd (disconnect h (Some n) reason c))) = st_transportStatus (client_state c)"
  using assms
  by (simp add: disconnect_def closeCurrentSocket_def upd upd_socket_def settle_def Let_def split: option.split)

text \<open>
  The action \<open>disconnect\<close> of an open connection with a code that \<open>close\<close> rejects throws: the connection is gone, but
  the state still reports the transport as it was, and the store is not cleared.
\<close>

lemma rejected_code_half_done:
  assumes "socket (ctx_client t) = Some s" and "pendingOpenReject (ctx_client t) = None"
    and "close_throws (relay_host h) n reason = Some e" and "u = run_input h (InDisconnect (Some n) reason) t"
  shows "ctx_calls u = ctx_calls t @ [Threw e]" and "ctx_pending u = ctx_pending t" and "socket (ctx_client u) = None"
    and "st_transportStatus (client_state (ctx_client u)) = st_transportStatus (client_state (ctx_client t))"
proof -
  let ?d = "snd (disconnect (relay_host h) (Some n) reason (ctx_client t))"
  obtain es where es: "log ?d = log (ctx_client t) @ es" "list_all (\<lambda>x. \<forall>k e. x \<noteq> ODispatch k e) es"
    using disconnect_log by blast
  have r: "disconnect (relay_host h) (Some n) reason (ctx_client t) = (Some e, ?d)"
    using disconnect_rejected [OF assms(1-3)] by (simp add: prod_eq_iff)
  have "client_update h ?d t = t\<lparr>ctx_client := ?d\<rparr>"
    using es by (simp add: client_update_def foreign_effects)
  then have u: "u = answer (Threw e) (t\<lparr>ctx_client := ?d\<rparr>)"
    using assms(4) r by (simp split: prod.splits)
  then show "ctx_calls u = ctx_calls t @ [Threw e]" and "ctx_pending u = ctx_pending t"
    by (simp_all add: answer_def)
  from u disconnect_rejected [OF assms(1-3)] show "socket (ctx_client u) = None"
      and "st_transportStatus (client_state (ctx_client u)) = st_transportStatus (client_state (ctx_client t))"
    by (simp_all add: answer_def)
qed

section \<open>Closing a socket that is still opening\<close>

text \<open>
  Replacing or leaving a connection that is still opening first removes the listeners of its socket and then
  closes it: the error with which a socket reports an aborted handshake finds no listener.
\<close>

lemma opening_socket_closed_deaf:
  assumes "socket c = Some s" and "pendingOpenReject c = Some s" and "\<not> ws_settled (sockets c ! s)"
  shows "log (closeCurrentSocket code reason b c) = log c @ [OClose s code reason]"
    and "\<not> listening (closeCurrentSocket code reason b c) s"
  using assms
  by (simp_all add: closeCurrentSocket_log closeCurrentSocket_def rejectBeforeOpen_def listening_def upd
      upd_socket_def settle_def Let_def)

section \<open>Two events in one millisecond\<close>

text \<open>An inbox item of an event without id is named by the type and the time, so the second of two such events
  in the same millisecond replaces the first.\<close>

lemma inbox_collision:
  assumes "get e ''id'' = JUndef" and "get e' ''id'' = JUndef" and "event_type e = event_type e'"
  shows "ctx_pending (addInboxEvent e' m' r (addInboxEvent e m r t)) =
    ctx_pending (addInboxEvent e' m' r t)"
  using assms by (simp add: addInboxEvent_def addInbox_def js_nullish_def jm_set_def)

section \<open>A broadcast\<close>

text \<open>
  The protocol (\<open>protocol/wire.md\<close>) and the relay deliver a broadcast to the other members under its own type, for which
  the tool has no handler: it reaches neither the store nor the user.
\<close>

lemma broadcast_ignored:
  assumes "hears h t s e ''message.broadcast''" and "json_parse txt = Some e" and "get e ''type'' = JStr ''message.broadcast''"
  shows "\<exists>c. tool_act h (ClientAct (SockMessage s (JStr txt))) t = Some (t\<lparr>ctx_client := c\<rparr>)"
proof -
  have "handlers_for ''message.broadcast'' = []" by (simp add: handlers_for_def registrations_def)
  with frame_taken [OF assms] show ?thesis by (auto simp del: tool_act.simps)
qed

section \<open>A registrar that cannot register\<close>

text \<open>The tool is created before the registrar is looked at: the handlers stay on the client of the caller, and the
  tool that could remove them is lost.\<close>

lemma registrar_leaves_handlers:
  assumes "register_function r = None" and "handlers_of c ''message.send'' = []" and "handlers_of c ''*'' = []"
  shows "\<exists>tool. registerRemoteIntercom throws r nh t (Some c) store = Inr (None, Some no_registrar, tool) \<and>
    handlers_of (ctx_client tool) ''message.send'' = [0, 1]"
  using handlers_of_install [OF assms(2,3)] assms(1)
  by (simp add: registerRemoteIntercom_def createRemoteIntercomTool_def tool_on_def)

end
