(* ===== verification/Spec2Isabelle.thy ===== *)
theory Spec2Isabelle
  imports Config Pending Client_Progress Client_Trace Wire_Properties Tool_Winddown Tool_Callbacks Listeners Divergences Extension_Properties
begin

text \<open>
  A verification of the extension of remote-intercom (\<open>extension/src\<close>), the part that runs in a Pi
  session: a client that talks to a relay over one HTTP request and a WebSocket, the tool an agent uses,
  and the entry that registers the tool with Pi.

  \<^bold>\<open>The program.\<close> \<open>index.ts\<close> builds a \<open>RelayClient\<close> and a \<open>PendingState\<close>, creates the tool on them and
  registers it. The tool (\<open>tools/intercom-tool.ts\<close>) checks the input of an action, calls one method of
  the client, awaits its promise and turns the outcome into a result; beside that it listens to relay
  events, files them in the pending store and notifies the user. The client
  (\<open>client/relay-client.ts\<close>) connects, keeps one socket alive with a heartbeat, reconnects with a
  growing delay, writes events and pairs each request with its answer by id. \<open>client/protocol.ts\<close> names the
  wire's types, \<open>state/config.ts\<close> normalises the configuration, \<open>state/pending.ts\<close> is the store.

  \<^bold>\<open>The language.\<close> \<open>Prelude\<close> holds results of code that may throw (\<open>Inl\<close> the thrown value), the
  insertion-ordered \<open>Map\<close> and the locales for invariants and for measures of a run. \<open>Js_Value\<close> has
  JavaScript values and the language operations used, \<open>Json\<close> has \<open>JSON.stringify\<close> and \<open>JSON.parse\<close> as
  executable functions, \<open>Json_Pretty\<close> the indented text; \<open>Json_Roundtrip\<close> and \<open>Json_Pretty\<close> show that
  what is written is read back. \<open>Runtime\<close> is the event loop: a clock, promises, continuations, timers and
  a log of the effects on the outside.

  \<^bold>\<open>The parts.\<close>
  \<^item> \<open>Config\<close>: \<open>state/config.ts\<close>. The environment, the file system and the host name are the record
    \<open>node_host\<close>.
  \<^item> \<open>Pending\<close>: \<open>state/pending.ts\<close>, with the locale \<open>keyed_items\<close> for the contract of one kind of item
    (what a lookup gives after an insertion and a removal), interpreted for asks, join requests and inbox, and the
    history of a store as a reference that its lookups and its snapshot agree with.
  \<^item> \<open>Protocol\<close>: the event types of \<open>client/protocol.ts\<close> and the pure helpers at the end of \<open>relay-client.ts\<close>
    (connect response, errors, close events, socket data, acknowledgements). \<open>Wire_Types\<close>: its interfaces of
    events and payloads as types, with the test whether a JavaScript value conforms to one.
  \<^item> \<open>Client_State\<close>, \<open>Client\<close>: the class \<open>RelayClient\<close>. Its private fields are the fields of the record
    \<open>relay_client\<close>; a socket, a promise, a timer and a handler are numbers. An asynchronous method is cut at its
    awaits: the method is the part up to the first one, and each later part is a constructor of \<open>cont\<close>
    with the variables it closes over. \<open>act\<close> is everything that can happen: a call, the answer of a
    fetch, events of sockets, a due timer, a continuation whose promise is settled, the passage of time.
    \<open>reachable\<close> are the states any sequence of these leads to. \<open>Listeners\<close>: the attachment of the four
    handlers to the methods a socket offers, and why the client's model needs only one flag for it.
  \<^item> \<open>Tool_Input\<close>, \<open>Tool\<close>, \<open>Tool_Execute\<close>: \<open>tools/intercom-tool.ts\<close>. A call of \<open>execute\<close> is numbered; it runs to
    the await of the client's promise, and \<open>Continue\<close> runs the rest once the promise is settled. The events
    the client dispatches are entries of its log; after each step of the client the tool's handlers run
    for the entries it added, in order.
  \<^item> \<open>Extension\<close>: \<open>index.ts\<close>. The API of Pi is a JavaScript value whose functions are numbers.

  \<^bold>\<open>What is shown.\<close>
  \<^item> \<open>Client_Invariant\<close> and \<open>Client_Sound\<close> define \<open>sound\<close> and prove it of every reachable client: one current
    socket, timers and waiters in step, and every unsettled promise owed by a timer, a continuation, a
    fetch or the opening socket.
  \<^item> \<open>Client_Effects\<close> bounds what is written: every frame is well formed and at most 64 KiB, and no call
    writes its frame twice. \<open>Client_Generations\<close> shows that a disconnected client stays silent and that one
    reconnect loop runs at a time. \<open>Client_Typed\<close> types the promises, which gives what an operation's promise can be
    fulfilled with; \<open>Client_Operations\<close> is the interface the tool relies on (\<open>RemoteIntercomClient\<close>), the locale
    \<open>promised_operation\<close>, interpreted for each method that returns a promise;
    \<open>Client_Outcomes\<close> draws the consequence that a send that succeeds was delivered.
  \<^item> \<open>Client_Rest\<close> weighs the continuations, so that every one that runs leaves less; \<open>Client_Waits\<close> puts the
    promises on levels, so that none waits for itself. \<open>Client_Progress\<close> concludes that the client comes to rest
    between two events from outside, and what it then waits for is an event from outside. \<open>Client_Winddown\<close> shows
    that after a disconnect everything that was under way ends in boundedly many steps, \<open>Tool_Winddown\<close> the same of
    the calls of a tool.
  \<^item> \<open>Client_Trace\<close>: the log of the client is a run of an abstract link, with one socket at a time.
  \<^item> \<open>Client_Wire\<close> and \<open>Wire_Properties\<close>: as long as the relay's events conform to the interfaces, so do the client's, and
    so do the answers it hands out; acknowledgements conform in any case, as they are checked.
  \<^item> \<open>Client_Properties\<close> and \<open>Client_Behaviour\<close> state the properties of the client; \<open>Client_Demo\<close> has the
    concrete session they are applied to, \<open>Client_Race\<close> a run that breaks the documented single flight.
  \<^item> \<open>Tool_Invariant\<close> proves that a tool drives its client only by the client's own actions (so all of the
    above holds under it) and that its waiting calls agree with the typing of the promises.
    \<open>Tool_Script\<close> writes down which calls an action of the tool makes on the client and which operations it
    runs on the store; \<open>Tool_Properties\<close> concludes that every run follows this script, and how a call ends.
    \<open>Tool_Events\<close> shows what an inbound frame leaves, with the locale \<open>event_source\<close> for the interface of \<open>on\<close> and
    \<open>off\<close>; \<open>Tool_Callbacks\<close> that a run with callbacks of the user, throwing ones included, is one without them.
    \<open>Tool_Demo\<close> is a tool that has connected.
  \<^item> \<open>Extension_Properties\<close>: registration, the way of a message from the wire to Pi, and the text of results.
  \<^item> \<open>Divergences\<close>: lemmas on places where the code and its documents part.

  \<^bold>\<open>Bounds.\<close> There is no fuel: a loop of the source with an await in it is a sequence of steps, and the other
  recursions end on their data. The frame limit, the intervals and the largest delay are the source's constants.
  Counters are natural numbers; the source's are doubles, which agree up to \<open>2 ^ 53\<close>.

  \<^bold>\<open>What is a parameter.\<close> The host of the client (\<open>client_host\<close>) gives fresh ids, URLs with the token, the
  constructor and first state of a WebSocket, what \<open>close\<close> throws on a code, \<open>Buffer.from\<close> on a value that is
  not bytes, and what a foreign handler throws. The relay is the outside world: the answers and frames it sends
  are arbitrary. A write to an open socket is assumed not to throw, and an aborted fetch is a rejected one.
  Whether \<open>close\<close> throws is taken to depend on its arguments only, and a socket that rejects them counts as closing,
  as it does in the \<open>ws\<close> package; the client has let go of it by then.

  \<^bold>\<open>What is not modelled.\<close> Callbacks of the user do not call back into the client or the tool while they run. Objects
  are compared by structure where the source compares identity; this concerns ids and senders that are objects,
  which no relay sends. The delay of a reconnect is a natural number; the source's is not a number after 1024 failed
  attempts with a base delay of zero, which a timer takes for no delay too. Numbers are exact decimals and integer-like keys keep their place. The members
  of a state value are in the order of its interface, and an absent one is undefined. The default generator of ids and the
  default fetch are not modelled; nor is a client that is not a
  \<open>RelayClient\<close>. The relay (\<open>relay\<close>, in Go), the installer, the deployment files and the bundle script are outside
  the development.
\<close>

end
